(* ===== verification/Prelude.thy ===== *)
theory Prelude
  imports Main "HOL-Library.Word"
begin

text \<open>
  Shared vocabulary of the development: the Go integer and string types, the
  reader monad of \<^verbatim>\<open>buffer\<close> methods, the formatting and string functions of
  Go's standard library that the source uses, and the two interfaces every
  decoder of the wire format meets: \<open>consuming\<close> (a decoder only ever removes a
  prefix of its input) and \<open>codec\<close> (a decoder inverts an encoder and leaves the
  bytes after it alone).
\<close>

unbundle bit_operations_syntax

section \<open>Types\<close>

type_synonym byte = "8 word"
type_synonym uint32 = "32 word"
type_synonym uint64 = "64 word"
type_synonym bytes = "byte list"

text \<open>
  \<open>buffer\<close> is the source's \<^verbatim>\<open>struct buffer { b []byte }\<close>: one field, so the
  record is its contents. Reading methods return whether they succeeded and
  leave the rest of the buffer behind, also when they fail half way.
\<close>

type_synonym buffer = bytes
type_synonym 'a reader = "buffer \<Rightarrow> 'a option \<times> buffer"

named_theorems codec_simps "facts that evaluate decoders on encoded input"
named_theorems wire_defs "definitions of encoders and decoders"

section \<open>The reader monad\<close>

definition rd_return :: "'a \<Rightarrow> 'a reader" where
  "rd_return x b = (Some x, b)"

definition rd_fail :: "'a reader" where
  "rd_fail b = (None, b)"

definition rd_bind :: "'a reader \<Rightarrow> ('a \<Rightarrow> 'b reader) \<Rightarrow> 'b reader" where
  "rd_bind m f b = (case m b of (None, b') \<Rightarrow> (None, b') | (Some x, b') \<Rightarrow> f x b')"

primrec rd_repeat :: "nat \<Rightarrow> 'a reader \<Rightarrow> 'a list reader" where
  "rd_repeat 0 m = rd_return []"
| "rd_repeat (Suc n) m = rd_bind m (\<lambda>x. rd_bind (rd_repeat n m) (\<lambda>xs. rd_return (x # xs)))"

lemma rd_return_simp [simp]: "rd_return x b = (Some x, b)"
  by (simp add: rd_return_def)

lemma rd_fail_simp [simp]: "rd_fail b = (None, b)"
  by (simp add: rd_fail_def)

lemma rd_bind_Some [simp]: "m b = (Some x, b') \<Longrightarrow> rd_bind m f b = f x b'"
  by (simp add: rd_bind_def)

lemma rd_bind_None [simp]: "m b = (None, b') \<Longrightarrow> rd_bind m f b = (None, b')"
  by (simp add: rd_bind_def)

lemma rd_bind_SomeD:
  assumes "rd_bind m f b = (Some y, b'')"
  obtains x b' where "m b = (Some x, b')" and "f x b' = (Some y, b'')"
  using assms by (auto simp: rd_bind_def split: prod.splits option.splits)

lemma rd_repeat_length: "rd_repeat n m b = (Some xs, b') \<Longrightarrow> length xs = n"
  by (induction n arbitrary: b xs) (auto elim!: rd_bind_SomeD)

text \<open>A loop of appending writes is one append.\<close>

lemma foldl_appending:
  assumes "\<And>b x. f b x = b @ f [] x"
  shows "foldl f buf xs = buf @ concat (map (f []) xs)"
proof (induction xs arbitrary: buf)
  case (Cons x xs)
  have "foldl f buf (x # xs) = f buf x @ concat (map (f []) xs)" using Cons.IH by simp
  also have "f buf x = buf @ f [] x" by (rule assms)
  finally show ?case by simp
qed simp

section \<open>The interfaces of decoders\<close>

text \<open>
  A decoder never invents, reorders or peeks past what it reports as left: a
  successful read removes a prefix of at least \<open>low\<close> bytes.
\<close>

locale consuming =
  fixes dec :: "'a reader" and low :: nat
  assumes consumes: "dec b = (Some x, b') \<Longrightarrow> \<exists>p. b = p @ b' \<and> low \<le> length p"
begin

lemma shorter: "dec b = (Some x, b') \<Longrightarrow> length b' + low \<le> length b"
  using consumes by fastforce

lemma suffix_left: "dec b = (Some x, b') \<Longrightarrow> b' = drop (length b - length b') b"
  using consumes by fastforce

text \<open>Reading an array of \<open>n\<close> elements needs the bytes of \<open>n\<close> elements.\<close>

lemma repeat_consumes:
  "rd_repeat n dec b = (Some xs, b') \<Longrightarrow> \<exists>p. b = p @ b' \<and> n * low \<le> length p"
proof (induction n arbitrary: b xs)
  case 0
  then show ?case by simp
next
  case (Suc n)
  from Suc.prems obtain x ys b1 where one: "dec b = (Some x, b1)"
      and rest: "rd_repeat n dec b1 = (Some ys, b')"
    by (auto elim!: rd_bind_SomeD)
  from consumes [OF one] obtain p where p: "b = p @ b1" "low \<le> length p" by blast
  from Suc.IH [OF rest] obtain q where q: "b1 = q @ b'" "n * low \<le> length q" by blast
  have "b = (p @ q) @ b'" and "Suc n * low \<le> length (p @ q)"
    using p q by simp_all
  then show ?case by blast
qed

lemma repeat_bound: "rd_repeat n dec b = (Some xs, b') \<Longrightarrow> length xs * low + length b' \<le> length b"
  using repeat_consumes rd_repeat_length by fastforce

end

text \<open>
  A codec: on the values the encoder can represent, decoding inverts encoding,
  whatever follows. The format is then prefix free, and so uniquely decodable.
\<close>

locale codec =
  fixes enc :: "'a \<Rightarrow> bytes" and dec :: "'a reader" and ok :: "'a \<Rightarrow> bool"
  assumes dec_enc: "ok x \<Longrightarrow> dec (enc x @ rest) = (Some x, rest)"
begin

lemma dec_enc_nil: "ok x \<Longrightarrow> dec (enc x) = (Some x, [])"
  using dec_enc [of x "[]"] by simp

lemma prefix_free: "ok x \<Longrightarrow> ok y \<Longrightarrow> enc x @ r = enc y @ s \<Longrightarrow> x = y \<and> r = s"
  by (metis dec_enc option.inject prod.inject)

lemma enc_inj: "ok x \<Longrightarrow> ok y \<Longrightarrow> enc x = enc y \<Longrightarrow> x = y"
  using prefix_free [of x y "[]" "[]"] by simp

lemma repeat_dec_enc:
  "\<forall>x \<in> set xs. ok x \<Longrightarrow>
     rd_repeat (length xs) dec (concat (map enc xs) @ rest) = (Some xs, rest)"
  by (induction xs) (simp_all add: dec_enc)

end

section \<open>Go strings\<close>

text \<open>
  A Go string is a sequence of bytes, as is a HOL string: \<open>char\<close> has exactly the
  256 byte values.
\<close>

definition bytes_of :: "string \<Rightarrow> bytes" where
  "bytes_of s = map of_char s"

definition string_of :: "bytes \<Rightarrow> string" where
  "string_of b = map (\<lambda>x. char_of (unat x)) b"

lemma unat_of_char [simp]: "unat (of_char c :: byte) = of_char c"
proof -
  have "(of_char c :: byte) = of_nat (of_char c)" by (simp add: of_nat_of_char)
  then show ?thesis by (simp add: unat_of_nat)
qed

lemma char_byte [simp]: "char_of (unat (of_char c :: byte)) = c"
  by simp

lemma byte_char [simp]: "(of_char (char_of (unat b)) :: byte) = b"
proof -
  have "unat b < 256" using unsigned_less [of b] by simp
  then have "(of_nat (of_char (char_of (unat b)) :: nat) :: byte) = of_nat (unat b)" by simp
  then show ?thesis by (simp only: of_nat_of_char of_nat_unat ucast_id)
qed

lemma string_of_bytes_of [simp]: "string_of (bytes_of s) = s"
  by (simp add: string_of_def bytes_of_def comp_def map_idI)

lemma bytes_of_string_of [simp]: "bytes_of (string_of b) = b"
  by (simp add: string_of_def bytes_of_def comp_def map_idI)

lemma length_bytes_of [simp]: "length (bytes_of s) = length s"
  by (simp add: bytes_of_def)

lemma length_string_of [simp]: "length (string_of b) = length b"
  by (simp add: string_of_def)

text \<open>\<^verbatim>\<open>strings.HasPrefix\<close>, \<^verbatim>\<open>strings.TrimPrefix\<close> and their \<^verbatim>\<open>bytes\<close> twins.\<close>

fun has_prefix :: "'a list \<Rightarrow> 'a list \<Rightarrow> bool" where
  "has_prefix _ [] = True"
| "has_prefix [] (_ # _) = False"
| "has_prefix (x # xs) (y # ys) = (x = y \<and> has_prefix xs ys)"

definition trim_prefix :: "'a list \<Rightarrow> 'a list \<Rightarrow> 'a list" where
  "trim_prefix s p = (if has_prefix s p then drop (length p) s else s)"

lemma has_prefix_iff: "has_prefix s p \<longleftrightarrow> (\<exists>r. s = p @ r)"
  by (induction s p rule: has_prefix.induct) auto

lemma has_prefix_append [simp]: "has_prefix (p @ r) p"
  by (auto simp: has_prefix_iff)

lemma trim_prefix_append [simp]: "trim_prefix (p @ r) p = r"
  by (simp add: trim_prefix_def)

text \<open>\<^verbatim>\<open>strings.TrimRight\<close> with a cutset of ASCII characters.\<close>

definition trim_right :: "string \<Rightarrow> char list \<Rightarrow> string" where
  "trim_right s cutset = rev (dropWhile (\<lambda>c. c \<in> set cutset) (rev s))"

lemma trim_right_split:
  "\<exists>t. s = trim_right s cutset @ t \<and> set t \<subseteq> set cutset"
proof -
  let ?P = "\<lambda>c. c \<in> set cutset"
  have "rev s = takeWhile ?P (rev s) @ dropWhile ?P (rev s)" by simp
  then have "s = trim_right s cutset @ rev (takeWhile ?P (rev s))"
    by (metis rev_append rev_rev_ident trim_right_def)
  moreover have "set (rev (takeWhile ?P (rev s))) \<subseteq> set cutset"
    using set_takeWhileD by fastforce
  ultimately show ?thesis by blast
qed

lemma trim_right_last:
  "trim_right s cutset \<noteq> [] \<Longrightarrow> last (trim_right s cutset) \<notin> set cutset"
  using hd_dropWhile [of "\<lambda>c. c \<in> set cutset" "rev s"]
  by (simp add: trim_right_def last_rev)

lemma trim_right_append:
  "set t \<subseteq> set cutset \<Longrightarrow> s = [] \<or> last s \<notin> set cutset \<Longrightarrow> trim_right (s @ t) cutset = s"
proof -
  assume t: "set t \<subseteq> set cutset" and s: "s = [] \<or> last s \<notin> set cutset"
  have "dropWhile (\<lambda>c. c \<in> set cutset) (rev t @ rev s) = dropWhile (\<lambda>c. c \<in> set cutset) (rev s)"
    by (rule dropWhile_append2) (use t in auto)
  also have "\<dots> = rev s"
    using s by (cases "rev s") (auto simp: last_rev dest: arg_cong [of "rev s" _ rev])
  finally show ?thesis by (simp add: trim_right_def)
qed

section \<open>Number formatting\<close>

text \<open>The decimal and hexadecimal verbs of \<^verbatim>\<open>strconv\<close> and \<^verbatim>\<open>fmt\<close>.\<close>

definition digit_char :: "nat \<Rightarrow> char" where
  "digit_char d = (if d < 10 then char_of (48 + d) else char_of (87 + d))"

fun to_base :: "nat \<Rightarrow> nat \<Rightarrow> string" where
  "to_base k n =
     (if k < 2 \<or> n < k then [digit_char n] else to_base k (n div k) @ [digit_char (n mod k)])"

declare to_base.simps [simp del]

definition decimal :: "nat \<Rightarrow> string" where
  "decimal n = to_base 10 n"

definition zero_pad :: "nat \<Rightarrow> string \<Rightarrow> string" where
  "zero_pad w s = replicate (w - length s) (CHR ''0'') @ s"

definition hex :: "nat \<Rightarrow> string" where
  "hex n = to_base 16 n"

section \<open>Counting without wrapping\<close>

lemma word_less_inc:
  fixes x :: uint64
  assumes "x \<noteq> - 1"
  shows "x < x + 1"
proof -
  have "unat x \<noteq> 2 ^ 64 - 1"
    using assms by (simp add: word_unat_eq_iff unsigned_minus_1_eq_mask mask_eq_exp_minus_1)
  moreover have "unat x < 2 ^ 64" using unsigned_less [of x] by simp
  ultimately have "unat x + 1 < 2 ^ 64" by simp
  then have "unat (x + 1) = unat x + 1" by (simp add: unat_word_ariths)
  then show ?thesis by (simp add: word_less_nat_alt)
qed

end
