(* ===== verification/Errors.thy ===== *)
theory Errors
  imports Prelude
begin

text \<open>
  The PKCS #11 return codes of \<^verbatim>\<open>p11kit/errors.go\<close> and the errors a request can
  end with. A Go \<^verbatim>\<open>error\<close> that is, or wraps with \<^verbatim>\<open>%w\<close>, a \<^verbatim>\<open>pkcs11Error\<close> is
  \<open>Pkcs11 code\<close> (what \<^verbatim>\<open>errors.As\<close> finds); every other error has a constructor of
  its own. \<open>RuntimePanic\<close> is not an error value of Go: it stands for a run-time panic,
  which no handler of the source recovers from, and \<open>NonTermination\<close> for a loop that never ends.
\<close>

type_synonym pkcs11Error = uint64

section \<open>Return codes\<close>

text \<open>The constants of \<^verbatim>\<open>errors.go\<close>, in its order.\<close>

abbreviation errCancel :: pkcs11Error where "errCancel \<equiv> 0x00000001"
abbreviation errHostMemory :: pkcs11Error where "errHostMemory \<equiv> 0x00000002"
abbreviation errSlotIDInvalid :: pkcs11Error where "errSlotIDInvalid \<equiv> 0x00000003"
abbreviation errGeneralError :: pkcs11Error where "errGeneralError \<equiv> 0x00000005"
abbreviation errFunctionFailed :: pkcs11Error where "errFunctionFailed \<equiv> 0x00000006"
abbreviation errArgumentsBad :: pkcs11Error where "errArgumentsBad \<equiv> 0x00000007"
abbreviation errNoEvent :: pkcs11Error where "errNoEvent \<equiv> 0x00000008"
abbreviation errNeedToCreateThreads :: pkcs11Error where "errNeedToCreateThreads \<equiv> 0x00000009"
abbreviation errCantLock :: pkcs11Error where "errCantLock \<equiv> 0x0000000a"
abbreviation errAttributeReadOnly :: pkcs11Error where "errAttributeReadOnly \<equiv> 0x00000010"
abbreviation errAttributeSensitive :: pkcs11Error where "errAttributeSensitive \<equiv> 0x00000011"
abbreviation errAttributeTypeInvalid :: pkcs11Error where "errAttributeTypeInvalid \<equiv> 0x00000012"
abbreviation errAttributeValueInvalid :: pkcs11Error where "errAttributeValueInvalid \<equiv> 0x00000013"
abbreviation errCopyProhibited :: pkcs11Error where "errCopyProhibited \<equiv> 0x0000001a"
abbreviation errActionProhibited :: pkcs11Error where "errActionProhibited \<equiv> 0x0000001b"
abbreviation errDataInvalid :: pkcs11Error where "errDataInvalid \<equiv> 0x00000020"
abbreviation errDataLenRange :: pkcs11Error where "errDataLenRange \<equiv> 0x00000021"
abbreviation errDeviceError :: pkcs11Error where "errDeviceError \<equiv> 0x00000030"
abbreviation errDeviceMemory :: pkcs11Error where "errDeviceMemory \<equiv> 0x00000031"
abbreviation errDeviceRemoved :: pkcs11Error where "errDeviceRemoved \<equiv> 0x00000032"
abbreviation errEncryptedDataInvalid :: pkcs11Error where "errEncryptedDataInvalid \<equiv> 0x00000040"
abbreviation errEncryptedDataLenRange :: pkcs11Error where "errEncryptedDataLenRange \<equiv> 0x00000041"
abbreviation errFunctionCanceled :: pkcs11Error where "errFunctionCanceled \<equiv> 0x00000050"
abbreviation errFunctionNotParallel :: pkcs11Error where "errFunctionNotParallel \<equiv> 0x00000051"
abbreviation errFunctionNotSupported :: pkcs11Error where "errFunctionNotSupported \<equiv> 0x00000054"
abbreviation errKeyHandleInvalid :: pkcs11Error where "errKeyHandleInvalid \<equiv> 0x00000060"
abbreviation errKeySizeRange :: pkcs11Error where "errKeySizeRange \<equiv> 0x00000062"
abbreviation errKeyTypeInconsistent :: pkcs11Error where "errKeyTypeInconsistent \<equiv> 0x00000063"
abbreviation errKeyNotNeeded :: pkcs11Error where "errKeyNotNeeded \<equiv> 0x00000064"
abbreviation errKeyChanged :: pkcs11Error where "errKeyChanged \<equiv> 0x00000065"
abbreviation errKeyNeeded :: pkcs11Error where "errKeyNeeded \<equiv> 0x00000066"
abbreviation errKeyIndigestible :: pkcs11Error where "errKeyIndigestible \<equiv> 0x00000067"
abbreviation errKeyFunctionNotPermitted :: pkcs11Error where "errKeyFunctionNotPermitted \<equiv> 0x00000068"
abbreviation errKeyNotWrappable :: pkcs11Error where "errKeyNotWrappable \<equiv> 0x00000069"
abbreviation errKeyUnextractable :: pkcs11Error where "errKeyUnextractable \<equiv> 0x0000006a"
abbreviation errMechanismInvalid :: pkcs11Error where "errMechanismInvalid \<equiv> 0x00000070"
abbreviation errMechanismParamInvalid :: pkcs11Error where "errMechanismParamInvalid \<equiv> 0x00000071"
abbreviation errObjectHandleInvalid :: pkcs11Error where "errObjectHandleInvalid \<equiv> 0x00000082"
abbreviation errOperationActive :: pkcs11Error where "errOperationActive \<equiv> 0x00000090"
abbreviation errOperationNotInitialized :: pkcs11Error where "errOperationNotInitialized \<equiv> 0x00000091"
abbreviation errPINIncorrect :: pkcs11Error where "errPINIncorrect \<equiv> 0x000000a0"
abbreviation errPINInvalid :: pkcs11Error where "errPINInvalid \<equiv> 0x000000a1"
abbreviation errPINLenRange :: pkcs11Error where "errPINLenRange \<equiv> 0x000000a2"
abbreviation errPINExpired :: pkcs11Error where "errPINExpired \<equiv> 0x000000a3"
abbreviation errPINLocked :: pkcs11Error where "errPINLocked \<equiv> 0x000000a4"
abbreviation errSessionClosed :: pkcs11Error where "errSessionClosed \<equiv> 0x000000b0"
abbreviation errSessionCount :: pkcs11Error where "errSessionCount \<equiv> 0x000000b1"
abbreviation errSessionHandleInvalid :: pkcs11Error where "errSessionHandleInvalid \<equiv> 0x000000b3"
abbreviation errSessionParallelNotSupported :: pkcs11Error where "errSessionParallelNotSupported \<equiv> 0x000000b4"
abbreviation errSessionReadOnly :: pkcs11Error where "errSessionReadOnly \<equiv> 0x000000b5"
abbreviation errSessionExists :: pkcs11Error where "errSessionExists \<equiv> 0x000000b6"
abbreviation errSessionReadOnlyExists :: pkcs11Error where "errSessionReadOnlyExists \<equiv> 0x000000b7"
abbreviation errSessionReadWriteSoExists :: pkcs11Error where "errSessionReadWriteSoExists \<equiv> 0x000000b8"
abbreviation errSignatureInvalid :: pkcs11Error where "errSignatureInvalid \<equiv> 0x000000c0"
abbreviation errSignatureLenRange :: pkcs11Error where "errSignatureLenRange \<equiv> 0x000000c1"
abbreviation errTemplateIncomplete :: pkcs11Error where "errTemplateIncomplete \<equiv> 0x000000d0"
abbreviation errTemplateInconsistent :: pkcs11Error where "errTemplateInconsistent \<equiv> 0x000000d1"
abbreviation errTokenNotPresent :: pkcs11Error where "errTokenNotPresent \<equiv> 0x000000e0"
abbreviation errTokenNotRecognized :: pkcs11Error where "errTokenNotRecognized \<equiv> 0x000000e1"
abbreviation errTokenWriteProtected :: pkcs11Error where "errTokenWriteProtected \<equiv> 0x000000e2"
abbreviation errUnwrappingKeyHandleInvalid :: pkcs11Error where "errUnwrappingKeyHandleInvalid \<equiv> 0x000000f0"
abbreviation errUnwrappingKeySizeRange :: pkcs11Error where "errUnwrappingKeySizeRange \<equiv> 0x000000f1"
abbreviation errUnwrappingKeyTypeInconsistent :: pkcs11Error where "errUnwrappingKeyTypeInconsistent \<equiv> 0x000000f2"
abbreviation errUserAlreadyLoggedIn :: pkcs11Error where "errUserAlreadyLoggedIn \<equiv> 0x00000100"
abbreviation errUserNotLoggedIn :: pkcs11Error where "errUserNotLoggedIn \<equiv> 0x00000101"
abbreviation errUserPINNotInitialized :: pkcs11Error where "errUserPINNotInitialized \<equiv> 0x00000102"
abbreviation errUserTypeInvalid :: pkcs11Error where "errUserTypeInvalid \<equiv> 0x00000103"
abbreviation errUserAnotherAlreadyLoggedIn :: pkcs11Error where "errUserAnotherAlreadyLoggedIn \<equiv> 0x00000104"
abbreviation errUserTooManyTypes :: pkcs11Error where "errUserTooManyTypes \<equiv> 0x00000105"
abbreviation errWrappedKeyInvalid :: pkcs11Error where "errWrappedKeyInvalid \<equiv> 0x00000110"
abbreviation errWrappedKeyLenRange :: pkcs11Error where "errWrappedKeyLenRange \<equiv> 0x00000112"
abbreviation errWrappingKeyHandleInvalid :: pkcs11Error where "errWrappingKeyHandleInvalid \<equiv> 0x00000113"
abbreviation errWrappingKeySizeRange :: pkcs11Error where "errWrappingKeySizeRange \<equiv> 0x00000114"
abbreviation errWrappingKeyTypeInconsistent :: pkcs11Error where "errWrappingKeyTypeInconsistent \<equiv> 0x00000115"
abbreviation errRandomSeedNotSupported :: pkcs11Error where "errRandomSeedNotSupported \<equiv> 0x00000120"
abbreviation errRandomNoRNG :: pkcs11Error where "errRandomNoRNG \<equiv> 0x00000121"
abbreviation errDomainParamsInvalid :: pkcs11Error where "errDomainParamsInvalid \<equiv> 0x00000130"
abbreviation errCurveNotSupported :: pkcs11Error where "errCurveNotSupported \<equiv> 0x00000140"
abbreviation errBufferTooSmall :: pkcs11Error where "errBufferTooSmall \<equiv> 0x00000150"
abbreviation errSavedStateInvalid :: pkcs11Error where "errSavedStateInvalid \<equiv> 0x00000160"
abbreviation errInformationSensitive :: pkcs11Error where "errInformationSensitive \<equiv> 0x00000170"
abbreviation errStateUnsaveable :: pkcs11Error where "errStateUnsaveable \<equiv> 0x00000180"
abbreviation errCryptokiNotInitialized :: pkcs11Error where "errCryptokiNotInitialized \<equiv> 0x00000190"
abbreviation errCryptokiAlreadyInitialized :: pkcs11Error where "errCryptokiAlreadyInitialized \<equiv> 0x00000191"
abbreviation errMutexBad :: pkcs11Error where "errMutexBad \<equiv> 0x000001a0"
abbreviation errMutexNotLocked :: pkcs11Error where "errMutexNotLocked \<equiv> 0x000001a1"
abbreviation errFunctionRejected :: pkcs11Error where "errFunctionRejected \<equiv> 0x00000200"
abbreviation errVendorDefined :: pkcs11Error where "errVendorDefined \<equiv> 0x80000000"

definition errStrings :: "(pkcs11Error \<times> string) list" where
  "errStrings =
    [(errCancel, ''CKR_CANCEL''),
     (errHostMemory, ''CKR_HOST_MEMORY''),
     (errSlotIDInvalid, ''CKR_SLOT_ID_INVALID''),
     (errGeneralError, ''CKR_GENERAL_ERROR''),
     (errFunctionFailed, ''CKR_FUNCTION_FAILED''),
     (errArgumentsBad, ''CKR_ARGUMENTS_BAD''),
     (errNoEvent, ''CKR_NO_EVENT''),
     (errNeedToCreateThreads, ''CKR_NEED_TO_CREATE_THREADS''),
     (errCantLock, ''CKR_CANT_LOCK''),
     (errAttributeReadOnly, ''CKR_ATTRIBUTE_READ_ONLY''),
     (errAttributeSensitive, ''CKR_ATTRIBUTE_SENSITIVE''),
     (errAttributeTypeInvalid, ''CKR_ATTRIBUTE_TYPE_INVALID''),
     (errAttributeValueInvalid, ''CKR_ATTRIBUTE_VALUE_INVALID''),
     (errCopyProhibited, ''CKR_COPY_PROHIBITED''),
     (errActionProhibited, ''CKR_ACTION_PROHIBITED''),
     (errDataInvalid, ''CKR_DATA_INVALID''),
     (errDataLenRange, ''CKR_DATA_LEN_RANGE''),
     (errDeviceError, ''CKR_DEVICE_ERROR''),
     (errDeviceMemory, ''CKR_DEVICE_MEMORY''),
     (errDeviceRemoved, ''CKR_DEVICE_REMOVED''),
     (errEncryptedDataInvalid, ''CKR_ENCRYPTED_DATA_INVALID''),
     (errEncryptedDataLenRange, ''CKR_ENCRYPTED_DATA_LEN_RANGE''),
     (errFunctionCanceled, ''CKR_FUNCTION_CANCELED''),
     (errFunctionNotParallel, ''CKR_FUNCTION_NOT_PARALLEL''),
     (errFunctionNotSupported, ''CKR_FUNCTION_NOT_SUPPORTED''),
     (errKeyHandleInvalid, ''CKR_KEY_HANDLE_INVALID''),
     (errKeySizeRange, ''CKR_KEY_SIZE_RANGE''),
     (errKeyTypeInconsistent, ''CKR_KEY_TYPE_INCONSISTENT''),
     (errKeyNotNeeded, ''CKR_KEY_NOT_NEEDED''),
     (errKeyChanged, ''CKR_KEY_CHANGED''),
     (errKeyNeeded, ''CKR_KEY_NEEDED''),
     (errKeyIndigestible, ''CKR_KEY_INDIGESTIBLE''),
     (errKeyFunctionNotPermitted, ''CKR_KEY_FUNCTION_NOT_PERMITTED''),
     (errKeyNotWrappable, ''CKR_KEY_NOT_WRAPPABLE''),
     (errKeyUnextractable, ''CKR_KEY_UNEXTRACTABLE''),
     (errMechanismInvalid, ''CKR_MECHANISM_INVALID''),
     (errMechanismParamInvalid, ''CKR_MECHANISM_PARAM_INVALID''),
     (errObjectHandleInvalid, ''CKR_OBJECT_HANDLE_INVALID''),
     (errOperationActive, ''CKR_OPERATION_ACTIVE''),
     (errOperationNotInitialized, ''CKR_OPERATION_NOT_INITIALIZED''),
     (errPINIncorrect, ''CKR_PIN_INCORRECT''),
     (errPINInvalid, ''CKR_PIN_INVALID''),
     (errPINLenRange, ''CKR_PIN_LEN_RANGE''),
     (errPINExpired, ''CKR_PIN_EXPIRED''),
     (errPINLocked, ''CKR_PIN_LOCKED''),
     (errSessionClosed, ''CKR_SESSION_CLOSED''),
     (errSessionCount, ''CKR_SESSION_COUNT''),
     (errSessionHandleInvalid, ''CKR_SESSION_HANDLE_INVALID''),
     (errSessionParallelNotSupported, ''CKR_SESSION_PARALLEL_NOT_SUPPORTED''),
     (errSessionReadOnly, ''CKR_SESSION_READ_ONLY''),
     (errSessionExists, ''CKR_SESSION_EXISTS''),
     (errSessionReadOnlyExists, ''CKR_SESSION_READ_ONLY_EXISTS''),
     (errSessionReadWriteSoExists, ''CKR_SESSION_READ_WRITE_SO_EXISTS''),
     (errSignatureInvalid, ''CKR_SIGNATURE_INVALID''),
     (errSignatureLenRange, ''CKR_SIGNATURE_LEN_RANGE''),
     (errTemplateIncomplete, ''CKR_TEMPLATE_INCOMPLETE''),
     (errTemplateInconsistent, ''CKR_TEMPLATE_INCONSISTENT''),
     (errTokenNotPresent, ''CKR_TOKEN_NOT_PRESENT''),
     (errTokenNotRecognized, ''CKR_TOKEN_NOT_RECOGNIZED''),
     (errTokenWriteProtected, ''CKR_TOKEN_WRITE_PROTECTED''),
     (errUnwrappingKeyHandleInvalid, ''CKR_UNWRAPPING_KEY_HANDLE_INVALID''),
     (errUnwrappingKeySizeRange, ''CKR_UNWRAPPING_KEY_SIZE_RANGE''),
     (errUnwrappingKeyTypeInconsistent, ''CKR_UNWRAPPING_KEY_TYPE_INCONSISTENT''),
     (errUserAlreadyLoggedIn, ''CKR_USER_ALREADY_LOGGED_IN''),
     (errUserNotLoggedIn, ''CKR_USER_NOT_LOGGED_IN''),
     (errUserPINNotInitialized, ''CKR_USER_PIN_NOT_INITIALIZED''),
     (errUserTypeInvalid, ''CKR_USER_TYPE_INVALID''),
     (errUserAnotherAlreadyLoggedIn, ''CKR_USER_ANOTHER_ALREADY_LOGGED_IN''),
     (errUserTooManyTypes, ''CKR_USER_TOO_MANY_TYPES''),
     (errWrappedKeyInvalid, ''CKR_WRAPPED_KEY_INVALID''),
     (errWrappedKeyLenRange, ''CKR_WRAPPED_KEY_LEN_RANGE''),
     (errWrappingKeyHandleInvalid, ''CKR_WRAPPING_KEY_HANDLE_INVALID''),
     (errWrappingKeySizeRange, ''CKR_WRAPPING_KEY_SIZE_RANGE''),
     (errWrappingKeyTypeInconsistent, ''CKR_WRAPPING_KEY_TYPE_INCONSISTENT''),
     (errRandomSeedNotSupported, ''CKR_RANDOM_SEED_NOT_SUPPORTED''),
     (errRandomNoRNG, ''CKR_RANDOM_NO_RNG''),
     (errDomainParamsInvalid, ''CKR_DOMAIN_PARAMS_INVALID''),
     (errCurveNotSupported, ''CKR_CURVE_NOT_SUPPORTED''),
     (errBufferTooSmall, ''CKR_BUFFER_TOO_SMALL''),
     (errSavedStateInvalid, ''CKR_SAVED_STATE_INVALID''),
     (errInformationSensitive, ''CKR_INFORMATION_SENSITIVE''),
     (errStateUnsaveable, ''CKR_STATE_UNSAVEABLE''),
     (errCryptokiNotInitialized, ''CKR_CRYPTOKI_NOT_INITIALIZED''),
     (errCryptokiAlreadyInitialized, ''CKR_CRYPTOKI_ALREADY_INITIALIZED''),
     (errMutexBad, ''CKR_MUTEX_BAD''),
     (errMutexNotLocked, ''CKR_MUTEX_NOT_LOCKED''),
     (errFunctionRejected, ''CKR_FUNCTION_REJECTED''),
     (errVendorDefined, ''CKR_VENDOR_DEFINED'')]"

text \<open>The names of the constants with their values, as \<^verbatim>\<open>errors.go\<close> declares them.\<close>

definition errConstants :: "(string \<times> pkcs11Error) list" where
  "errConstants =
    [(''errCancel'', errCancel),
     (''errHostMemory'', errHostMemory),
     (''errSlotIDInvalid'', errSlotIDInvalid),
     (''errGeneralError'', errGeneralError),
     (''errFunctionFailed'', errFunctionFailed),
     (''errArgumentsBad'', errArgumentsBad),
     (''errNoEvent'', errNoEvent),
     (''errNeedToCreateThreads'', errNeedToCreateThreads),
     (''errCantLock'', errCantLock),
     (''errAttributeReadOnly'', errAttributeReadOnly),
     (''errAttributeSensitive'', errAttributeSensitive),
     (''errAttributeTypeInvalid'', errAttributeTypeInvalid),
     (''errAttributeValueInvalid'', errAttributeValueInvalid),
     (''errCopyProhibited'', errCopyProhibited),
     (''errActionProhibited'', errActionProhibited),
     (''errDataInvalid'', errDataInvalid),
     (''errDataLenRange'', errDataLenRange),
     (''errDeviceError'', errDeviceError),
     (''errDeviceMemory'', errDeviceMemory),
     (''errDeviceRemoved'', errDeviceRemoved),
     (''errEncryptedDataInvalid'', errEncryptedDataInvalid),
     (''errEncryptedDataLenRange'', errEncryptedDataLenRange),
     (''errFunctionCanceled'', errFunctionCanceled),
     (''errFunctionNotParallel'', errFunctionNotParallel),
     (''errFunctionNotSupported'', errFunctionNotSupported),
     (''errKeyHandleInvalid'', errKeyHandleInvalid),
     (''errKeySizeRange'', errKeySizeRange),
     (''errKeyTypeInconsistent'', errKeyTypeInconsistent),
     (''errKeyNotNeeded'', errKeyNotNeeded),
     (''errKeyChanged'', errKeyChanged),
     (''errKeyNeeded'', errKeyNeeded),
     (''errKeyIndigestible'', errKeyIndigestible),
     (''errKeyFunctionNotPermitted'', errKeyFunctionNotPermitted),
     (''errKeyNotWrappable'', errKeyNotWrappable),
     (''errKeyUnextractable'', errKeyUnextractable),
     (''errMechanismInvalid'', errMechanismInvalid),
     (''errMechanismParamInvalid'', errMechanismParamInvalid),
     (''errObjectHandleInvalid'', errObjectHandleInvalid),
     (''errOperationActive'', errOperationActive),
     (''errOperationNotInitialized'', errOperationNotInitialized),
     (''errPINIncorrect'', errPINIncorrect),
     (''errPINInvalid'', errPINInvalid),
     (''errPINLenRange'', errPINLenRange),
     (''errPINExpired'', errPINExpired),
     (''errPINLocked'', errPINLocked),
     (''errSessionClosed'', errSessionClosed),
     (''errSessionCount'', errSessionCount),
     (''errSessionHandleInvalid'', errSessionHandleInvalid),
     (''errSessionParallelNotSupported'', errSessionParallelNotSupported),
     (''errSessionReadOnly'', errSessionReadOnly),
     (''errSessionExists'', errSessionExists),
     (''errSessionReadOnlyExists'', errSessionReadOnlyExists),
     (''errSessionReadWriteSoExists'', errSessionReadWriteSoExists),
     (''errSignatureInvalid'', errSignatureInvalid),
     (''errSignatureLenRange'', errSignatureLenRange),
     (''errTemplateIncomplete'', errTemplateIncomplete),
     (''errTemplateInconsistent'', errTemplateInconsistent),
     (''errTokenNotPresent'', errTokenNotPresent),
     (''errTokenNotRecognized'', errTokenNotRecognized),
     (''errTokenWriteProtected'', errTokenWriteProtected),
     (''errUnwrappingKeyHandleInvalid'', errUnwrappingKeyHandleInvalid),
     (''errUnwrappingKeySizeRange'', errUnwrappingKeySizeRange),
     (''errUnwrappingKeyTypeInconsistent'', errUnwrappingKeyTypeInconsistent),
     (''errUserAlreadyLoggedIn'', errUserAlreadyLoggedIn),
     (''errUserNotLoggedIn'', errUserNotLoggedIn),
     (''errUserPINNotInitialized'', errUserPINNotInitialized),
     (''errUserTypeInvalid'', errUserTypeInvalid),
     (''errUserAnotherAlreadyLoggedIn'', errUserAnotherAlreadyLoggedIn),
     (''errUserTooManyTypes'', errUserTooManyTypes),
     (''errWrappedKeyInvalid'', errWrappedKeyInvalid),
     (''errWrappedKeyLenRange'', errWrappedKeyLenRange),
     (''errWrappingKeyHandleInvalid'', errWrappingKeyHandleInvalid),
     (''errWrappingKeySizeRange'', errWrappingKeySizeRange),
     (''errWrappingKeyTypeInconsistent'', errWrappingKeyTypeInconsistent),
     (''errRandomSeedNotSupported'', errRandomSeedNotSupported),
     (''errRandomNoRNG'', errRandomNoRNG),
     (''errDomainParamsInvalid'', errDomainParamsInvalid),
     (''errCurveNotSupported'', errCurveNotSupported),
     (''errBufferTooSmall'', errBufferTooSmall),
     (''errSavedStateInvalid'', errSavedStateInvalid),
     (''errInformationSensitive'', errInformationSensitive),
     (''errStateUnsaveable'', errStateUnsaveable),
     (''errCryptokiNotInitialized'', errCryptokiNotInitialized),
     (''errCryptokiAlreadyInitialized'', errCryptokiAlreadyInitialized),
     (''errMutexBad'', errMutexBad),
     (''errMutexNotLocked'', errMutexNotLocked),
     (''errFunctionRejected'', errFunctionRejected),
     (''errVendorDefined'', errVendorDefined)]"

definition pkcs11Error_Error :: "pkcs11Error \<Rightarrow> string" where
  "pkcs11Error_Error e =
     (case map_of errStrings e of
        Some s \<Rightarrow> s
      | None \<Rightarrow> ''unknown pkcs11 error: 0x'' @ zero_pad 8 (hex (unat e)))"

section \<open>Errors\<close>

datatype go_error =
    Pkcs11 pkcs11Error
  | ErrUnexpectedEOF
  | ErrInvalidSignature string string
  | ErrTrailingElements string
  | ErrTrailingData nat
  | ErrReadHeader
  | ErrReadBody
  | ErrMalformedBody
  | ErrHandshake bytes
  | ErrReadVersion
  | ErrWriteVersion
  | ErrWriteResponse
  | ErrReadRequest go_error
  | ErrNegotiate go_error
  | ErrCallFailed uint32 go_error
  | ErrNotSigner
  | ErrKeyNeitherRSANorECDSA
  | ErrNotKeyObject
  | ErrUnsupportedCurve
  | ErrUnsupportedPublicKey
  | ErrEncodingKeyInfo go_error
  | ErrPSSParams
  | ErrNotECDSAPublicKey
  | ErrSignatureTooLarge nat nat
  | ErrAsn1
  | ErrForeign nat
  | RuntimePanic
  | NonTermination

text \<open>A panic or an endless loop is not an error that code could look at.\<close>

definition is_crash :: "go_error \<Rightarrow> bool" where
  "is_crash e \<longleftrightarrow> e = RuntimePanic \<or> e = NonTermination"

text \<open>\<^verbatim>\<open>errors.As(err, &cerr)\<close> with \<^verbatim>\<open>cerr\<close> a \<^verbatim>\<open>pkcs11Error\<close>.\<close>

fun errors_As :: "go_error \<Rightarrow> pkcs11Error option" where
  "errors_As (Pkcs11 c) = Some c"
| "errors_As _ = None"

type_synonym 'a result = "go_error + 'a"

section \<open>Facts\<close>

text \<open>The codes are listed in increasing order, so no code is listed twice.\<close>

lemma errStrings_codes_increasing: "sorted_wrt (<) (map fst errStrings)"
  by (subst successively_conv_sorted_wrt [symmetric])
    (simp_all add: errStrings_def transp_def)

lemma errStrings_codes_distinct: "distinct (map fst errStrings)"
  using errStrings_codes_increasing strict_sorted_iff by blast

end
