(* ===== verification/Buffer.thy ===== *)
theory Buffer
  imports Errors
begin

text \<open>
  The primitive fields of the wire format, \<^verbatim>\<open>buffer\<close> in \<^verbatim>\<open>p11kit/rpc.go\<close>: bytes,
  big-endian 32- and 64-bit integers and length-prefixed byte arrays. Writing
  methods append to the buffer and are total; reading methods are readers. Every
  pair is interpreted as a \<open>codec\<close> and every reader as \<open>consuming\<close>.

  A Go \<^verbatim>\<open>[]byte\<close> whose nil-ness the code looks at is a \<open>bytes option\<close>, \<open>None\<close>
  for nil.
\<close>

section \<open>Writing\<close>

definition putUint32 :: "uint32 \<Rightarrow> bytes" where
  "putUint32 n = [ucast (drop_bit 24 n), ucast (drop_bit 16 n), ucast (drop_bit 8 n), ucast n]"

definition putUint64 :: "uint64 \<Rightarrow> bytes" where
  "putUint64 n =
     [ucast (drop_bit 56 n), ucast (drop_bit 48 n), ucast (drop_bit 40 n), ucast (drop_bit 32 n),
      ucast (drop_bit 24 n), ucast (drop_bit 16 n), ucast (drop_bit 8 n), ucast n]"

definition addUint32 :: "buffer \<Rightarrow> uint32 \<Rightarrow> buffer" where
  "addUint32 b n = b @ putUint32 n"

definition addUint64 :: "buffer \<Rightarrow> uint64 \<Rightarrow> buffer" where
  "addUint64 b n = b @ putUint64 n"

definition addByte :: "buffer \<Rightarrow> byte \<Rightarrow> buffer" where
  "addByte b by = b @ [by]"

definition addByteArray :: "buffer \<Rightarrow> bytes \<Rightarrow> buffer" where
  "addByteArray b a = addUint32 b (of_nat (length a)) @ a"

section \<open>Reading\<close>

text \<open>
  \<^verbatim>\<open>binary.BigEndian.Uint32\<close> and \<^verbatim>\<open>Uint64\<close> panic on a shorter slice; every caller has
  checked the length, so the second equations are never reached.
\<close>

fun bigEndianUint32 :: "bytes \<Rightarrow> uint32" where
  "bigEndianUint32 (b0 # b1 # b2 # b3 # _) =
     ucast b3 OR push_bit 8 (ucast b2) OR push_bit 16 (ucast b1) OR push_bit 24 (ucast b0)"
| "bigEndianUint32 _ = 0"

fun bigEndianUint64 :: "bytes \<Rightarrow> uint64" where
  "bigEndianUint64 (b0 # b1 # b2 # b3 # b4 # b5 # b6 # b7 # _) =
     ucast b7 OR push_bit 8 (ucast b6) OR push_bit 16 (ucast b5) OR push_bit 24 (ucast b4) OR
     push_bit 32 (ucast b3) OR push_bit 40 (ucast b2) OR push_bit 48 (ucast b1) OR
     push_bit 56 (ucast b0)"
| "bigEndianUint64 _ = 0"

definition buffer_byte :: "byte reader" where
  "buffer_byte b = (if length b = 0 then (None, b) else (Some (b ! 0), drop 1 b))"

definition buffer_uint32 :: "uint32 reader" where
  "buffer_uint32 b =
     (if length b < 4 then (None, b) else (Some (bigEndianUint32 (take 4 b)), drop 4 b))"

definition peekUint32 :: "buffer \<Rightarrow> uint32 \<Rightarrow> bool" where
  "peekUint32 b n = (if length b < 4 then False else bigEndianUint32 (take 4 b) = n)"

definition buffer_uint64 :: "uint64 reader" where
  "buffer_uint64 b =
     (if length b < 8 then (None, b) else (Some (bigEndianUint64 (take 8 b)), drop 8 b))"

text \<open>
  \<^verbatim>\<open>byteArray\<close> leaves its argument, nil at every call, alone when the length is
  the null marker; otherwise it stores the next \<open>n\<close> bytes, a non-nil slice.
\<close>

definition buffer_byteArray :: "bytes option reader" where
  "buffer_byteArray = rd_bind buffer_uint32 (\<lambda>n b.
     if n = 0xffffffff then (Some None, b)
     else if length b < unat n then (None, b)
     else (Some (Some (take (unat n) b)), drop (unat n) b))"

section \<open>Big-endian integers round trip\<close>

lemma putUint32_length [simp]: "length (putUint32 n) = 4"
  by (simp add: putUint32_def)

lemma putUint64_length [simp]: "length (putUint64 n) = 8"
  by (simp add: putUint64_def)

text \<open>A bit position of a word is a bit position in one of its bytes.\<close>

lemma bit_of_4_bytes:
  assumes "(k :: nat) < 32"
  shows "\<exists>j<8. k = j \<or> k = 8 + j \<or> k = 16 + j \<or> k = 24 + j"
proof (rule exI [of _ "k mod 8"])
  have k: "k = 8 * (k div 8) + k mod 8" and "k div 8 < 4" using assms by auto
  then have "k div 8 = 0 \<or> k div 8 = 1 \<or> k div 8 = 2 \<or> k div 8 = 3" by linarith
  with k show "k mod 8 < 8 \<and> (k = k mod 8 \<or> k = 8 + k mod 8 \<or> k = 16 + k mod 8 \<or> k = 24 + k mod 8)"
    by linarith
qed

lemma bit_of_8_bytes:
  assumes "(k :: nat) < 64"
  shows "\<exists>j<8. k = j \<or> k = 8 + j \<or> k = 16 + j \<or> k = 24 + j \<or>
     k = 32 + j \<or> k = 40 + j \<or> k = 48 + j \<or> k = 56 + j"
proof (cases "k < 32")
  case True
  then show ?thesis using bit_of_4_bytes [of k] by blast
next
  case False
  then have "k - 32 < 32" and k: "k = 32 + (k - 32)" using assms by auto
  then obtain j where "j < 8" "k - 32 = j \<or> k - 32 = 8 + j \<or> k - 32 = 16 + j \<or> k - 32 = 24 + j"
    using bit_of_4_bytes [of "k - 32"] by blast
  then show ?thesis using k by (intro exI [of _ j]) linarith
qed

lemma bit_byte_high [simp]: "8 \<le> k \<Longrightarrow> \<not> bit (w :: byte) k"
  using bit_imp_le_length [of w k] by auto

lemmas word_bit_simps = bit_or_iff bit_push_bit_iff bit_unsigned_iff bit_drop_bit_eq comp_def
  possible_bit_word len_bit0 len_num1

lemma bigEndianUint32_put [simp]: "bigEndianUint32 (putUint32 n @ r) = n"
proof (rule bit_word_eqI)
  fix k :: nat
  assume "k < LENGTH(32)"
  then obtain j where "j < 8" "k = j \<or> k = 8 + j \<or> k = 16 + j \<or> k = 24 + j"
    using bit_of_4_bytes [of k] by auto
  then show "bit (bigEndianUint32 (putUint32 n @ r)) k = bit n k"
    by (elim disjE;
        simp only: putUint32_def append_Cons bigEndianUint32.simps word_bit_simps; simp)
qed

lemma bigEndianUint64_put [simp]: "bigEndianUint64 (putUint64 n @ r) = n"
proof (rule bit_word_eqI)
  fix k :: nat
  assume "k < LENGTH(64)"
  then obtain j where "j < 8" "k = j \<or> k = 8 + j \<or> k = 16 + j \<or> k = 24 + j \<or>
      k = 32 + j \<or> k = 40 + j \<or> k = 48 + j \<or> k = 56 + j"
    using bit_of_8_bytes [of k] by auto
  then show "bit (bigEndianUint64 (putUint64 n @ r)) k = bit n k"
    by (elim disjE;
        simp only: putUint64_def append_Cons bigEndianUint64.simps word_bit_simps; simp)
qed

lemmas bigEndian_put_all [simp] =
  bigEndianUint32_put [where r = "[]", simplified] bigEndianUint64_put [where r = "[]", simplified]

lemma putUint32_bigEndian: "length b = 4 \<Longrightarrow> putUint32 (bigEndianUint32 b) = b"
proof -
  assume "length b = 4"
  then obtain p q r s where b: "b = [p, q, r, s]"
    by (auto simp: length_Suc_conv numeral_eq_Suc)
  have "ucast (drop_bit 24 (bigEndianUint32 b)) = p" "ucast (drop_bit 16 (bigEndianUint32 b)) = q"
      "ucast (drop_bit 8 (bigEndianUint32 b)) = r" "ucast (bigEndianUint32 b) = s"
    unfolding b bigEndianUint32.simps
    by (rule bit_word_eqI; simp only: word_bit_simps; simp)+
  then show ?thesis by (simp add: putUint32_def b)
qed

lemma putUint64_bigEndian: "length b = 8 \<Longrightarrow> putUint64 (bigEndianUint64 b) = b"
proof -
  assume "length b = 8"
  then obtain p q r s t u v w where b: "b = [p, q, r, s, t, u, v, w]"
    by (auto simp: length_Suc_conv numeral_eq_Suc)
  have "ucast (drop_bit 56 (bigEndianUint64 b)) = p" "ucast (drop_bit 48 (bigEndianUint64 b)) = q"
      "ucast (drop_bit 40 (bigEndianUint64 b)) = r" "ucast (drop_bit 32 (bigEndianUint64 b)) = s"
      "ucast (drop_bit 24 (bigEndianUint64 b)) = t" "ucast (drop_bit 16 (bigEndianUint64 b)) = u"
      "ucast (drop_bit 8 (bigEndianUint64 b)) = v" "ucast (bigEndianUint64 b) = w"
    unfolding b bigEndianUint64.simps
    by (rule bit_word_eqI; simp only: word_bit_simps; simp)+
  then show ?thesis by (simp add: putUint64_def b)
qed

section \<open>Readers on encoded input\<close>

text \<open>Writing methods append: what they add does not depend on what is there.\<close>

lemma addUint32_append: "addUint32 b n = b @ addUint32 [] n"
  by (simp add: addUint32_def)

lemma addUint64_append: "addUint64 b n = b @ addUint64 [] n"
  by (simp add: addUint64_def)

lemma addByteArray_append: "addByteArray b a = b @ addByteArray [] a"
  by (simp add: addByteArray_def addUint32_def)

lemma addUint32_length [simp]: "length (addUint32 b n) = length b + 4"
  by (simp add: addUint32_def)

lemma addUint64_length [simp]: "length (addUint64 b n) = length b + 8"
  by (simp add: addUint64_def)

lemma addByte_length [simp]: "length (addByte b x) = length b + 1"
  by (simp add: addByte_def)

lemma addByteArray_length [simp]: "length (addByteArray b a) = length b + 4 + length a"
  by (simp add: addByteArray_def)

lemma buffer_byte_Cons [codec_simps]: "buffer_byte (x # rest) = (Some x, rest)"
  by (simp add: buffer_byte_def)

lemma buffer_uint32_put [codec_simps]: "buffer_uint32 (putUint32 n @ rest) = (Some n, rest)"
  by (simp add: buffer_uint32_def)

lemma buffer_uint64_put [codec_simps]: "buffer_uint64 (putUint64 n @ rest) = (Some n, rest)"
  by (simp add: buffer_uint64_def)

lemma unat_of_length: "length a < 0xffffffff \<Longrightarrow> unat (of_nat (length a) :: uint32) = length a"
  by (simp add: unat_of_nat take_bit_nat_eq_self_iff)

lemma length_not_null: "length a < 0xffffffff \<Longrightarrow> (of_nat (length a) :: uint32) \<noteq> 0xffffffff"
  using unat_of_length [of a] by (auto dest: arg_cong [of _ _ unat])

lemma buffer_byteArray_add [codec_simps]:
  "length a < 0xffffffff \<Longrightarrow> buffer_byteArray (addByteArray [] a @ rest) = (Some (Some a), rest)"
  by (simp add: buffer_byteArray_def addByteArray_def addUint32_def codec_simps
      unat_of_length length_not_null)

lemma buffer_byteArray_null [codec_simps]:
  "buffer_byteArray (putUint32 0xffffffff @ rest) = (Some None, rest)"
  by (simp add: buffer_byteArray_def codec_simps)

text \<open>What a reader does with any input, by how much of it there is.\<close>

lemma buffer_byte_cases:
  "buffer_byte b = (Some x, b') \<longleftrightarrow> b = x # b'"
  by (cases b) (auto simp: buffer_byte_def)

lemma buffer_uint32_cases: "buffer_uint32 b = (Some n, b') \<longleftrightarrow> b = putUint32 n @ b'"
proof
  assume "buffer_uint32 b = (Some n, b')"
  then have "4 \<le> length b" and n: "n = bigEndianUint32 (take 4 b)" and b': "b' = drop 4 b"
    by (auto simp: buffer_uint32_def split: if_splits)
  then have "putUint32 n = take 4 b" by (simp add: putUint32_bigEndian)
  then show "b = putUint32 n @ b'" by (simp add: b')
qed (simp add: codec_simps)

lemma buffer_uint64_cases: "buffer_uint64 b = (Some n, b') \<longleftrightarrow> b = putUint64 n @ b'"
proof
  assume "buffer_uint64 b = (Some n, b')"
  then have "8 \<le> length b" and n: "n = bigEndianUint64 (take 8 b)" and b': "b' = drop 8 b"
    by (auto simp: buffer_uint64_def split: if_splits)
  then have "putUint64 n = take 8 b" by (simp add: putUint64_bigEndian)
  then show "b = putUint64 n @ b'" by (simp add: b')
qed (simp add: codec_simps)

lemma buffer_byteArray_Some:
  "buffer_byteArray b = (Some (Some a), b') \<longleftrightarrow>
     length a < 0xffffffff \<and> b = addByteArray [] a @ b'"
proof
  assume "buffer_byteArray b = (Some (Some a), b')"
  then obtain n c where n: "buffer_uint32 b = (Some n, c)" "n \<noteq> 0xffffffff"
      and c: "unat n \<le> length c" "a = take (unat n) c" "b' = drop (unat n) c"
    by (auto simp: buffer_byteArray_def split: if_splits elim!: rd_bind_SomeD)
  then have len: "length a = unat n" by simp
  have "unat n \<noteq> unat (0xffffffff :: uint32)" using n(2) by (simp only: word_unat_eq_iff) simp
  moreover have "unat n < 2 ^ 32" using unsigned_less [of n] by simp
  ultimately have "length a < 0xffffffff" using len by simp
  moreover have "b = addByteArray [] a @ b'"
    using n(1) c len by (simp add: buffer_uint32_cases addByteArray_def addUint32_def)
  ultimately show "length a < 0xffffffff \<and> b = addByteArray [] a @ b'" by blast
qed (simp add: codec_simps)

lemma buffer_byteArray_None:
  "buffer_byteArray b = (Some None, b') \<longleftrightarrow> b = putUint32 0xffffffff @ b'"
  by (auto simp: buffer_byteArray_def codec_simps buffer_uint32_cases split: if_splits
      elim!: rd_bind_SomeD)

text \<open>A reader that fails for lack of input leaves the buffer as it was.\<close>

lemma buffer_uint32_None: "fst (buffer_uint32 b) = None \<longleftrightarrow> length b < 4"
  by (simp add: buffer_uint32_def)

lemma buffer_uint64_None: "fst (buffer_uint64 b) = None \<longleftrightarrow> length b < 8"
  by (simp add: buffer_uint64_def)

section \<open>The interfaces, provided\<close>

interpretation byte_codec: codec "addByte []" buffer_byte "\<lambda>_. True"
  by unfold_locales (simp add: addByte_def codec_simps)

interpretation uint32_codec: codec "addUint32 []" buffer_uint32 "\<lambda>_. True"
  by unfold_locales (simp add: addUint32_def codec_simps)

interpretation uint64_codec: codec "addUint64 []" buffer_uint64 "\<lambda>_. True"
  by unfold_locales (simp add: addUint64_def codec_simps)

interpretation byteArray_codec:
  codec "\<lambda>x. addByteArray [] (the x)" buffer_byteArray
    "\<lambda>x. x \<noteq> None \<and> length (the x) < 0xffffffff"
  by unfold_locales (auto simp: codec_simps)

interpretation byte_reads: consuming buffer_byte 1
  by unfold_locales (auto simp: buffer_byte_cases)

interpretation uint32_reads: consuming buffer_uint32 4
  by unfold_locales (auto simp: buffer_uint32_cases)

interpretation uint64_reads: consuming buffer_uint64 8
  by unfold_locales (auto simp: buffer_uint64_cases)

interpretation byteArray_reads: consuming buffer_byteArray 4
proof
  fix b b' :: bytes and x
  assume "buffer_byteArray b = (Some x, b')"
  then show "\<exists>p. b = p @ b' \<and> 4 \<le> length p"
    by (cases x) (auto simp: buffer_byteArray_None buffer_byteArray_Some)
qed

end
