(* ===== verification/GoTime.thy ===== *)
theory GoTime
  imports Buffer
begin

text \<open>
  Dates on the wire: \<^verbatim>\<open>addDate\<close> and \<^verbatim>\<open>date\<close> of \<^verbatim>\<open>p11kit/rpc.go\<close>. The code reads
  no more of a \<^verbatim>\<open>time.Time\<close> than its civil date, so that is what \<open>gotime\<close> holds.
  \<open>time_Date\<close> is \<^verbatim>\<open>time.Date\<close> at midnight UTC, which normalises a month or day
  outside its range by carrying into the next unit.
\<close>

section \<open>Civil dates\<close>

record gotime =
  year :: int
  month :: nat
  day :: nat

definition is_leap :: "int \<Rightarrow> bool" where
  "is_leap y \<longleftrightarrow> y mod 4 = 0 \<and> (y mod 100 \<noteq> 0 \<or> y mod 400 = 0)"

definition days_in :: "nat \<Rightarrow> int \<Rightarrow> nat" where
  "days_in m y =
     (if m = 2 then (if is_leap y then 29 else 28) else if m \<in> {4, 6, 9, 11} then 30 else 31)"

definition valid_date :: "gotime \<Rightarrow> bool" where
  "valid_date t \<longleftrightarrow>
     1 \<le> month t \<and> month t \<le> 12 \<and> 1 \<le> day t \<and> day t \<le> days_in (month t) (year t)"

lemma days_in_pos [simp]: "0 < days_in m y"
  by (simp add: days_in_def)

text \<open>
  Carrying days, with the month already between 1 and 12: a day past the end of
  the month moves into the next one, day 0 is the last day of the previous one.
\<close>

function norm_day :: "int \<Rightarrow> nat \<Rightarrow> nat \<Rightarrow> gotime" where
  "norm_day y m d =
     (if d = 0
      then (if m = 1 then \<lparr>year = y - 1, month = 12, day = 31\<rparr>
            else \<lparr>year = y, month = m - 1, day = days_in (m - 1) y\<rparr>)
      else if d \<le> days_in m y then \<lparr>year = y, month = m, day = d\<rparr>
      else if m = 12 then norm_day (y + 1) 1 (d - days_in m y)
      else norm_day y (m + 1) (d - days_in m y))"
  by pat_completeness auto
termination
  by (relation "measure (\<lambda>(y, m, d). d)") auto

declare norm_day.simps [simp del]

definition time_Date :: "int \<Rightarrow> nat \<Rightarrow> nat \<Rightarrow> gotime" where
  "time_Date y m d =
     norm_day (y + (int m - 1) div 12) (nat ((int m - 1) mod 12) + 1) d"

lemma norm_day_valid: "1 \<le> m \<Longrightarrow> m \<le> 12 \<Longrightarrow> valid_date (norm_day y m d)"
proof (induction y m d rule: norm_day.induct)
  case (1 y m d)
  consider "d = 0" | "0 < d" "d \<le> days_in m y" | "days_in m y < d" "m = 12"
    | "days_in m y < d" "m \<noteq> 12" by linarith
  then show ?case
  proof cases
    case 1
    then show ?thesis using "1.prems"
      by (auto simp: norm_day.simps [of y m 0] valid_date_def Suc_le_eq days_in_def)
  next
    case 2
    then show ?thesis using "1.prems" by (simp add: norm_day.simps [of y m d] valid_date_def)
  next
    case 3
    then show ?thesis using "1.IH"(1) by (simp add: norm_day.simps [of y 12 d])
  next
    case 4
    then show ?thesis using "1.IH"(2) "1.prems" by (simp add: norm_day.simps [of y m d])
  qed
qed

lemma time_Date_valid: "valid_date (time_Date y m d)"
proof -
  have "nat ((int m - 1) mod 12) < 12" by (simp add: nat_less_iff)
  then show ?thesis unfolding time_Date_def by (intro norm_day_valid) auto
qed

lemma time_Date_id: "valid_date t \<Longrightarrow> time_Date (year t) (month t) (day t) = t"
proof -
  assume t: "valid_date t"
  then have "0 \<le> int (month t) - 1" and "int (month t) - 1 < 12"
    by (auto simp: valid_date_def)
  then have "(int (month t) - 1) div 12 = 0" and "nat ((int (month t) - 1) mod 12) + 1 = month t"
    by auto
  then have "time_Date (year t) (month t) (day t) = norm_day (year t) (month t) (day t)"
    unfolding time_Date_def by (simp only:) simp
  then show ?thesis
    using t by (simp add: norm_day.simps [of "year t" "month t" "day t"] valid_date_def)
qed

section \<open>Decimal fields\<close>

text \<open>\<^verbatim>\<open>strconv.AppendUint(_, n, 10)\<close> and, on at most 19 characters, \<^verbatim>\<open>strconv.ParseUint(_, 10, 64)\<close>.\<close>

definition appendUint :: "uint64 \<Rightarrow> bytes" where
  "appendUint n = bytes_of (decimal (unat n))"

definition is_digit :: "byte \<Rightarrow> bool" where
  "is_digit c \<longleftrightarrow> 48 \<le> c \<and> c \<le> 57"

definition parseUint :: "bytes \<Rightarrow> nat option" where
  "parseUint s =
     (if s \<noteq> [] \<and> list_all is_digit s
      then Some (foldl (\<lambda>n c. 10 * n + (unat c - 48)) 0 s) else None)"

definition addTwoDigits :: "buffer \<Rightarrow> uint64 \<Rightarrow> buffer" where
  "addTwoDigits b n =
     (if n \<le> 9 then (b @ [48]) @ appendUint n
      else if 10 \<le> n \<and> n \<le> 99 then b @ appendUint n
      else b @ [48, 48])"

definition addDate :: "buffer \<Rightarrow> gotime \<Rightarrow> buffer" where
  "addDate b t =
     (let y = word_of_int (year t) :: uint64;
          m = of_nat (month t) :: uint64;
          d = of_nat (day t) :: uint64;
          b = (if 1000 \<le> y \<and> y \<le> 9999 then b @ appendUint y else b @ [48, 48, 48, 48])
      in addTwoDigits (addTwoDigits b m) d)"

definition buffer_date :: "gotime reader" where
  "buffer_date b =
     (if length b < 8 then (None, b)
      else case parseUint (take 4 b) of None \<Rightarrow> (None, b)
      | Some y \<Rightarrow>
        (case parseUint (take 2 (drop 4 b)) of None \<Rightarrow> (None, b)
         | Some m \<Rightarrow>
           (case parseUint (take 2 (drop 6 b)) of None \<Rightarrow> (None, b)
            | Some d \<Rightarrow> (Some (time_Date (int y) m d), drop 8 b))))"

section \<open>Round trip\<close>

lemma unat_digit_char: "d < 10 \<Longrightarrow> of_char (digit_char d) = (of_nat (48 + d) :: byte)"
proof -
  assume "d < 10"
  then have "of_char (digit_char d) = (48 + d :: nat)" by (simp add: digit_char_def)
  then show ?thesis by (metis of_nat_of_char)
qed

lemma parseUint_step:
  assumes "d < 10"
  shows "is_digit (of_nat (48 + d))" and "unat (of_nat (48 + d) :: byte) - 48 = d"
proof -
  have u: "unat (of_nat (48 + d) :: byte) = 48 + d"
    using assms by (simp add: unat_of_nat take_bit_nat_eq_self_iff del: of_nat_add)
  show "unat (of_nat (48 + d) :: byte) - 48 = d" by (simp only: u)
  show "is_digit (of_nat (48 + d))"
    unfolding is_digit_def word_le_nat_alt u using assms by simp
qed

lemma parse_to_base:
  "list_all is_digit (bytes_of (to_base 10 n)) \<and>
   foldl (\<lambda>n c. 10 * n + (unat c - 48)) 0 (bytes_of (to_base 10 n)) = n"
proof (induction n rule: less_induct)
  case (less n)
  show ?case
  proof (cases "n < 10")
    case True
    then show ?thesis using parseUint_step [OF True]
      by (simp add: to_base.simps [of 10 n] bytes_of_def unat_digit_char)
  next
    case False
    then have IH: "list_all is_digit (bytes_of (to_base 10 (n div 10)))"
        "foldl (\<lambda>n c. 10 * n + (unat c - 48)) 0 (bytes_of (to_base 10 (n div 10))) = n div 10"
      using less.IH [of "n div 10"] by auto
    have d: "n mod 10 < 10" by simp
    have "bytes_of (to_base 10 n) = bytes_of (to_base 10 (n div 10)) @ [of_nat (48 + n mod 10)]"
      using False unat_digit_char [OF d] by (simp add: to_base.simps [of 10 n] bytes_of_def)
    then show ?thesis using IH parseUint_step [OF d] by simp
  qed
qed

lemma decimal_length: "length (decimal n) = (if n < 10 then 1 else Suc (length (decimal (n div 10))))"
  by (simp add: decimal_def to_base.simps [of 10 n])

lemma parseUint_decimal: "parseUint (bytes_of (decimal n)) = Some n"
proof -
  have "decimal n \<noteq> []" using decimal_length [of n] by (auto split: if_splits)
  then show ?thesis using parse_to_base [of n]
    by (simp add: parseUint_def decimal_def bytes_of_def)
qed

lemma parseUint_zero: "parseUint (48 # bytes_of (decimal n)) = Some n"
  using parseUint_decimal [of n] by (auto simp: parseUint_def is_digit_def split: if_splits)

text \<open>Two decimal digits, always: what the month and day fields take.\<close>

lemma addTwoDigits_spec:
  assumes "n < 100"
  shows "\<exists>f. addTwoDigits b (of_nat n) = b @ f \<and> length f = 2 \<and> parseUint f = Some n"
proof -
  have u: "unat (of_nat n :: uint64) = n"
    using assms by (simp add: unat_of_nat take_bit_nat_eq_self_iff)
  have le: "(of_nat n :: uint64) \<le> 9 \<longleftrightarrow> n \<le> 9" "10 \<le> (of_nat n :: uint64) \<longleftrightarrow> 10 \<le> n"
      "(of_nat n :: uint64) \<le> 99 \<longleftrightarrow> n \<le> 99"
    unfolding word_le_nat_alt u by simp_all
  show ?thesis
  proof (cases "n < 10")
    case True
    then have "addTwoDigits b (of_nat n) = b @ (48 # bytes_of (decimal n))"
      by (simp add: addTwoDigits_def le appendUint_def u)
    moreover have "length (decimal n) = 1" using True by (simp add: decimal_length)
    ultimately show ?thesis by (auto simp: parseUint_zero)
  next
    case False
    then have "addTwoDigits b (of_nat n) = b @ bytes_of (decimal n)"
      using assms by (simp add: addTwoDigits_def le appendUint_def u)
    moreover have "length (decimal n) = 2"
      using False assms less_mult_imp_div_less [of n 10 10] decimal_length [of n]
        decimal_length [of "n div 10"] by simp
    ultimately show ?thesis by (auto simp: parseUint_decimal)
  qed
qed

lemma addDate_year:
  assumes "1000 \<le> y" and "y \<le> 9999"
  shows "unat (word_of_int y :: uint64) = nat y"
    and "1000 \<le> (word_of_int y :: uint64) \<and> (word_of_int y :: uint64) \<le> 9999"
    and "length (decimal (nat y)) = 4"
proof -
  have "(word_of_int y :: uint64) = of_nat (nat y)" using assms by simp
  moreover have "nat y < 2 ^ 64" using assms by simp
  ultimately show u: "unat (word_of_int y :: uint64) = nat y"
    by (simp add: unat_of_nat take_bit_nat_eq_self_iff)
  have n: "1000 \<le> nat y" "nat y \<le> 9999" using assms by linarith+
  show "1000 \<le> (word_of_int y :: uint64) \<and> (word_of_int y :: uint64) \<le> 9999"
    unfolding word_le_nat_alt u using n by simp
  have "nat y div 10 div 10 div 10 < 10" "10 \<le> nat y div 10 div 10" using n by linarith+
  then show "length (decimal (nat y)) = 4"
    using n decimal_length [of "nat y"] decimal_length [of "nat y div 10"]
      decimal_length [of "nat y div 10 div 10"] decimal_length [of "nat y div 10 div 10 div 10"]
    by (simp split: if_splits)
qed

lemma buffer_date_fields:
  assumes "length fy = 4" "length fm = 2" "length fd = 2"
    and "parseUint fy = Some y" "parseUint fm = Some m" "parseUint fd = Some d"
  shows "buffer_date (fy @ fm @ fd @ rest) = (Some (time_Date (int y) m d), rest)"
  using assms by (simp add: buffer_date_def)

lemma valid_date_small: "valid_date t \<Longrightarrow> month t < 100 \<and> day t < 100"
  by (auto simp: valid_date_def days_in_def split: if_splits)

lemma buffer_date_addDate [codec_simps]:
  assumes "valid_date t" and "1000 \<le> year t" and "year t \<le> 9999"
  shows "buffer_date (addDate [] t @ rest) = (Some t, rest)"
proof -
  note small = valid_date_small [OF assms(1)]
  let ?fy = "bytes_of (decimal (nat (year t)))"
  obtain fm where fm: "addTwoDigits ?fy (of_nat (month t)) = ?fy @ fm" "length fm = 2"
      "parseUint fm = Some (month t)"
    using addTwoDigits_spec [of "month t"] small by blast
  obtain fd where fd: "addTwoDigits (?fy @ fm) (of_nat (day t)) = (?fy @ fm) @ fd" "length fd = 2"
      "parseUint fd = Some (day t)"
    using addTwoDigits_spec [of "day t"] small by blast
  have "addDate [] t = ?fy @ fm @ fd"
    using addDate_year [OF assms(2,3)] fm fd by (simp add: addDate_def appendUint_def)
  moreover have "int (nat (year t)) = year t" using assms by simp
  ultimately show ?thesis
    using buffer_date_fields [of ?fy fm fd "nat (year t)" "month t" "day t" rest]
      addDate_year(3) [OF assms(2,3)] fm fd parseUint_decimal time_Date_id [OF assms(1)]
    by simp
qed

lemma buffer_date_SomeD:
  "buffer_date b = (Some t, b') \<Longrightarrow> valid_date t \<and> b = take 8 b @ b' \<and> 8 \<le> length b"
  by (auto simp: buffer_date_def time_Date_valid split: if_splits option.splits)

interpretation date_codec:
  codec "addDate []" buffer_date "\<lambda>t. valid_date t \<and> 1000 \<le> year t \<and> year t \<le> 9999"
  by unfold_locales (auto simp: codec_simps)

interpretation date_reads: consuming buffer_date 8
proof
  fix b b' :: bytes and x
  assume "buffer_date b = (Some x, b')"
  from buffer_date_SomeD [OF this] show "\<exists>p. b = p @ b' \<and> 8 \<le> length p"
    by (intro exI [of _ "take 8 b"]) auto
qed

end
