(* ===== verification/Attribute.thy ===== *)
theory Attribute
  imports GoTime
begin

text \<open>
  PKCS #11 attributes: \<^verbatim>\<open>attributeType\<close>, \<^verbatim>\<open>attribute\<close> and \<^verbatim>\<open>attributeTemplate\<close> of
  \<^verbatim>\<open>p11kit/attribute.go\<close>, and their encoding, \<^verbatim>\<open>addAttribute\<close> and
  \<^verbatim>\<open>buffer.attribute\<close> of \<^verbatim>\<open>p11kit/rpc.go\<close>. An attribute is a type and at most one
  value; which kind of value is a function of the type, \<open>valueType\<close>, and the
  decoder goes by it. \<open>wire_attribute\<close> says that the value is of the type's kind and
  can be represented; on those attributes the encoding round trips.
\<close>

section \<open>Attribute types\<close>

type_synonym attributeType = uint32

abbreviation attributeClass :: attributeType where "attributeClass \<equiv> 0x00000000"
abbreviation attributeToken :: attributeType where "attributeToken \<equiv> 0x00000001"
abbreviation attributePrivate :: attributeType where "attributePrivate \<equiv> 0x00000002"
abbreviation attributeLabel :: attributeType where "attributeLabel \<equiv> 0x00000003"
abbreviation attributeApplication :: attributeType where "attributeApplication \<equiv> 0x00000010"
abbreviation attributeValue :: attributeType where "attributeValue \<equiv> 0x00000011"
abbreviation attributeObjectID :: attributeType where "attributeObjectID \<equiv> 0x00000012"
abbreviation attributeCertificateType :: attributeType where "attributeCertificateType \<equiv> 0x00000080"
abbreviation attributeIssuer :: attributeType where "attributeIssuer \<equiv> 0x00000081"
abbreviation attributeSerialNumber :: attributeType where "attributeSerialNumber \<equiv> 0x00000082"
abbreviation attributeACIssuer :: attributeType where "attributeACIssuer \<equiv> 0x00000083"
abbreviation attributeOwner :: attributeType where "attributeOwner \<equiv> 0x00000084"
abbreviation attributeAttrTypes :: attributeType where "attributeAttrTypes \<equiv> 0x00000085"
abbreviation attributeTrusted :: attributeType where "attributeTrusted \<equiv> 0x00000086"
abbreviation attributeCertificateCategory :: attributeType where "attributeCertificateCategory \<equiv> 0x00000087"
abbreviation attributeJavaMIDPSecurityDomain :: attributeType where "attributeJavaMIDPSecurityDomain \<equiv> 0x00000088"
abbreviation attributeURL :: attributeType where "attributeURL \<equiv> 0x00000089"
abbreviation attributeHashOfSubjectPublicKey :: attributeType where "attributeHashOfSubjectPublicKey \<equiv> 0x0000008a"
abbreviation attributeHashOfIssuerPublicKey :: attributeType where "attributeHashOfIssuerPublicKey \<equiv> 0x0000008b"
abbreviation attributeNameHashAlgorithm :: attributeType where "attributeNameHashAlgorithm \<equiv> 0x0000008c"
abbreviation attributeCheckValue :: attributeType where "attributeCheckValue \<equiv> 0x00000090"
abbreviation attributeKeyType :: attributeType where "attributeKeyType \<equiv> 0x00000100"
abbreviation attributeSubject :: attributeType where "attributeSubject \<equiv> 0x00000101"
abbreviation attributeID :: attributeType where "attributeID \<equiv> 0x00000102"
abbreviation attributeSensitive :: attributeType where "attributeSensitive \<equiv> 0x00000103"
abbreviation attributeEncrypt :: attributeType where "attributeEncrypt \<equiv> 0x00000104"
abbreviation attributeDecrypt :: attributeType where "attributeDecrypt \<equiv> 0x00000105"
abbreviation attributeWrap :: attributeType where "attributeWrap \<equiv> 0x00000106"
abbreviation attributeUnwrap :: attributeType where "attributeUnwrap \<equiv> 0x00000107"
abbreviation attributeSign :: attributeType where "attributeSign \<equiv> 0x00000108"
abbreviation attributeSignRecover :: attributeType where "attributeSignRecover \<equiv> 0x00000109"
abbreviation attributeVerify :: attributeType where "attributeVerify \<equiv> 0x0000010a"
abbreviation attributeVerifyRecover :: attributeType where "attributeVerifyRecover \<equiv> 0x0000010b"
abbreviation attributeDerive :: attributeType where "attributeDerive \<equiv> 0x0000010c"
abbreviation attributeStartDate :: attributeType where "attributeStartDate \<equiv> 0x00000110"
abbreviation attributeEndDate :: attributeType where "attributeEndDate \<equiv> 0x00000111"
abbreviation attributeModulus :: attributeType where "attributeModulus \<equiv> 0x00000120"
abbreviation attributeModulusBits :: attributeType where "attributeModulusBits \<equiv> 0x00000121"
abbreviation attributePublicExponent :: attributeType where "attributePublicExponent \<equiv> 0x00000122"
abbreviation attributePrivateExponent :: attributeType where "attributePrivateExponent \<equiv> 0x00000123"
abbreviation attributePrime1 :: attributeType where "attributePrime1 \<equiv> 0x00000124"
abbreviation attributePrime2 :: attributeType where "attributePrime2 \<equiv> 0x00000125"
abbreviation attributeExponent1 :: attributeType where "attributeExponent1 \<equiv> 0x00000126"
abbreviation attributeExponent2 :: attributeType where "attributeExponent2 \<equiv> 0x00000127"
abbreviation attributeCoefficient :: attributeType where "attributeCoefficient \<equiv> 0x00000128"
abbreviation attributePublicKeyInfo :: attributeType where "attributePublicKeyInfo \<equiv> 0x00000129"
abbreviation attributePrime :: attributeType where "attributePrime \<equiv> 0x00000130"
abbreviation attributeSubprime :: attributeType where "attributeSubprime \<equiv> 0x00000131"
abbreviation attributeBase :: attributeType where "attributeBase \<equiv> 0x00000132"
abbreviation attributePrimeBits :: attributeType where "attributePrimeBits \<equiv> 0x00000133"
abbreviation attributeSubprimeBits :: attributeType where "attributeSubprimeBits \<equiv> 0x00000134"
abbreviation attributeValueBits :: attributeType where "attributeValueBits \<equiv> 0x00000160"
abbreviation attributeValueLen :: attributeType where "attributeValueLen \<equiv> 0x00000161"
abbreviation attributeExtractable :: attributeType where "attributeExtractable \<equiv> 0x00000162"
abbreviation attributeLocal :: attributeType where "attributeLocal \<equiv> 0x00000163"
abbreviation attributeNeverExtractable :: attributeType where "attributeNeverExtractable \<equiv> 0x00000164"
abbreviation attributeAlwaysSensitive :: attributeType where "attributeAlwaysSensitive \<equiv> 0x00000165"
abbreviation attributeKeyGenMechanism :: attributeType where "attributeKeyGenMechanism \<equiv> 0x00000166"
abbreviation attributeModifiable :: attributeType where "attributeModifiable \<equiv> 0x00000170"
abbreviation attributeCopyable :: attributeType where "attributeCopyable \<equiv> 0x00000171"
abbreviation attributeDestroyable :: attributeType where "attributeDestroyable \<equiv> 0x00000172"
abbreviation attributeECDSAParams :: attributeType where "attributeECDSAParams \<equiv> 0x00000180"
abbreviation attributeECParams :: attributeType where "attributeECParams \<equiv> 0x00000180"
abbreviation attributeECPoint :: attributeType where "attributeECPoint \<equiv> 0x00000181"
abbreviation attributeSecondaryAuth :: attributeType where "attributeSecondaryAuth \<equiv> 0x00000200"
abbreviation attributeAuthPINFlags :: attributeType where "attributeAuthPINFlags \<equiv> 0x00000201"
abbreviation attributeAlwaysAuthenticate :: attributeType where "attributeAlwaysAuthenticate \<equiv> 0x00000202"
abbreviation attributeWrapWithTrusted :: attributeType where "attributeWrapWithTrusted \<equiv> 0x00000210"
abbreviation attributeWrapTemplate :: attributeType where "attributeWrapTemplate \<equiv> 0x40000211"
abbreviation attributeUnwrapTemplate :: attributeType where "attributeUnwrapTemplate \<equiv> 0x40000212"
abbreviation attributeHWFeatureType :: attributeType where "attributeHWFeatureType \<equiv> 0x00000300"
abbreviation attributeResetOnInit :: attributeType where "attributeResetOnInit \<equiv> 0x00000301"
abbreviation attributeHasReset :: attributeType where "attributeHasReset \<equiv> 0x00000302"
abbreviation attributePixelX :: attributeType where "attributePixelX \<equiv> 0x00000400"
abbreviation attributePixelY :: attributeType where "attributePixelY \<equiv> 0x00000401"
abbreviation attributeResolution :: attributeType where "attributeResolution \<equiv> 0x00000402"
abbreviation attributeCharRows :: attributeType where "attributeCharRows \<equiv> 0x00000403"
abbreviation attributeCharColumns :: attributeType where "attributeCharColumns \<equiv> 0x00000404"
abbreviation attributeColor :: attributeType where "attributeColor \<equiv> 0x00000405"
abbreviation attributeBitsPerPixel :: attributeType where "attributeBitsPerPixel \<equiv> 0x00000406"
abbreviation attributeCharSets :: attributeType where "attributeCharSets \<equiv> 0x00000480"
abbreviation attributeEncodingMethods :: attributeType where "attributeEncodingMethods \<equiv> 0x00000481"
abbreviation attributeMIMETypes :: attributeType where "attributeMIMETypes \<equiv> 0x00000482"
abbreviation attributeMechanismType :: attributeType where "attributeMechanismType \<equiv> 0x00000500"
abbreviation attributeRequiredCMSAttributes :: attributeType where "attributeRequiredCMSAttributes \<equiv> 0x00000501"
abbreviation attributeDefaultCMSAttributes :: attributeType where "attributeDefaultCMSAttributes \<equiv> 0x00000502"
abbreviation attributeSupportedCMSAttributes :: attributeType where "attributeSupportedCMSAttributes \<equiv> 0x00000503"
abbreviation attributeAllowedMechanisms :: attributeType where "attributeAllowedMechanisms \<equiv> 0x40000600"
abbreviation attributeVendorDefined :: attributeType where "attributeVendorDefined \<equiv> 0x80000000"

definition attributeString :: "(attributeType \<times> string) list" where
  "attributeString =
    [(attributeClass, ''CKA_CLASS''),
     (attributeToken, ''CKA_TOKEN''),
     (attributePrivate, ''CKA_PRIVATE''),
     (attributeLabel, ''CKA_LABEL''),
     (attributeApplication, ''CKA_APPLICATION''),
     (attributeValue, ''CKA_VALUE''),
     (attributeObjectID, ''CKA_OBJECT_ID''),
     (attributeCertificateType, ''CKA_CERTIFICATE_TYPE''),
     (attributeIssuer, ''CKA_ISSUER''),
     (attributeSerialNumber, ''CKA_SERIAL_NUMBER''),
     (attributeACIssuer, ''CKA_AC_ISSUER''),
     (attributeOwner, ''CKA_OWNER''),
     (attributeAttrTypes, ''CKA_ATTR_TYPES''),
     (attributeTrusted, ''CKA_TRUSTED''),
     (attributeCertificateCategory, ''CKA_CERTIFICATE_CATEGORY''),
     (attributeJavaMIDPSecurityDomain, ''CKA_JAVA_MIDP_SECURITY_DOMAIN''),
     (attributeURL, ''CKA_URL''),
     (attributeHashOfSubjectPublicKey, ''CKA_HASH_OF_SUBJECT_PUBLIC_KEY''),
     (attributeHashOfIssuerPublicKey, ''CKA_HASH_OF_ISSUER_PUBLIC_KEY''),
     (attributeNameHashAlgorithm, ''CKA_NAME_HASH_ALGORITHM''),
     (attributeCheckValue, ''CKA_CHECK_VALUE''),
     (attributeKeyType, ''CKA_KEY_TYPE''),
     (attributeSubject, ''CKA_SUBJECT''),
     (attributeID, ''CKA_ID''),
     (attributeSensitive, ''CKA_SENSITIVE''),
     (attributeEncrypt, ''CKA_ENCRYPT''),
     (attributeDecrypt, ''CKA_DECRYPT''),
     (attributeWrap, ''CKA_WRAP''),
     (attributeUnwrap, ''CKA_UNWRAP''),
     (attributeSign, ''CKA_SIGN''),
     (attributeSignRecover, ''CKA_SIGN_RECOVER''),
     (attributeVerify, ''CKA_VERIFY''),
     (attributeVerifyRecover, ''CKA_VERIFY_RECOVER''),
     (attributeDerive, ''CKA_DERIVE''),
     (attributeStartDate, ''CKA_START_DATE''),
     (attributeEndDate, ''CKA_END_DATE''),
     (attributeModulus, ''CKA_MODULUS''),
     (attributeModulusBits, ''CKA_MODULUS_BITS''),
     (attributePublicExponent, ''CKA_PUBLIC_EXPONENT''),
     (attributePrivateExponent, ''CKA_PRIVATE_EXPONENT''),
     (attributePrime1, ''CKA_PRIME_1''),
     (attributePrime2, ''CKA_PRIME_2''),
     (attributeExponent1, ''CKA_EXPONENT_1''),
     (attributeExponent2, ''CKA_EXPONENT_2''),
     (attributeCoefficient, ''CKA_COEFFICIENT''),
     (attributePublicKeyInfo, ''CKA_PUBLIC_KEY_INFO''),
     (attributePrime, ''CKA_PRIME''),
     (attributeSubprime, ''CKA_SUBPRIME''),
     (attributeBase, ''CKA_BASE''),
     (attributePrimeBits, ''CKA_PRIME_BITS''),
     (attributeSubprimeBits, ''CKA_SUBPRIME_BITS''),
     (attributeValueBits, ''CKA_VALUE_BITS''),
     (attributeValueLen, ''CKA_VALUE_LEN''),
     (attributeExtractable, ''CKA_EXTRACTABLE''),
     (attributeLocal, ''CKA_LOCAL''),
     (attributeNeverExtractable, ''CKA_NEVER_EXTRACTABLE''),
     (attributeAlwaysSensitive, ''CKA_ALWAYS_SENSITIVE''),
     (attributeKeyGenMechanism, ''CKA_KEY_GEN_MECHANISM''),
     (attributeModifiable, ''CKA_MODIFIABLE''),
     (attributeCopyable, ''CKA_COPYABLE''),
     (attributeDestroyable, ''CKA_DESTROYABLE''),
     (attributeECDSAParams, ''CKA_ECDSA_PARAMS''),
     (attributeECPoint, ''CKA_EC_POINT''),
     (attributeSecondaryAuth, ''CKA_SECONDARY_AUTH''),
     (attributeAuthPINFlags, ''CKA_AUTH_PIN_FLAGS''),
     (attributeAlwaysAuthenticate, ''CKA_ALWAYS_AUTHENTICATE''),
     (attributeWrapWithTrusted, ''CKA_WRAP_WITH_TRUSTED''),
     (attributeWrapTemplate, ''CKA_WRAP_TEMPLATE''),
     (attributeUnwrapTemplate, ''CKA_UNWRAP_TEMPLATE''),
     (attributeHWFeatureType, ''CKA_HW_FEATURE_TYPE''),
     (attributeResetOnInit, ''CKA_RESET_ON_INIT''),
     (attributeHasReset, ''CKA_HAS_RESET''),
     (attributePixelX, ''CKA_PIXEL_X''),
     (attributePixelY, ''CKA_PIXEL_Y''),
     (attributeResolution, ''CKA_RESOLUTION''),
     (attributeCharRows, ''CKA_CHAR_ROWS''),
     (attributeCharColumns, ''CKA_CHAR_COLUMNS''),
     (attributeColor, ''CKA_COLOR''),
     (attributeBitsPerPixel, ''CKA_BITS_PER_PIXEL''),
     (attributeCharSets, ''CKA_CHAR_SETS''),
     (attributeEncodingMethods, ''CKA_ENCODING_METHODS''),
     (attributeMIMETypes, ''CKA_MIME_TYPES''),
     (attributeMechanismType, ''CKA_MECHANISM_TYPE''),
     (attributeRequiredCMSAttributes, ''CKA_REQUIRED_CMS_ATTRIBUTES''),
     (attributeDefaultCMSAttributes, ''CKA_DEFAULT_CMS_ATTRIBUTES''),
     (attributeSupportedCMSAttributes, ''CKA_SUPPORTED_CMS_ATTRIBUTES''),
     (attributeAllowedMechanisms, ''CKA_ALLOWED_MECHANISMS''),
     (attributeVendorDefined, ''CKA_VENDOR_DEFINED'')]"

definition attributeType_String :: "attributeType \<Rightarrow> string" where
  "attributeType_String a =
     (case map_of attributeString a of
        Some s \<Rightarrow> s
      | None \<Rightarrow> ''attribute(0x'' @ hex (unat a) @ '')'')"

text \<open>
  The kinds of value, \<^verbatim>\<open>attributeTypeByte = 1 + iota\<close> and on; \<open>AttributeTypeNone\<close> is
  the 0 that \<^verbatim>\<open>valueType\<close> returns for a type it does not support.
\<close>

datatype value_type = AttributeTypeNone | AttributeTypeByte | AttributeTypeUlong |
  AttributeTypeMechanismArray | AttributeTypeDate | AttributeTypeByteArray

definition valueType :: "attributeType \<Rightarrow> value_type" where
  "valueType a =
     (if a \<in>
       {attributeToken, attributePrivate, attributeTrusted, attributeSensitive,
        attributeEncrypt, attributeDecrypt, attributeWrap, attributeUnwrap, attributeSign,
        attributeSignRecover, attributeVerify, attributeVerifyRecover, attributeDerive,
        attributeExtractable, attributeLocal, attributeNeverExtractable,
        attributeAlwaysSensitive, attributeModifiable, attributeCopyable,
        attributeSecondaryAuth, attributeAlwaysAuthenticate, attributeWrapWithTrusted,
        attributeResetOnInit, attributeHasReset, attributeColor}
      then AttributeTypeByte
      else if a \<in>
       {attributeClass, attributeCertificateType, attributeCertificateCategory,
        attributeJavaMIDPSecurityDomain, attributeKeyType, attributeModulusBits,
        attributePrimeBits, attributeSubprimeBits, attributeValueBits, attributeValueLen,
        attributeKeyGenMechanism, attributeAuthPINFlags, attributeHWFeatureType,
        attributePixelX, attributePixelY, attributeResolution, attributeCharRows,
        attributeCharColumns, attributeBitsPerPixel, attributeMechanismType}
      then AttributeTypeUlong
      else if a \<in>
       {attributeWrapTemplate, attributeUnwrapTemplate}
      then AttributeTypeNone
      else if a \<in>
       {attributeAllowedMechanisms}
      then AttributeTypeMechanismArray
      else if a \<in>
       {attributeStartDate, attributeEndDate}
      then AttributeTypeDate
      else if a \<in>
       {attributeLabel, attributeApplication, attributeValue, attributeObjectID,
        attributeIssuer, attributeSerialNumber, attributeACIssuer, attributeOwner,
        attributeAttrTypes, attributeURL, attributeHashOfSubjectPublicKey,
        attributeHashOfIssuerPublicKey, attributeCheckValue, attributeSubject, attributeID,
        attributeModulus, attributePublicExponent, attributePrivateExponent, attributePrime1,
        attributePrime2, attributeExponent1, attributeExponent2, attributeCoefficient,
        attributePublicKeyInfo, attributePrime, attributeSubprime, attributeBase,
        attributeECParams, attributeECPoint, attributeCharSets, attributeEncodingMethods,
        attributeMIMETypes, attributeRequiredCMSAttributes, attributeDefaultCMSAttributes,
        attributeSupportedCMSAttributes}
      then AttributeTypeByteArray
      else AttributeTypeNone)"

text \<open>The same table over numbers, which the simplifier decides faster.\<close>

lemma valueType_unat: "valueType a =
     (if unat a \<in>
        {1, 2, 134, 259, 260, 261, 262, 263, 264, 265, 266, 267, 268, 354, 355, 356, 357, 368,
        369, 512, 514, 528, 769, 770, 1029}
      then AttributeTypeByte
      else if unat a \<in>
        {0, 128, 135, 136, 256, 289, 307, 308, 352, 353, 358, 513, 768, 1024, 1025, 1026, 1027,
        1028, 1030, 1280}
      then AttributeTypeUlong
      else if unat a \<in>
        {1073742353, 1073742354}
      then AttributeTypeNone
      else if unat a \<in>
        {1073743360}
      then AttributeTypeMechanismArray
      else if unat a \<in>
        {272, 273}
      then AttributeTypeDate
      else if unat a \<in>
        {3, 16, 17, 18, 129, 130, 131, 132, 133, 137, 138, 139, 144, 257, 258, 288, 290, 291,
        292, 293, 294, 295, 296, 297, 304, 305, 306, 384, 385, 1152, 1153, 1154, 1281, 1282,
        1283}
      then AttributeTypeByteArray
      else AttributeTypeNone)"
  unfolding valueType_def by (simp add: word_unat_eq_iff cong: if_cong)

section \<open>Attributes\<close>

record attribute =
  a_typ :: attributeType
  a_byte :: "byte option"
  a_ulong :: "uint64 option"
  a_mechanisms :: "uint64 list"
  a_date :: "gotime option"
  a_bytes :: "bytes option"

record attributeTemplate =
  t_typ :: attributeType
  t_len :: uint32

text \<open>The composite literals \<^verbatim>\<open>attribute{typ: t, ...}\<close> with one field or none.\<close>

definition empty_attribute :: "attributeType \<Rightarrow> attribute" where
  "empty_attribute t = \<lparr>a_typ = t, a_byte = None, a_ulong = None, a_mechanisms = [],
     a_date = None, a_bytes = None\<rparr>"

definition byte_attribute :: "attributeType \<Rightarrow> byte \<Rightarrow> attribute" where
  "byte_attribute t x = (empty_attribute t)\<lparr>a_byte := Some x\<rparr>"

definition ulong_attribute :: "attributeType \<Rightarrow> uint64 \<Rightarrow> attribute" where
  "ulong_attribute t n = (empty_attribute t)\<lparr>a_ulong := Some n\<rparr>"

definition date_attribute :: "attributeType \<Rightarrow> gotime \<Rightarrow> attribute" where
  "date_attribute t d = (empty_attribute t)\<lparr>a_date := Some d\<rparr>"

definition bytes_attribute :: "attributeType \<Rightarrow> bytes option \<Rightarrow> attribute" where
  "bytes_attribute t v = (empty_attribute t)\<lparr>a_bytes := v\<rparr>"

lemmas attribute_defs = empty_attribute_def byte_attribute_def ulong_attribute_def
  date_attribute_def bytes_attribute_def

lemma attribute_typ [simp]:
  "a_typ (empty_attribute t) = t" "a_typ (byte_attribute t x) = t"
  "a_typ (ulong_attribute t n) = t" "a_typ (date_attribute t d) = t"
  "a_typ (bytes_attribute t v) = t"
  by (simp_all add: attribute_defs)

text \<open>\<^verbatim>\<open>setDate\<close>, \<^verbatim>\<open>setUint64\<close> and \<^verbatim>\<open>setByte\<close>: the value, or that there is none.\<close>

definition setDate :: "attribute \<Rightarrow> (int \<times> nat \<times> nat) option" where
  "setDate a = map_option (\<lambda>d. (year d, month d, day d)) (a_date a)"

definition setUint64 :: "attribute \<Rightarrow> uint64 option" where
  "setUint64 a = (case a_ulong a of None \<Rightarrow> None | Some n \<Rightarrow> Some n)"

definition setByte :: "attribute \<Rightarrow> byte option" where
  "setByte a = (case a_byte a of None \<Rightarrow> None | Some b \<Rightarrow> Some b)"

text \<open>\<^verbatim>\<open>attribute.value\<close>: the encoded value, nil if the attribute has none.\<close>

definition attr_value :: "attribute \<Rightarrow> bytes option" where
  "attr_value a =
     (case a_byte a of Some x \<Rightarrow> Some [x] | None \<Rightarrow>
      (case a_ulong a of Some n \<Rightarrow> Some (addUint64 [] n) | None \<Rightarrow>
       (case a_bytes a of Some v \<Rightarrow> Some (addByteArray [] v) | None \<Rightarrow>
        (case a_date a of Some d \<Rightarrow> Some (addDate [] d) | None \<Rightarrow> None))))"

definition addAttribute :: "buffer \<Rightarrow> attribute \<Rightarrow> buffer" where
  "addAttribute b a =
     (let b = addUint32 b (a_typ a) in
      case attr_value a of
        None \<Rightarrow> addByte b 0
      | Some val \<Rightarrow>
          (let b = addByte b 1;
               len = (if valueType (a_typ a) = AttributeTypeByteArray
                      then (case a_bytes a of None \<Rightarrow> 0 | Some v \<Rightarrow> length v)
                      else length val)
           in addUint32 b (of_nat len) @ val))"

text \<open>The value the decoder reads for a type; the length field before it is not consulted.\<close>

definition read_value :: "attributeType \<Rightarrow> attribute reader" where
  "read_value typ =
     (case valueType typ of
        AttributeTypeByte \<Rightarrow> rd_bind buffer_byte (\<lambda>n. rd_return (byte_attribute typ n))
      | AttributeTypeUlong \<Rightarrow> rd_bind buffer_uint64 (\<lambda>n. rd_return (ulong_attribute typ n))
      | AttributeTypeMechanismArray \<Rightarrow> rd_fail
      | AttributeTypeDate \<Rightarrow> rd_bind buffer_date (\<lambda>t. rd_return (date_attribute typ t))
      | AttributeTypeByteArray \<Rightarrow>
          rd_bind buffer_byteArray (\<lambda>arr. rd_return (bytes_attribute typ arr))
      | AttributeTypeNone \<Rightarrow> rd_fail)"

definition buffer_attribute :: "attribute reader" where
  "buffer_attribute =
     rd_bind buffer_uint32 (\<lambda>typ. rd_bind buffer_byte (\<lambda>validity.
       if validity = 0 then rd_return (empty_attribute typ)
       else rd_bind buffer_uint32 (\<lambda>length. read_value typ)))"

definition buffer_attributeTemplate :: "attributeTemplate reader" where
  "buffer_attributeTemplate =
     rd_bind buffer_uint32 (\<lambda>typ. rd_bind buffer_uint32 (\<lambda>valLen.
       rd_return \<lparr>t_typ = typ, t_len = valLen\<rparr>))"

section \<open>Well-formed attributes\<close>

text \<open>
  \<open>typed_attribute\<close>: the attribute has no value or one of its type's kind.
  \<open>wire_attribute\<close> adds that the value can be written without loss: a byte array is
  shorter than the null marker, a date has a four-digit year.
\<close>

definition typed_attribute :: "attribute \<Rightarrow> bool" where
  "typed_attribute a \<longleftrightarrow>
     a = empty_attribute (a_typ a) \<or>
     (case valueType (a_typ a) of
        AttributeTypeByte \<Rightarrow> \<exists>x. a = byte_attribute (a_typ a) x
      | AttributeTypeUlong \<Rightarrow> \<exists>n. a = ulong_attribute (a_typ a) n
      | AttributeTypeDate \<Rightarrow> \<exists>d. a = date_attribute (a_typ a) d \<and> valid_date d
      | AttributeTypeByteArray \<Rightarrow> \<exists>v. a = bytes_attribute (a_typ a) (Some v)
      | _ \<Rightarrow> False)"

definition wire_attribute :: "attribute \<Rightarrow> bool" where
  "wire_attribute a \<longleftrightarrow> typed_attribute a \<and>
     (case a_bytes a of None \<Rightarrow> True | Some v \<Rightarrow> length v < 0xffffffff) \<and>
     (case a_date a of None \<Rightarrow> True | Some d \<Rightarrow> 1000 \<le> year d \<and> year d \<le> 9999)"

lemma attr_value_simps [simp]:
  "attr_value (empty_attribute t) = None"
  "attr_value (byte_attribute t x) = Some [x]"
  "attr_value (ulong_attribute t n) = Some (addUint64 [] n)"
  "attr_value (date_attribute t d) = Some (addDate [] d)"
  "attr_value (bytes_attribute t None) = None"
  "attr_value (bytes_attribute t (Some v)) = Some (addByteArray [] v)"
  by (simp_all add: attr_value_def attribute_defs)

lemma bytes_attribute_None: "bytes_attribute t None = empty_attribute t"
  by (simp add: attribute_defs)

lemma addAttribute_append: "addAttribute b a = b @ addAttribute [] a"
  by (simp add: addAttribute_def addUint32_def addByte_def Let_def split: option.splits)

lemma typed_attributeI [simp]:
  "typed_attribute (empty_attribute t)"
  "valueType t = AttributeTypeByte \<Longrightarrow> typed_attribute (byte_attribute t x)"
  "valueType t = AttributeTypeUlong \<Longrightarrow> typed_attribute (ulong_attribute t n)"
  "valueType t = AttributeTypeDate \<Longrightarrow> valid_date d \<Longrightarrow> typed_attribute (date_attribute t d)"
  "valueType t = AttributeTypeByteArray \<Longrightarrow> typed_attribute (bytes_attribute t v)"
  by (auto simp: typed_attribute_def bytes_attribute_None) (metis bytes_attribute_None option.exhaust)

text \<open>Rule form: every kind of typed attribute is one of five shapes.\<close>

lemma typed_attribute_cases:
  assumes "typed_attribute a"
  obtains (empty) "a = empty_attribute (a_typ a)"
    | (byte) x where "valueType (a_typ a) = AttributeTypeByte" "a = byte_attribute (a_typ a) x"
    | (ulong) n where "valueType (a_typ a) = AttributeTypeUlong" "a = ulong_attribute (a_typ a) n"
    | (date) d where "valueType (a_typ a) = AttributeTypeDate" "a = date_attribute (a_typ a) d"
        "valid_date d"
    | (bytes) v where "valueType (a_typ a) = AttributeTypeByteArray"
        "a = bytes_attribute (a_typ a) (Some v)"
  using assms unfolding typed_attribute_def by (auto split: value_type.splits)

section \<open>Round trip\<close>

lemma buffer_attribute_empty:
  "buffer_attribute (addAttribute [] (empty_attribute t) @ rest) = (Some (empty_attribute t), rest)"
  by (simp add: addAttribute_def buffer_attribute_def addUint32_def addByte_def codec_simps)

lemma buffer_attribute_value:
  assumes "attr_value a = Some val" and "read_value (a_typ a) (val @ rest) = (Some a', rest)"
  shows "buffer_attribute (addAttribute [] a @ rest) = (Some a', rest)"
  using assms
  by (simp add: addAttribute_def buffer_attribute_def addUint32_def addByte_def codec_simps)

lemma buffer_attribute_addAttribute [codec_simps]:
  assumes "wire_attribute a"
  shows "buffer_attribute (addAttribute [] a @ rest) = (Some a, rest)"
proof -
  from assms have t: "typed_attribute a"
      and v: "\<And>v. a_bytes a = Some v \<Longrightarrow> length v < 0xffffffff"
      and d: "\<And>d. a_date a = Some d \<Longrightarrow> 1000 \<le> year d \<and> year d \<le> 9999"
    by (auto simp: wire_attribute_def)
  from t show ?thesis
  proof (cases rule: typed_attribute_cases)
    case empty
    then show ?thesis by (metis buffer_attribute_empty)
  next
    case (byte x)
    then have "read_value (a_typ a) ([x] @ rest) = (Some a, rest)"
      by (simp add: read_value_def codec_simps)
    then show ?thesis using byte(2) by (metis buffer_attribute_value attr_value_simps(2))
  next
    case (ulong n)
    then have "read_value (a_typ a) (addUint64 [] n @ rest) = (Some a, rest)"
      by (simp add: read_value_def addUint64_def codec_simps)
    then show ?thesis using ulong(2) by (metis buffer_attribute_value attr_value_simps(3))
  next
    case (date d')
    from date(2) have "a_date a = Some d'" by (metis attribute.select_convs(5) date_attribute_def
          attribute.surjective attribute.update_convs(5))
    then have "buffer_date (addDate [] d' @ rest) = (Some d', rest)"
      using d date(3) by (intro buffer_date_addDate) auto
    then have "read_value (a_typ a) (addDate [] d' @ rest) = (Some a, rest)"
      using date by (simp add: read_value_def)
    then show ?thesis using date(2) by (metis buffer_attribute_value attr_value_simps(4))
  next
    case (bytes w)
    from bytes(2) have "a_bytes a = Some w" by (metis attribute.select_convs(6)
          bytes_attribute_def attribute.surjective attribute.update_convs(6))
    then have "read_value (a_typ a) (addByteArray [] w @ rest) = (Some a, rest)"
      using v bytes by (simp add: read_value_def codec_simps)
    then show ?thesis using bytes(2) by (metis buffer_attribute_value attr_value_simps(6))
  qed
qed

lemma read_value_SomeD:
  assumes "read_value ty b = (Some a, b')"
  shows "typed_attribute a \<and> a_typ a = ty \<and> (\<exists>p. b = p @ b')"
proof (cases "valueType ty")
  case AttributeTypeByte
  then show ?thesis using assms
    by (auto simp: read_value_def buffer_byte_cases elim!: rd_bind_SomeD)
next
  case AttributeTypeUlong
  then show ?thesis using assms
    by (auto simp: read_value_def buffer_uint64_cases elim!: rd_bind_SomeD)
next
  case AttributeTypeDate
  then obtain d where "a = date_attribute ty d" "buffer_date b = (Some d, b')"
    using assms by (auto simp: read_value_def elim!: rd_bind_SomeD)
  then show ?thesis
    using AttributeTypeDate buffer_date_SomeD [of b d b'] date_reads.consumes [of b d b']
    by auto
next
  case AttributeTypeByteArray
  then obtain v where a: "a = bytes_attribute ty v" and v: "buffer_byteArray b = (Some v, b')"
    using assms by (auto simp: read_value_def elim!: rd_bind_SomeD)
  then show ?thesis using AttributeTypeByteArray byteArray_reads.consumes [OF v]
    by auto
qed (use assms in \<open>simp_all add: read_value_def\<close>)

lemma buffer_attribute_SomeD:
  assumes "buffer_attribute b = (Some a, b')"
  shows "typed_attribute a \<and> (\<exists>p. b = p @ b' \<and> 5 \<le> length p)"
proof -
  from assms obtain ty b1 w b2 where one: "buffer_uint32 b = (Some ty, b1)"
      and two: "buffer_byte b1 = (Some w, b2)"
      and three: "(if w = 0 then rd_return (empty_attribute ty)
          else rd_bind buffer_uint32 (\<lambda>length. read_value ty)) b2 = (Some a, b')"
    by (auto simp: buffer_attribute_def elim!: rd_bind_SomeD)
  have b: "b = (putUint32 ty @ [w]) @ b2"
    using one two by (simp add: buffer_uint32_cases buffer_byte_cases)
  have "typed_attribute a \<and> (\<exists>p. b2 = p @ b')"
  proof (cases "w = 0")
    case True
    then show ?thesis using three by auto
  next
    case False
    then obtain n b3 where "buffer_uint32 b2 = (Some n, b3)" "read_value ty b3 = (Some a, b')"
      using three by (auto elim!: rd_bind_SomeD)
    then show ?thesis using read_value_SomeD [of ty b3 a b']
      by (auto simp: buffer_uint32_cases)
  qed
  then obtain p where "typed_attribute a" "b2 = p @ b'" by blast
  then show ?thesis using b by (intro conjI exI [of _ "(putUint32 ty @ [w]) @ p"]) auto
qed

interpretation attribute_codec: codec "addAttribute []" buffer_attribute wire_attribute
  by unfold_locales (rule buffer_attribute_addAttribute)

interpretation attribute_reads: consuming buffer_attribute 5
  by unfold_locales (use buffer_attribute_SomeD in blast)

interpretation template_reads: consuming buffer_attributeTemplate 8
  by unfold_locales
    (auto simp: buffer_attributeTemplate_def buffer_uint32_cases elim!: rd_bind_SomeD)

end
