(* ===== verification/Mechanism.thy ===== *)
theory Mechanism
  imports Attribute
begin

text \<open>
  Mechanisms: the \<^verbatim>\<open>ckm\<close>, \<^verbatim>\<open>ckg\<close> and \<^verbatim>\<open>ckd\<close> constants, \<^verbatim>\<open>mechanism\<close> and its two
  parameter structs of \<^verbatim>\<open>p11kit/attribute.go\<close>, and their encoding as
  \<^verbatim>\<open>readMechanism\<close> of \<^verbatim>\<open>p11kit/rpc.go\<close> reads it.
\<close>

section \<open>Constants\<close>

abbreviation ckmRSAKeyPairGen :: uint32 where "ckmRSAKeyPairGen \<equiv> 0x00000000"
abbreviation ckmRSAPKCS :: uint32 where "ckmRSAPKCS \<equiv> 0x00000001"
abbreviation ckmRSAPKCSPSS :: uint32 where "ckmRSAPKCSPSS \<equiv> 0x0000000D"
abbreviation ckmECKeyPairGen :: uint32 where "ckmECKeyPairGen \<equiv> 0x00001040"
abbreviation ckmECDSA :: uint32 where "ckmECDSA \<equiv> 0x00001041"
abbreviation ckmECDH1Derive :: uint32 where "ckmECDH1Derive \<equiv> 0x00001050"
abbreviation ckmSHA256 :: uint64 where "ckmSHA256 \<equiv> 0x00000250"
abbreviation ckmSHA384 :: uint64 where "ckmSHA384 \<equiv> 0x00000260"
abbreviation ckmSHA512 :: uint64 where "ckmSHA512 \<equiv> 0x00000270"

abbreviation ckgMGF1SHA256 :: uint64 where "ckgMGF1SHA256 \<equiv> 0x00000002"
abbreviation ckgMGF1SHA384 :: uint64 where "ckgMGF1SHA384 \<equiv> 0x00000003"
abbreviation ckgMGF1SHA512 :: uint64 where "ckgMGF1SHA512 \<equiv> 0x00000004"

abbreviation ckdNull :: uint64 where "ckdNull \<equiv> 0x00000001"
abbreviation ckdSHA224KDF :: uint64 where "ckdSHA224KDF \<equiv> 0x00000005"
abbreviation ckdSHA256KDF :: uint64 where "ckdSHA256KDF \<equiv> 0x00000006"
abbreviation ckdSHA384KDF :: uint64 where "ckdSHA384KDF \<equiv> 0x00000007"
abbreviation ckdSHA512KDF :: uint64 where "ckdSHA512KDF \<equiv> 0x00000008"

section \<open>Mechanisms and their parameters\<close>

record rsaPKCSPSSParams =
  hashAlg :: uint64
  mgf :: uint64
  saltLen :: uint64

text \<open>Of \<^verbatim>\<open>sharedData\<close> and \<^verbatim>\<open>publicData\<close> the code reads only length and contents, so nil is empty.\<close>

record ecdh1DeriveParams =
  kdf :: uint64
  sharedData :: bytes
  publicData :: bytes

text \<open>The dynamic types that \<^verbatim>\<open>params interface\<close> can have; \<open>ParamsNil\<close> is the nil interface.\<close>

datatype params = ParamsNil | ParamsBytes bytes | ParamsPSS rsaPKCSPSSParams
  | ParamsECDH1 ecdh1DeriveParams

record mechanism =
  m_typ :: uint32
  m_params :: params

definition zero_mechanism :: mechanism where
  "zero_mechanism = \<lparr>m_typ = 0, m_params = ParamsNil\<rparr>"

definition noParams :: "mechanism \<Rightarrow> bool" where
  "noParams m = (case m_params m of ParamsBytes b \<Rightarrow> length b = 0 | _ \<Rightarrow> False)"

definition mechanismToString :: "(uint32 \<times> string) list" where
  "mechanismToString =
    [(ckmRSAKeyPairGen, ''CKM_RSA_PKCS_KEY_PAIR_GEN''),
     (ckmRSAPKCS, ''CKM_RSA_PKCS''),
     (ckmRSAPKCSPSS, ''CKM_RSA_PKCS_PSS''),
     (ckmECKeyPairGen, ''CKM_EC_KEY_PAIR_GEN''),
     (ckmECDSA, ''CKM_ECDSA''),
     (ckmECDH1Derive, ''CKM_ECDH1_DERIVE'')]"

definition mechanism_String :: "mechanism \<Rightarrow> string" where
  "mechanism_String m =
     (case map_of mechanismToString (m_typ m) of
        Some s \<Rightarrow> s
      | None \<Rightarrow> ''CK_MECHANISM_TYPE(0x'' @ zero_pad 8 (hex (unat (m_typ m))) @ '')'')"

section \<open>Reading a mechanism\<close>

definition mechanismHasNoParameters :: "uint32 \<Rightarrow> bool" where
  "mechanismHasNoParameters typ \<longleftrightarrow>
     typ \<in> {ckmRSAKeyPairGen, ckmECKeyPairGen, ckmRSAPKCS, ckmECDSA, 0xffffffff}"

text \<open>A nil slice where only length and contents are read.\<close>

definition slice :: "bytes option \<Rightarrow> bytes" where
  "slice v = (case v of None \<Rightarrow> [] | Some b \<Rightarrow> b)"

definition read_params :: "uint32 \<Rightarrow> params reader" where
  "read_params typ =
     (if typ = ckmRSAPKCSPSS then
        rd_bind buffer_uint64 (\<lambda>h. rd_bind buffer_uint64 (\<lambda>g. rd_bind buffer_uint64 (\<lambda>s.
          rd_return (ParamsPSS \<lparr>hashAlg = h, mgf = g, saltLen = s\<rparr>))))
      else if typ = ckmECDH1Derive then
        rd_bind buffer_uint64 (\<lambda>k. rd_bind buffer_byteArray (\<lambda>s. rd_bind buffer_byteArray (\<lambda>p.
          rd_return (ParamsECDH1 \<lparr>kdf = k, sharedData = slice s, publicData = slice p\<rparr>))))
      else rd_bind buffer_byteArray (\<lambda>p. rd_return (ParamsBytes (slice p))))"

definition buffer_mechanism :: "mechanism reader" where
  "buffer_mechanism = rd_bind buffer_uint32 (\<lambda>typ b.
     if mechanismHasNoParameters typ then
       (let b = (if peekUint32 b 0xffffffff then snd (buffer_uint32 b) else b)
        in (Some \<lparr>m_typ = typ, m_params = ParamsBytes []\<rparr>, b))
     else rd_bind buffer_byte (\<lambda>hasParam.
       if hasParam = 0 then rd_return \<lparr>m_typ = typ, m_params = ParamsBytes []\<rparr>
       else rd_bind (read_params typ) (\<lambda>p. rd_return \<lparr>m_typ = typ, m_params = p\<rparr>)) b)"

text \<open>
  The two encodings of a mechanism without parameters that p11-kit clients send:
  since 0.26 the type alone, before with a null marker behind it. And the encoding
  of one with parameters.
\<close>

definition enc_mechanism_plain :: "uint32 \<Rightarrow> bytes" where
  "enc_mechanism_plain typ = addUint32 [] typ"

definition enc_mechanism_marked :: "uint32 \<Rightarrow> bytes" where
  "enc_mechanism_marked typ = addUint32 (addUint32 [] typ) 0xffffffff"

definition enc_params :: "params \<Rightarrow> bytes" where
  "enc_params p = (case p of
      ParamsPSS r \<Rightarrow> addUint64 (addUint64 (addUint64 [] (hashAlg r)) (mgf r)) (saltLen r)
    | ParamsECDH1 r \<Rightarrow>
        addByteArray (addByteArray (addUint64 [] (kdf r)) (sharedData r)) (publicData r)
    | ParamsBytes b \<Rightarrow> addByteArray [] b
    | ParamsNil \<Rightarrow> [])"

definition enc_mechanism_params :: "mechanism \<Rightarrow> bytes" where
  "enc_mechanism_params m = addByte (addUint32 [] (m_typ m)) 1 @ enc_params (m_params m)"

definition params_match :: "mechanism \<Rightarrow> bool" where
  "params_match m \<longleftrightarrow> \<not> mechanismHasNoParameters (m_typ m) \<and>
     (case m_params m of
        ParamsPSS _ \<Rightarrow> m_typ m = ckmRSAPKCSPSS
      | ParamsECDH1 r \<Rightarrow> m_typ m = ckmECDH1Derive \<and>
          length (sharedData r) < 0xffffffff \<and> length (publicData r) < 0xffffffff
      | ParamsBytes b \<Rightarrow> m_typ m \<noteq> ckmRSAPKCSPSS \<and> m_typ m \<noteq> ckmECDH1Derive \<and>
          length b < 0xffffffff
      | ParamsNil \<Rightarrow> False)"

lemma slice_Some [simp]: "slice (Some b) = b" "slice None = []"
  by (simp_all add: slice_def)

lemma peekUint32_put [simp]: "peekUint32 (putUint32 n @ rest) m \<longleftrightarrow> n = m"
  by (simp add: peekUint32_def)

lemma buffer_mechanism_marked [codec_simps]:
  "mechanismHasNoParameters typ \<Longrightarrow>
     buffer_mechanism (enc_mechanism_marked typ @ rest) =
       (Some \<lparr>m_typ = typ, m_params = ParamsBytes []\<rparr>, rest)"
  by (simp add: buffer_mechanism_def enc_mechanism_marked_def addUint32_def codec_simps)

lemma buffer_mechanism_plain [codec_simps]:
  "mechanismHasNoParameters typ \<Longrightarrow> \<not> peekUint32 rest 0xffffffff \<Longrightarrow>
     buffer_mechanism (enc_mechanism_plain typ @ rest) =
       (Some \<lparr>m_typ = typ, m_params = ParamsBytes []\<rparr>, rest)"
  by (simp add: buffer_mechanism_def enc_mechanism_plain_def addUint32_def codec_simps)

text \<open>
  The two encodings cannot be told apart when what follows the type alone starts
  with the marker's four bytes: they are then swallowed.
\<close>

lemma buffer_mechanism_swallows:
  "mechanismHasNoParameters typ \<Longrightarrow>
     buffer_mechanism (enc_mechanism_plain typ @ putUint32 0xffffffff @ rest) =
       (Some \<lparr>m_typ = typ, m_params = ParamsBytes []\<rparr>, rest)"
  by (simp add: buffer_mechanism_def enc_mechanism_plain_def addUint32_def codec_simps)

lemma read_params_enc [codec_simps]:
  assumes "params_match m"
  shows "read_params (m_typ m) (enc_params (m_params m) @ rest) = (Some (m_params m), rest)"
proof (cases "m_params m")
  case (ParamsECDH1 r)
  then have "enc_params (m_params m) =
      putUint64 (kdf r) @ addByteArray [] (sharedData r) @ addByteArray [] (publicData r)"
    by (simp add: enc_params_def addUint64_def)
      (metis addByteArray_append append_assoc)
  then show ?thesis using assms ParamsECDH1
    by (simp add: read_params_def params_match_def codec_simps)
qed (use assms in \<open>auto simp: read_params_def params_match_def enc_params_def addUint64_def
      codec_simps\<close>)

lemma buffer_mechanism_params [codec_simps]:
  "params_match m \<Longrightarrow> buffer_mechanism (enc_mechanism_params m @ rest) = (Some m, rest)"
  by (simp add: buffer_mechanism_def enc_mechanism_params_def addUint32_def addByte_def
      codec_simps) (simp add: params_match_def)

interpretation mechanism_codec: codec enc_mechanism_params buffer_mechanism params_match
  by unfold_locales (rule buffer_mechanism_params)

interpretation marked_codec:
  codec "\<lambda>m. enc_mechanism_marked (m_typ m)" buffer_mechanism
    "\<lambda>m. mechanismHasNoParameters (m_typ m) \<and> m_params m = ParamsBytes []"
  by unfold_locales (simp add: codec_simps)

end
