(* ===== verification/Asn1.thy ===== *)
theory Asn1
  imports Buffer
begin

text \<open>
  The parts of \<^verbatim>\<open>math/big\<close> and \<^verbatim>\<open>encoding/asn1\<close> that \<^verbatim>\<open>p11kit/attribute.go\<close> uses:
  big-endian bytes of a natural number (\<^verbatim>\<open>Bytes\<close>, \<^verbatim>\<open>SetBytes\<close>, \<^verbatim>\<open>FillBytes\<close>,
  \<^verbatim>\<open>BitLen\<close>, \<^verbatim>\<open>Int64\<close>), and DER for integers, octet strings, object identifiers and
  a sequence of two integers.
\<close>

section \<open>Big-endian numbers\<close>

fun bigBytes :: "nat \<Rightarrow> bytes" where
  "bigBytes n = (if n = 0 then [] else bigBytes (n div 256) @ [of_nat (n mod 256)])"

declare bigBytes.simps [simp del]

definition setBytes :: "bytes \<Rightarrow> nat" where
  "setBytes b = foldl (\<lambda>n c. 256 * n + unat c) 0 b"

fun bitLen :: "nat \<Rightarrow> nat" where
  "bitLen n = (if n = 0 then 0 else Suc (bitLen (n div 2)))"

declare bitLen.simps [simp del]

text \<open>\<^verbatim>\<open>FillBytes\<close> panics when the number does not fit.\<close>

definition fillBytes :: "nat \<Rightarrow> nat \<Rightarrow> bytes option" where
  "fillBytes n len =
     (if length (bigBytes n) \<le> len
      then Some (replicate (len - length (bigBytes n)) 0 @ bigBytes n) else None)"

text \<open>\<^verbatim>\<open>Int64\<close> of a non-negative number: its low 64 bits, as a signed integer.\<close>

definition big_Int64 :: "nat \<Rightarrow> int" where
  "big_Int64 n = sint (of_nat n :: uint64)"

lemma bigBytes_0 [simp]: "bigBytes 0 = []"
  by (simp add: bigBytes.simps)

lemma setBytes_append: "setBytes (b @ [x]) = 256 * setBytes b + unat x"
  by (simp add: setBytes_def)

lemma setBytes_Nil [simp]: "setBytes [] = 0"
  by (simp add: setBytes_def)

lemma unat_mod_256 [simp]: "unat (of_nat (n mod 256) :: byte) = n mod 256"
  by (simp add: unat_of_nat take_bit_nat_eq_self_iff)

lemma setBytes_bigBytes [simp]: "setBytes (bigBytes n) = n"
proof (induction n rule: less_induct)
  case (less n)
  show ?case
  proof (cases "n = 0")
    case False
    then have "setBytes (bigBytes n) = 256 * (n div 256) + n mod 256"
      using less.IH [of "n div 256"] by (simp add: bigBytes.simps [of n] setBytes_append)
    then show ?thesis by simp
  qed simp
qed

lemma setBytes_zeros: "setBytes (replicate k 0 @ b) = setBytes b"
proof -
  have "foldl (\<lambda>n c. 256 * n + unat c) 0 (replicate k (0 :: byte)) = 0" by (induction k) simp_all
  then show ?thesis by (simp add: setBytes_def)
qed

lemma bigBytes_bound: "n < 256 ^ length (bigBytes n)"
proof (induction n rule: less_induct)
  case (less n)
  show ?case
  proof (cases "n = 0")
    case False
    then have "n div 256 < 256 ^ length (bigBytes (n div 256))" by (intro less.IH) simp
    then have "n < 256 * 256 ^ length (bigBytes (n div 256))" by simp
    then show ?thesis using False by (simp add: bigBytes.simps [of n])
  qed simp
qed

lemma bigBytes_length_le: "length (bigBytes n) \<le> k \<longleftrightarrow> n < 256 ^ k"
proof
  assume "length (bigBytes n) \<le> k"
  then have "(256 :: nat) ^ length (bigBytes n) \<le> 256 ^ k" by (simp add: power_increasing)
  then show "n < 256 ^ k" using bigBytes_bound [of n] by linarith
next
  show "n < 256 ^ k \<Longrightarrow> length (bigBytes n) \<le> k"
  proof (induction k arbitrary: n)
    case (Suc k)
    then have "n div 256 < 256 ^ k" by (simp add: less_mult_imp_div_less mult.commute)
    then have "length (bigBytes (n div 256)) \<le> k" by (rule Suc.IH)
    then show ?case by (simp add: bigBytes.simps [of n])
  qed simp
qed

lemma bitLen_le: "bitLen n \<le> k \<longleftrightarrow> n < 2 ^ k"
proof (induction k arbitrary: n)
  case 0
  then show ?case by (simp add: bitLen.simps [of n])
next
  case (Suc k)
  have "bitLen n \<le> Suc k \<longleftrightarrow> n = 0 \<or> bitLen (n div 2) \<le> k" by (simp add: bitLen.simps [of n])
  also have "\<dots> \<longleftrightarrow> n = 0 \<or> n div 2 < 2 ^ k" by (simp add: Suc.IH)
  also have "\<dots> \<longleftrightarrow> n < 2 ^ Suc k" by auto
  finally show ?case .
qed

lemma fillBytes_Some_iff: "fillBytes n len \<noteq> None \<longleftrightarrow> n < 256 ^ len"
  using bigBytes_length_le [of n len] by (auto simp: fillBytes_def)

lemma fillBytes_bitLen: "bitLen n \<le> 8 * len \<Longrightarrow> fillBytes n len \<noteq> None"
  unfolding fillBytes_Some_iff by (simp add: bitLen_le power_mult)

lemma fillBytes_SomeD: "fillBytes n len = Some b \<Longrightarrow> length b = len \<and> setBytes b = n"
  by (auto simp: fillBytes_def setBytes_zeros split: if_splits)

lemma bigBytes_nonzero_head: "n \<noteq> 0 \<Longrightarrow> bigBytes n \<noteq> [] \<and> hd (bigBytes n) \<noteq> 0"
proof (induction n rule: less_induct)
  case (less n)
  show ?case
  proof (cases "n div 256 = 0")
    case True
    then have "n < 256" by (simp add: div_eq_0_iff)
    then have "unat (of_nat n :: byte) = n" by (simp add: unat_of_nat take_bit_nat_eq_self_iff)
    then have "(of_nat n :: byte) \<noteq> 0" using less.prems by auto
    then show ?thesis using less.prems True \<open>n < 256\<close> by (simp add: bigBytes.simps [of n])
  next
    case False
    then show ?thesis using less.IH [of "n div 256"] by (simp add: bigBytes.simps [of n])
  qed
qed

section \<open>DER encoding\<close>

definition der_length :: "nat \<Rightarrow> bytes" where
  "der_length n =
     (if n < 128 then [of_nat n]
      else of_nat (128 + length (bigBytes n)) # bigBytes n)"

definition der_tlv :: "byte \<Rightarrow> bytes \<Rightarrow> bytes" where
  "der_tlv tag content = tag # der_length (length content) @ content"

text \<open>\<^verbatim>\<open>asn1.Marshal\<close> of a \<^verbatim>\<open>[]byte\<close> and of a \<^verbatim>\<open>*big.Int\<close>.\<close>

definition marshalOctets :: "bytes \<Rightarrow> bytes" where
  "marshalOctets b = der_tlv 0x04 b"

definition int_content :: "int \<Rightarrow> bytes" where
  "int_content i =
     (if i < 0 then
        (let b = map (\<lambda>x. NOT x) (bigBytes (nat (- i - 1)))
         in if b = [] \<or> \<not> bit (hd b) 7 then 0xff # b else b)
      else if i = 0 then [0]
      else (let b = bigBytes (nat i) in if bit (hd b) 7 then 0 # b else b))"

definition marshalInt :: "int \<Rightarrow> bytes" where
  "marshalInt i = der_tlv 0x02 (int_content i)"

text \<open>Object identifiers: the first two arcs share a base-128 number.\<close>

fun base128_high :: "nat \<Rightarrow> bytes" where
  "base128_high n = (if n = 0 then [] else base128_high (n div 128) @ [of_nat (128 + n mod 128)])"

declare base128_high.simps [simp del]

definition base128 :: "nat \<Rightarrow> bytes" where
  "base128 n = base128_high (n div 128) @ [of_nat (n mod 128)]"

fun oid_content :: "nat list \<Rightarrow> bytes option" where
  "oid_content (a # b # rest) =
     (if a > 2 \<or> (a < 2 \<and> b \<ge> 40) then None
      else Some (base128 (a * 40 + b) @ concat (map base128 rest)))"
| "oid_content _ = None"

definition marshalOID :: "nat list \<Rightarrow> bytes option" where
  "marshalOID oid = map_option (der_tlv 0x06) (oid_content oid)"

section \<open>DER decoding\<close>

text \<open>
  \<^verbatim>\<open>parseTagAndLength\<close>: the identifier octet, the content and what follows it. A
  multi-byte tag fails here: it is either not minimal or not a tag the callers want.
\<close>

fun parse_length_bytes :: "nat \<Rightarrow> nat \<Rightarrow> bytes \<Rightarrow> (nat \<times> bytes) option" where
  "parse_length_bytes 0 len b = Some (len, b)"
| "parse_length_bytes (Suc k) len [] = None"
| "parse_length_bytes (Suc k) len (x # b) =
     (if len \<ge> 2 ^ 23 then None
      else let len = 256 * len + unat x
           in if len = 0 then None else parse_length_bytes k len b)"

definition parse_length :: "bytes \<Rightarrow> (nat \<times> bytes) option" where
  "parse_length b =
     (case b of
        [] \<Rightarrow> None
      | x # b \<Rightarrow>
          if \<not> bit x 7 then Some (unat (x AND 0x7f), b)
          else if x AND 0x7f = 0 then None
          else (case parse_length_bytes (unat (x AND 0x7f)) 0 b of
                  None \<Rightarrow> None
                | Some (len, b) \<Rightarrow> if len < 0x80 then None else Some (len, b)))"

definition parse_tlv :: "bytes \<Rightarrow> (byte \<times> bytes \<times> bytes) option" where
  "parse_tlv b =
     (case b of
        [] \<Rightarrow> None
      | tag # b \<Rightarrow>
          if tag AND 0x1f = 0x1f then None
          else (case parse_length b of
                  None \<Rightarrow> None
                | Some (len, b) \<Rightarrow>
                    if length b < len then None else Some (tag, take len b, drop len b)))"

text \<open>\<^verbatim>\<open>parseBase128Int\<close>: at most five octets, no leading 0x80, at most \<open>MaxInt32\<close>.\<close>

fun parse_base128 :: "nat \<Rightarrow> nat \<Rightarrow> bytes \<Rightarrow> (nat \<times> bytes) option" where
  "parse_base128 shifted acc [] = None"
| "parse_base128 shifted acc (x # b) =
     (if shifted = 5 \<or> (shifted = 0 \<and> x = 0x80) then None
      else let acc = 128 * acc + unat (x AND 0x7f)
           in if bit x 7 then parse_base128 (Suc shifted) acc b
              else if acc > 0x7fffffff then None else Some (acc, b))"

lemma parse_base128_shorter: "parse_base128 k acc b = Some (n, b') \<Longrightarrow> length b' < length b"
  by (induction k acc b rule: parse_base128.induct) (fastforce simp: Let_def split: if_splits)+

function parse_arcs :: "bytes \<Rightarrow> nat list option" where
  "parse_arcs b =
     (if b = [] then Some []
      else (case parse_base128 0 0 b of
              None \<Rightarrow> None
            | Some (n, b') \<Rightarrow> map_option (\<lambda>ns. n # ns) (parse_arcs b')))"
  by pat_completeness auto
termination
  by (relation "measure length") (auto dest: parse_base128_shorter)

declare parse_arcs.simps [simp del]

definition parse_oid :: "bytes \<Rightarrow> nat list option" where
  "parse_oid b =
     (case parse_arcs b of
        Some (v # arcs) \<Rightarrow> Some (if v < 80 then v div 40 # v mod 40 # arcs else 2 # (v - 80) # arcs)
      | _ \<Rightarrow> None)"

text \<open>\<^verbatim>\<open>asn1.Unmarshal(params, &oid)\<close>; what follows the identifier is ignored, as in the code.\<close>

definition unmarshalOID :: "bytes \<Rightarrow> nat list option" where
  "unmarshalOID b =
     (case parse_tlv b of
        Some (tag, content, _) \<Rightarrow> if tag = 0x06 then parse_oid content else None
      | None \<Rightarrow> None)"

definition parse_int :: "bytes \<Rightarrow> int option" where
  "parse_int b =
     (case b of
        [] \<Rightarrow> None
      | [x] \<Rightarrow> Some (sint x)
      | x # y # _ \<Rightarrow>
          if (x = 0 \<and> \<not> bit y 7) \<or> (x = 0xff \<and> bit y 7) then None
          else if bit x 7 then Some (- int (setBytes (map (\<lambda>x. NOT x) b) + 1))
          else Some (int (setBytes b)))"

definition unmarshal_int_field :: "bytes \<Rightarrow> (int \<times> bytes) option" where
  "unmarshal_int_field b =
     (case parse_tlv b of
        Some (tag, content, rest) \<Rightarrow>
          if tag = 0x02 then map_option (\<lambda>i. (i, rest)) (parse_int content) else None
      | None \<Rightarrow> None)"

text \<open>\<^verbatim>\<open>asn1.Unmarshal(sig, &struct{R, S})\<close>; extra elements of the sequence are ignored.\<close>

definition unmarshalSig :: "bytes \<Rightarrow> (int \<times> int) option" where
  "unmarshalSig b =
     (case parse_tlv b of
        Some (tag, content, _) \<Rightarrow>
          if tag = 0x30 then
            (case unmarshal_int_field content of
               None \<Rightarrow> None
             | Some (r, rest) \<Rightarrow> map_option (\<lambda>(s, _). (r, s)) (unmarshal_int_field rest))
          else None
      | None \<Rightarrow> None)"

section \<open>DER round trips\<close>

lemma setBytes_from:
  fixes b :: bytes
  shows "foldl (\<lambda>n c. 256 * n + unat c) acc b = acc * 256 ^ length b + setBytes b"
proof (induction b arbitrary: acc)
  case (Cons x b)
  have "setBytes (x # b) = unat x * 256 ^ length b + setBytes b"
    unfolding setBytes_def [of "x # b"] by (simp only: foldl_Cons Cons.IH) simp
  then show ?case by (simp only: foldl_Cons Cons.IH) (simp add: algebra_simps)
qed simp

lemma setBytes_Cons: "setBytes (x # b) = unat x * 256 ^ length b + setBytes b"
  using setBytes_from [of "unat x" b] by (simp add: setBytes_def)

lemma setBytes_bound: "setBytes b < 256 ^ length b"
proof (induction b)
  case (Cons x b)
  let ?p = "256 ^ length b :: nat"
  have "unat x < 256" using unsigned_less [of x] by simp
  then have "(unat x + 1) * ?p \<le> 256 * ?p" by (intro mult_right_mono) simp_all
  moreover have "setBytes (x # b) < (unat x + 1) * ?p" using Cons.IH by (simp add: setBytes_Cons)
  ultimately have "setBytes (x # b) < 256 * ?p" by linarith
  then show ?case by simp
qed simp

lemma parse_length_bytes_ok:
  assumes "acc * 256 ^ length b + setBytes b < 2 ^ 31" and "b \<noteq> [] \<Longrightarrow> acc \<noteq> 0 \<or> hd b \<noteq> 0"
  shows "parse_length_bytes (length b) acc (b @ rest) =
    Some (acc * 256 ^ length b + setBytes b, rest)"
  using assms
proof (induction b arbitrary: acc)
  case (Cons x b)
  let ?acc = "256 * acc + unat x"
  have shift: "acc * 256 ^ length (x # b) + setBytes (x # b) = ?acc * 256 ^ length b + setBytes b"
    by (simp add: setBytes_Cons algebra_simps)
  have "256 * acc \<le> ?acc * 256 ^ length b" using one_le_power [of "256 :: nat" "length b"]
    by (metis add_leD1 le_add1 mult.right_neutral mult_le_mono order_refl power_increasing_iff
        le_trans numeral_le_one_iff one_le_numeral)
  then have "256 * acc < 2 ^ 31" using Cons.prems(1) shift by linarith
  then have small: "acc < 2 ^ 23" by simp
  have pos: "?acc \<noteq> 0" using Cons.prems(2) by (auto simp: unat_eq_0)
  have "parse_length_bytes (length b) ?acc (b @ rest) = Some (?acc * 256 ^ length b + setBytes b, rest)"
    by (rule Cons.IH) (use Cons.prems(1) shift pos in auto)
  then show ?case using small pos shift by (simp add: Let_def)
qed simp

lemma parse_length_der_length:
  assumes "n < 2 ^ 31"
  shows "parse_length (der_length n @ rest) = Some (n, rest)"
proof (cases "n < 128")
  case True
  then have u: "unat (of_nat n :: byte) = n" by (simp add: unat_of_nat take_bit_nat_eq_self_iff)
  have "take_bit 7 n = n" using True by (simp add: take_bit_nat_eq_self_iff)
  then have "take_bit 7 (of_nat n :: byte) = of_nat n" by (metis take_bit_of_nat)
  then have low: "(of_nat n :: byte) AND 0x7f = of_nat n"
    by (simp add: take_bit_eq_mask mask_eq_exp_minus_1)
  have "\<not> bit (of_nat n AND 0x7f :: byte) 7" by (simp add: bit_and_iff)
  then have "\<not> bit (of_nat n :: byte) 7" by (simp only: low) simp
  then show ?thesis using True u low by (simp add: der_length_def parse_length_def)
next
  case False
  let ?b = "bigBytes n" and ?k = "length (bigBytes n)"
  have "?k \<le> 4" using assms by (simp add: bigBytes_length_le)
  moreover have "?b \<noteq> []" and hd: "hd ?b \<noteq> 0" using bigBytes_nonzero_head [of n] False by auto
  moreover have "?k \<noteq> 0" using \<open>?b \<noteq> []\<close> by simp
  ultimately have k: "?k = 1 \<or> ?k = 2 \<or> ?k = 3 \<or> ?k = 4" by linarith
  have "parse_length_bytes ?k 0 (?b @ rest) = Some (n, rest)"
    using parse_length_bytes_ok [of 0 ?b rest] assms hd by simp
  then show ?thesis using k False by (auto simp: der_length_def parse_length_def)
qed

lemma parse_tlv_der_tlv:
  assumes "length c < 2 ^ 31" and "tag AND 0x1f \<noteq> 0x1f"
  shows "parse_tlv (der_tlv tag c @ rest) = Some (tag, c, rest)"
proof -
  have "der_tlv tag c @ rest = tag # der_length (length c) @ (c @ rest)" by (simp add: der_tlv_def)
  then show ?thesis using assms parse_length_der_length [of "length c" "c @ rest"]
    by (simp add: parse_tlv_def)
qed

lemma sint_non_negative: "\<not> bit x 7 \<Longrightarrow> sint x = uint x" for x :: byte
  by (rule bit_eqI) (auto simp: bit_sint_iff bit_uint_iff not_less le_less_Suc_eq
      dest: bit_imp_le_length)

lemma parse_int_content:
  assumes "0 \<le> i"
  shows "parse_int (int_content i) = Some i"
proof (cases "i = 0")
  case True
  then show ?thesis by (simp add: int_content_def parse_int_def)
next
  case False
  let ?b = "bigBytes (nat i)"
  have i: "int (setBytes ?b) = i" using assms by simp
  obtain x b where b: "?b = x # b" "x \<noteq> 0"
    using bigBytes_nonzero_head [of "nat i"] False assms by (cases ?b) auto
  show ?thesis
  proof (cases "bit x 7")
    case True
    have "setBytes (0 # ?b) = setBytes ?b" using setBytes_zeros [of 1 ?b] by simp
    then show ?thesis using True False assms b i by (simp add: int_content_def parse_int_def)
  next
    case high: False
    show ?thesis
    proof (cases b)
      case Nil
      have "sint x = uint x" using high by (rule sint_non_negative)
      moreover have "uint x = i" using i by (simp add: b Nil setBytes_def)
      ultimately show ?thesis using Nil high False assms b
        by (simp add: int_content_def parse_int_def)
    next
      case (Cons y c)
      have "x \<noteq> 0xff" using high by auto
      then show ?thesis using Cons high False assms b i
        by (simp add: int_content_def parse_int_def)
    qed
  qed
qed

lemma unmarshal_int_field_marshalInt:
  assumes "0 \<le> i" and "length (int_content i) < 2 ^ 31"
  shows "unmarshal_int_field (marshalInt i @ rest) = Some (i, rest)"
  using assms by (simp add: unmarshal_int_field_def marshalInt_def parse_tlv_der_tlv
      parse_int_content)

text \<open>The DER encoding of a signature, as \<^verbatim>\<open>ecdsa\<close> produces it, decodes to its two integers.\<close>

definition marshalSig :: "int \<Rightarrow> int \<Rightarrow> bytes" where
  "marshalSig r s = der_tlv 0x30 (marshalInt r @ marshalInt s)"

lemma unmarshalSig_marshalSig:
  assumes "0 \<le> r" "0 \<le> s" and "length (marshalInt r @ marshalInt s) < 2 ^ 31"
  shows "unmarshalSig (marshalSig r s) = Some (r, s)"
proof -
  have len: "length (int_content r) < 2 ^ 31" "length (int_content s) < 2 ^ 31"
    using assms(3) by (simp_all add: marshalInt_def der_tlv_def)
  have "parse_tlv (marshalSig r s) = Some (0x30, marshalInt r @ marshalInt s, [])"
    using parse_tlv_der_tlv [of "marshalInt r @ marshalInt s" "0x30" "[]"] assms(3)
    by (simp add: marshalSig_def)
  moreover have "unmarshal_int_field (marshalInt r @ marshalInt s) = Some (r, marshalInt s)"
    using assms len by (simp add: unmarshal_int_field_marshalInt)
  moreover have "unmarshal_int_field (marshalInt s) = Some (s, [])"
    using assms len unmarshal_int_field_marshalInt [of s "[]"] by simp
  ultimately show ?thesis by (simp add: unmarshalSig_def)
qed

text \<open>Object identifiers: base-128 digits, high bit set on all but the last.\<close>

abbreviation base128_value :: "nat \<Rightarrow> nat list \<Rightarrow> nat" where
  "base128_value \<equiv> foldl (\<lambda>a d. 128 * a + d)"

lemma base128_high_digits:
  "\<exists>ds. base128_high n = map (\<lambda>d. of_nat (128 + d)) ds \<and> base128_value 0 ds = n \<and>
     (\<forall>d \<in> set ds. d < 128) \<and> (ds \<noteq> [] \<longrightarrow> hd ds \<noteq> 0) \<and> (\<forall>k. n < 128 ^ k \<longrightarrow> length ds \<le> k)"
proof (induction n rule: less_induct)
  case (less n)
  show ?case
  proof (cases "n = 0")
    case True
    then show ?thesis by (intro exI [of _ "[]"]) (simp add: base128_high.simps)
  next
    case False
    then obtain ds where ds: "base128_high (n div 128) = map (\<lambda>d. of_nat (128 + d)) ds"
      "base128_value 0 ds = n div 128" "\<forall>d \<in> set ds. d < 128" "ds \<noteq> [] \<longrightarrow> hd ds \<noteq> 0"
      "\<forall>k. n div 128 < 128 ^ k \<longrightarrow> length ds \<le> k"
      using less.IH [of "n div 128"] by auto
    have "length (ds @ [n mod 128]) \<le> k" if "n < 128 ^ k" for k
    proof (cases k)
      case 0
      then show ?thesis using that False by simp
    next
      case (Suc j)
      then have "n div 128 < 128 ^ j"
        using that by (simp add: less_mult_imp_div_less mult.commute)
      then show ?thesis using ds(5) Suc by simp
    qed
    moreover have "hd (ds @ [n mod 128]) \<noteq> 0"
    proof (cases ds)
      case Nil
      then have "n div 128 = 0" using ds(2) by simp
      then show ?thesis using Nil False by simp
    qed (use ds(4) in simp)
    ultimately show ?thesis using ds False
      by (intro exI [of _ "ds @ [n mod 128]"]) (simp add: base128_high.simps [of n])
  qed
qed

lemma octet_bits:
  fixes x :: byte
  shows "bit x 7 \<longleftrightarrow> odd (unat x div 128)" and "unat (x AND 0x7f) = unat x mod 128"
proof -
  have "bit x 7 = bit (unat x) 7" by (simp add: bit_unsigned_iff)
  then show "bit x 7 \<longleftrightarrow> odd (unat x div 128)" by (simp add: bit_iff_odd)
  have "unat (x AND 0x7f) = unat x AND mask 7" by (simp add: unsigned_and_eq mask_eq_exp_minus_1)
  then show "unat (x AND 0x7f) = unat x mod 128" by (simp add: take_bit_eq_mask [symmetric] take_bit_eq_mod)
qed

lemma unat_high_octet: "d < 128 \<Longrightarrow> unat (of_nat (128 + d) :: byte) = 128 + d"
  by (simp only: unat_of_nat) (simp add: take_bit_nat_eq_self_iff)

lemma unat_low_octet: "d < 128 \<Longrightarrow> unat (of_nat d :: byte) = d"
  by (simp add: unat_of_nat take_bit_nat_eq_self_iff)

lemma parse_base128_digits:
  assumes "k + length ds \<le> 4" and "\<forall>d \<in> set ds. d < 128" and "k = 0 \<longrightarrow> ds \<noteq> [] \<longrightarrow> hd ds \<noteq> 0"
  shows "parse_base128 k acc (map (\<lambda>d. of_nat (128 + d)) ds @ b) =
    parse_base128 (k + length ds) (base128_value acc ds) b"
  using assms
proof (induction ds arbitrary: k acc)
  case (Cons d ds)
  have d: "unat (of_nat (128 + d) :: byte) = 128 + d" using Cons.prems by (intro unat_high_octet) simp
  then have bit: "bit (of_nat (128 + d) :: byte) 7"
    using Cons.prems by (simp add: octet_bits(1) div_add_self1 del: of_nat_add)
  have low: "unat (of_nat (128 + d) AND 0x7f :: byte) = d"
    using Cons.prems d by (simp add: octet_bits(2) del: of_nat_add)
  have "(of_nat (128 + d) :: byte) \<noteq> 0x80" if "k = 0"
  proof
    assume "(of_nat (128 + d) :: byte) = 0x80"
    then have "128 + d = unat (0x80 :: byte)" using d by simp
    then show False using Cons.prems that by simp
  qed
  then have "parse_base128 k acc (map (\<lambda>d. of_nat (128 + d)) (d # ds) @ b) =
      parse_base128 (Suc k) (128 * acc + d) (map (\<lambda>d. of_nat (128 + d)) ds @ b)"
    using bit low Cons.prems by (auto simp: Let_def simp del: of_nat_add)
  also have "\<dots> = parse_base128 (Suc k + length ds) (base128_value (128 * acc + d) ds) b"
    by (rule Cons.IH) (use Cons.prems in auto)
  finally show ?case by simp
qed simp

lemma parse_base128_base128:
  assumes "n < 2 ^ 31"
  shows "parse_base128 0 0 (base128 n @ b) = Some (n, b)"
proof -
  obtain ds where ds: "base128_high (n div 128) = map (\<lambda>d. of_nat (128 + d)) ds"
    "base128_value 0 ds = n div 128" "\<forall>d \<in> set ds. d < 128" "ds \<noteq> [] \<longrightarrow> hd ds \<noteq> 0"
    "\<forall>k. n div 128 < 128 ^ k \<longrightarrow> length ds \<le> k"
    using base128_high_digits [of "n div 128"] by blast
  have "length ds \<le> 4" using ds(5) assms by simp
  have "parse_base128 0 0 (base128 n @ b) =
      parse_base128 (length ds) (n div 128) (of_nat (n mod 128) # b)"
    using parse_base128_digits [of 0 ds 0 "of_nat (n mod 128) # b"] ds \<open>length ds \<le> 4\<close>
    by (simp add: base128_def del: parse_base128.simps)
  moreover have m: "unat (of_nat (n mod 128) :: byte) = n mod 128" by (rule unat_low_octet) simp
  moreover have "\<not> bit (of_nat (n mod 128) :: byte) 7" by (simp add: octet_bits(1) m)
  moreover have "(of_nat (n mod 128) :: byte) \<noteq> 0x80"
  proof
    assume "(of_nat (n mod 128) :: byte) = 0x80"
    then have "n mod 128 = unat (0x80 :: byte)" using m by simp
    then show False by simp
  qed
  ultimately show ?thesis using assms \<open>length ds \<le> 4\<close> by (simp add: Let_def octet_bits(2))
qed

lemma base128_not_Nil [simp]: "base128 n \<noteq> []"
  by (simp add: base128_def)

lemma parse_arcs_base128:
  "\<forall>n \<in> set ns. n < 2 ^ 31 \<Longrightarrow> parse_arcs (concat (map base128 ns)) = Some ns"
proof (induction ns)
  case (Cons n ns)
  then show ?case
    by (subst parse_arcs.simps) (simp add: parse_base128_base128)
qed (simp add: parse_arcs.simps)

lemma base128_length: "n < 2 ^ 31 \<Longrightarrow> length (base128 n) \<le> 5"
proof -
  assume n: "n < 2 ^ 31"
  obtain ds where "base128_high (n div 128) = map (\<lambda>d. of_nat (128 + d)) ds"
    "\<forall>k. n div 128 < 128 ^ k \<longrightarrow> length ds \<le> k"
    using base128_high_digits [of "n div 128"] by blast
  moreover have "n div 128 < 128 ^ 4" using n by simp
  ultimately show ?thesis by (fastforce simp: base128_def)
qed

lemma marshalOID_length:
  assumes "marshalOID (a # b # rest) = Some e" and "a * 40 + b < 2 ^ 31"
    and "\<forall>n \<in> set rest. n < 2 ^ 31" and "length rest \<le> 20"
  shows "length e < 128 \<and> e \<noteq> []"
proof -
  let ?ns = "(a * 40 + b) # rest"
  have bound: "\<forall>n \<in> set ns. n < 2 ^ 31 \<Longrightarrow> length (concat (map base128 ns)) \<le> 5 * length ns" for ns
  proof (induction ns)
    case (Cons n ns)
    then have "length (base128 n) \<le> 5" by (intro base128_length) simp
    then show ?case using Cons by simp
  qed simp
  from bound [of ?ns] have "length (concat (map base128 ?ns)) \<le> 105" using assms by simp
  moreover have "e = der_tlv 0x06 (concat (map base128 ?ns))"
    using assms(1) by (auto simp: marshalOID_def split: if_splits)
  ultimately show ?thesis by (simp add: der_tlv_def der_length_def)
qed

text \<open>A well-formed identifier survives \<^verbatim>\<open>Marshal\<close> and \<^verbatim>\<open>Unmarshal\<close>, whatever follows it.\<close>

lemma unmarshalOID_marshalOID:
  assumes "marshalOID (a # b # rest) = Some e" and "a * 40 + b < 2 ^ 31"
    and "\<forall>n \<in> set rest. n < 2 ^ 31" and "length e < 2 ^ 31"
  shows "unmarshalOID (e @ tail) = Some (a # b # rest)"
proof -
  let ?c = "concat (map base128 ((a * 40 + b) # rest))"
  have ab: "\<not> (a > 2 \<or> (a < 2 \<and> b \<ge> 40))" and e: "e = der_tlv 0x06 ?c"
    using assms(1) by (auto simp: marshalOID_def split: if_splits)
  have "length ?c < 2 ^ 31" using assms(4) unfolding e der_tlv_def by simp
  then have "parse_tlv (e @ tail) = Some (0x06, ?c, tail)" unfolding e by (intro parse_tlv_der_tlv) simp_all
  moreover have "parse_arcs ?c = Some ((a * 40 + b) # rest)"
    by (rule parse_arcs_base128) (use assms in simp)
  moreover have "if a * 40 + b < 80 then (a * 40 + b) div 40 = a \<and> (a * 40 + b) mod 40 = b
      else a = 2 \<and> a * 40 + b - 80 = b"
    using ab by (cases "a = 2") (auto simp: numeral_2_eq_2)
  ultimately show ?thesis by (simp add: unmarshalOID_def parse_oid_def split: if_splits)
qed

text \<open>Lengths of encoded integers.\<close>

lemma der_tlv_length: "length c < 2 ^ 31 \<Longrightarrow> length (der_tlv tag c) \<le> length c + 6"
  using bigBytes_length_le [of "length c" 4] by (auto simp: der_tlv_def der_length_def)

lemma int_content_length: "n < 256 ^ k \<Longrightarrow> length (int_content (int n)) \<le> k + 1"
  using bigBytes_length_le [of n k] by (auto simp: int_content_def Let_def)

lemma marshalInt_length: "n < 256 ^ k \<Longrightarrow> k < 2 ^ 30 \<Longrightarrow> length (marshalInt (int n)) \<le> k + 7"
  using der_tlv_length [of "int_content (int n)" "0x02"] int_content_length [of n k]
  by (simp add: marshalInt_def)

lemma unmarshalSig_small:
  assumes "r < 256 ^ k" and "s < 256 ^ k" and "k < 2 ^ 20"
  shows "unmarshalSig (marshalSig (int r) (int s)) = Some (int r, int s)"
  by (rule unmarshalSig_marshalSig)
    (use marshalInt_length [OF assms(1)] marshalInt_length [OF assms(2)] assms(3) in simp_all)

end
