(* ===== verification/Object.thy ===== *)
theory Object
  imports Mechanism Asn1 Errors
begin

text \<open>
  \<^verbatim>\<open>Object\<close> of \<^verbatim>\<open>p11kit/attribute.go\<close>: keys, signers and objects as data, the operations on
  an object's attributes, and \<open>env\<close>, the code outside the repository that the server
  calls (randomness, key generation, signing, hashing, curve arithmetic, the callbacks
  of a slot), threaded over a world whose type stays open.
\<close>

section \<open>Actions that may fail\<close>

text \<open>
  A Go function with an error result that changes state: the state is returned on
  failure too, because what was changed before a failing call stays changed.
\<close>

type_synonym ('s, 'a) act = "'s \<Rightarrow> 'a result \<times> 's"

definition act_return :: "'a \<Rightarrow> ('s, 'a) act" where
  "act_return x s = (Inr x, s)"

definition act_fail :: "go_error \<Rightarrow> ('s, 'a) act" where
  "act_fail e s = (Inl e, s)"

definition act_bind :: "('s, 'a) act \<Rightarrow> ('a \<Rightarrow> ('s, 'b) act) \<Rightarrow> ('s, 'b) act" where
  "act_bind m f s = (case m s of (Inl e, s') \<Rightarrow> (Inl e, s') | (Inr x, s') \<Rightarrow> f x s')"

definition act_lift :: "'a result \<Rightarrow> ('s, 'a) act" where
  "act_lift r s = (r, s)"

lemma act_return_simp [simp]: "act_return x s = (Inr x, s)"
  by (simp add: act_return_def)

lemma act_fail_simp [simp]: "act_fail e s = (Inl e, s)"
  by (simp add: act_fail_def)

lemma act_lift_simp [simp]: "act_lift r s = (r, s)"
  by (simp add: act_lift_def)

lemma act_bind_Inr [simp]: "m s = (Inr x, s') \<Longrightarrow> act_bind m f s = f x s'"
  by (simp add: act_bind_def)

lemma act_bind_Inl [simp]: "m s = (Inl e, s') \<Longrightarrow> act_bind m f s = (Inl e, s')"
  by (simp add: act_bind_def)

lemma act_bind_InrE:
  assumes "act_bind m f s = (Inr y, s')"
  obtains x t where "m s = (Inr x, t)" "f x t = (Inr y, s')"
  using assms by (auto simp: act_bind_def split: prod.splits sum.splits)

lemma act_bind_InlE:
  assumes "act_bind m f s = (Inl e, s')"
  obtains (first) "m s = (Inl e, s')"
    | (later) x t where "m s = (Inr x, t)" "f x t = (Inl e, s')"
  using assms by (auto simp: act_bind_def split: prod.splits sum.splits)

section \<open>Keys\<close>

text \<open>
  \<^verbatim>\<open>elliptic.Curve\<close> values: the four curves the code knows, or another one, with the
  bit sizes of its field and of its group order and a number that names it.
\<close>

datatype curve = P224 | P256 | P384 | P521 | OtherCurve nat nat nat

fun curve_BitSize :: "curve \<Rightarrow> nat" where
  "curve_BitSize P224 = 224"
| "curve_BitSize P256 = 256"
| "curve_BitSize P384 = 384"
| "curve_BitSize P521 = 521"
| "curve_BitSize (OtherCurve field order name) = field"

text \<open>\<^verbatim>\<open>pub.Params().N.BitLen()\<close>\<close>

fun curve_N_BitLen :: "curve \<Rightarrow> nat" where
  "curve_N_BitLen P224 = 224"
| "curve_N_BitLen P256 = 256"
| "curve_N_BitLen P384 = 384"
| "curve_N_BitLen P521 = 521"
| "curve_N_BitLen (OtherCurve field order name) = order"

text \<open>\<^verbatim>\<open>crypto.PublicKey\<close>, by its dynamic type.\<close>

datatype public_key = EcdsaPublicKey curve nat nat | RsaPublicKey nat int | OtherPublicKey nat

text \<open>
  \<^verbatim>\<open>crypto.Signer\<close>: an \<^verbatim>\<open>*ecdsa.PrivateKey\<close> (curve, public point, scalar), or a signer of
  another dynamic type, known by its public key and a number.
\<close>

datatype signer = EcdsaPrivateKey curve nat nat nat | OtherSigner public_key nat

fun signer_Public :: "signer \<Rightarrow> public_key" where
  "signer_Public (EcdsaPrivateKey c x y d) = EcdsaPublicKey c x y"
| "signer_Public (OtherSigner p n) = p"

datatype hash = NoHash | SHA224 | SHA256 | SHA384 | SHA512

fun hash_Size :: "hash \<Rightarrow> nat" where
  "hash_Size NoHash = 0"
| "hash_Size SHA224 = 28"
| "hash_Size SHA256 = 32"
| "hash_Size SHA384 = 48"
| "hash_Size SHA512 = 64"

text \<open>\<^verbatim>\<open>crypto.SignerOpts\<close>: a hash, or RSA-PSS options with a salt length.\<close>

datatype sign_opts = HashOpts hash | PSSOpts hash int

section \<open>Objects\<close>

record object =
  obj_id :: uint64
  obj_attributes :: "attribute list"
  obj_pub :: "public_key option"
  obj_priv :: "signer option"

text \<open>\<^verbatim>\<open>Object{}\<close>\<close>

definition zero_object :: object where
  "zero_object = \<lparr>obj_id = 0, obj_attributes = [], obj_pub = None, obj_priv = None\<rparr>"

section \<open>The environment\<close>

text \<open>
  The code outside the repository. \<open>env_rand_Int max\<close> is \<^verbatim>\<open>rand.Int(rand.Reader, max)\<close>;
  \<open>env_Sign\<close> the \<^verbatim>\<open>Sign\<close> method of a signer on a digest; a callback of a slot
  (\<^verbatim>\<open>GetObjects\<close>, \<^verbatim>\<open>MechanismInfo\<close>) is named by a number. The pure functions are
  \<^verbatim>\<open>x509.MarshalPKIXPublicKey\<close>, \<^verbatim>\<open>IsOnCurve\<close> and \<^verbatim>\<open>ScalarMult\<close> of a curve, and the hashes.
\<close>

record 'w env =
  env_rand_Int :: "nat \<Rightarrow> ('w, nat) act"
  env_Sign :: "signer \<Rightarrow> bytes \<Rightarrow> sign_opts \<Rightarrow> ('w, bytes option) act"
  env_rsa_GenerateKey :: "int \<Rightarrow> ('w, signer) act"
  env_ecdsa_GenerateKey :: "curve \<Rightarrow> ('w, signer) act"
  env_GetObjects :: "nat \<Rightarrow> ('w, object list) act"
  env_MechanismInfo :: "nat \<Rightarrow> uint64 \<Rightarrow> ('w, uint64 \<times> uint64 \<times> uint64) act"
  env_MarshalPKIXPublicKey :: "public_key \<Rightarrow> bytes result"
  env_IsOnCurve :: "curve \<Rightarrow> nat \<Rightarrow> nat \<Rightarrow> bool"
  env_ScalarMult :: "curve \<Rightarrow> nat \<Rightarrow> nat \<Rightarrow> bytes \<Rightarrow> nat \<times> nat"
  env_hash_Sum :: "hash \<Rightarrow> bytes \<Rightarrow> bytes"

section \<open>Operations on attributes\<close>

definition supports :: "object \<Rightarrow> mechanism \<Rightarrow> unit result" where
  "supports obj m =
     (case obj_priv obj of
        None \<Rightarrow> Inl (Pkcs11 errMechanismInvalid)
      | Some s \<Rightarrow>
          (case signer_Public s of
             EcdsaPublicKey _ _ _ \<Rightarrow>
               if m_typ m = ckmECDSA then Inr () else Inl (Pkcs11 errMechanismInvalid)
           | RsaPublicKey _ _ \<Rightarrow>
               if m_typ m = ckmRSAPKCS \<or> m_typ m = ckmRSAPKCSPSS then Inr ()
               else Inl (Pkcs11 errMechanismInvalid)
           | OtherPublicKey _ \<Rightarrow> Inl ErrKeyNeitherRSANorECDSA))"

text \<open>The first attribute of the template's type decides; \<^verbatim>\<open>bytes.Equal\<close> takes nil for empty.\<close>

fun matches_in :: "attribute list \<Rightarrow> attribute \<Rightarrow> bool" where
  "matches_in [] tmpl = False"
| "matches_in (a # as) tmpl =
     (if a_typ a \<noteq> a_typ tmpl then matches_in as tmpl
      else slice (attr_value a) = slice (attr_value tmpl))"

definition matches :: "object \<Rightarrow> attribute \<Rightarrow> bool" where
  "matches obj tmpl = matches_in (obj_attributes obj) tmpl"

definition SetID :: "object \<Rightarrow> uint64 \<Rightarrow> object" where
  "SetID obj i = obj\<lparr>obj_id := i\<rparr>"

definition SetLabel :: "object \<Rightarrow> string \<Rightarrow> object" where
  "SetLabel obj label = obj\<lparr>obj_attributes :=
     obj_attributes obj @ [bytes_attribute attributeLabel (Some (bytes_of label))]\<rparr>"

text \<open>One round of the loop of \<^verbatim>\<open>setAttributes\<close>: replace the first of its type, or append.\<close>

fun set_attribute :: "attribute list \<Rightarrow> attribute \<Rightarrow> attribute list" where
  "set_attribute [] a = [a]"
| "set_attribute (b # bs) a = (if a_typ b = a_typ a then a # bs else b # set_attribute bs a)"

definition setAttributes :: "object \<Rightarrow> attribute list \<Rightarrow> object" where
  "setAttributes obj tmpl = obj\<lparr>obj_attributes := foldl set_attribute (obj_attributes obj) tmpl\<rparr>"

definition SetCKAID :: "object \<Rightarrow> bytes option \<Rightarrow> object" where
  "SetCKAID obj i = setAttributes obj [bytes_attribute attributeID i]"

abbreviation bFalse :: byte where "bFalse \<equiv> 0"
abbreviation bTrue :: byte where "bTrue \<equiv> 1"

fun set_derive :: "attribute list \<Rightarrow> attribute list" where
  "set_derive [] = [byte_attribute attributeDerive bTrue]"
| "set_derive (b # bs) =
     (if a_typ b = attributeDerive then b\<lparr>a_byte := Some bTrue\<rparr> # bs else b # set_derive bs)"

definition SetDerive :: "object \<Rightarrow> object" where
  "SetDerive obj = obj\<lparr>obj_attributes := set_derive (obj_attributes obj)\<rparr>"

text \<open>The fields of \<^verbatim>\<open>x509.Certificate\<close> that the code reads.\<close>

record certificate =
  SerialNumber :: "int option"
  Raw :: "bytes option"
  RawSubject :: "bytes option"
  RawIssuer :: "bytes option"
  RawSubjectPublicKeyInfo :: "bytes option"
  NotBefore :: gotime
  NotAfter :: gotime

text \<open>\<^verbatim>\<open>asn1.Marshal\<close> of a \<^verbatim>\<open>*big.Int\<close>, which may be nil.\<close>

definition asn1_Marshal_int :: "int option \<Rightarrow> bytes result" where
  "asn1_Marshal_int n = (case n of None \<Rightarrow> Inl ErrAsn1 | Some i \<Rightarrow> Inr (marshalInt i))"

definition SetCertificate :: "object \<Rightarrow> certificate \<Rightarrow> object result" where
  "SetCertificate obj cert =
     (if obj_pub obj = None \<and> obj_priv obj = None then Inl ErrNotKeyObject
      else (case asn1_Marshal_int (SerialNumber cert) of
          Inl e \<Rightarrow> Inl e
        | Inr derSerial \<Rightarrow>
            Inr (obj\<lparr>obj_attributes := obj_attributes obj @
              [bytes_attribute attributeID (Some derSerial),
               bytes_attribute attributeSubject (RawSubject cert),
               bytes_attribute attributeObjectID (Some derSerial),
               bytes_attribute attributePublicKeyInfo (RawSubjectPublicKeyInfo cert)]\<rparr>)))"

fun find_attribute :: "attribute list \<Rightarrow> attributeType \<Rightarrow> attribute option" where
  "find_attribute [] t = None"
| "find_attribute (a # as) t = (if a_typ a = t then Some a else find_attribute as t)"

definition obj_attributeValue :: "object \<Rightarrow> attributeType \<Rightarrow> attribute option" where
  "obj_attributeValue obj t = find_attribute (obj_attributes obj) t"

definition maxUint64 :: nat where "maxUint64 = 2 ^ 64 - 1"

definition newObjectID :: "'w env \<Rightarrow> ('w, uint64) act" where
  "newObjectID env = act_bind (env_rand_Int env maxUint64) (\<lambda>i. act_return (of_nat i))"

section \<open>Attribute lists as finite maps\<close>

text \<open>
  The attribute list of an object is a map from types to attributes in which the first
  entry of a type wins. \<open>set_attribute\<close> is its update and \<open>find_attribute\<close> its lookup;
  \<open>matches\<close> compares with what the lookup finds.
\<close>

locale attribute_map =
  fixes find :: "'l \<Rightarrow> 'k \<Rightarrow> 'v option" and upd :: "'l \<Rightarrow> 'v \<Rightarrow> 'l" and key :: "'v \<Rightarrow> 'k"
    and wf :: "'l \<Rightarrow> bool"
  assumes find_upd: "find (upd l v) k = (if k = key v then Some v else find l k)"
    and wf_upd: "wf l \<Longrightarrow> wf (upd l v)"
begin

lemma find_updates: "find (foldl upd l vs) k =
  (case List.find (\<lambda>v. key v = k) (rev vs) of Some v \<Rightarrow> Some v | None \<Rightarrow> find l k)"
  by (induction vs rule: rev_induct) (auto simp: find_upd)

lemma wf_updates: "wf l \<Longrightarrow> wf (foldl upd l vs)"
  by (induction vs rule: rev_induct) (auto simp: wf_upd)

lemma updates_keep: "k \<notin> key ` set vs \<Longrightarrow> find (foldl upd l vs) k = find l k"
  by (induction vs rule: rev_induct) (auto simp: find_upd)

lemma updates_last:
  "k \<notin> key ` set ws \<Longrightarrow> key v = k \<Longrightarrow> find (foldl upd l (vs @ v # ws)) k = Some v"
  using updates_keep [of k ws "upd (foldl upd l vs) v"] by (simp add: find_upd)

end

lemma set_attribute_types:
  "map a_typ (set_attribute as a) =
    map a_typ as @ (if a_typ a \<in> a_typ ` set as then [] else [a_typ a])"
  by (induction as) auto

interpretation attrs: attribute_map find_attribute set_attribute a_typ
    "\<lambda>as. distinct (map a_typ as)"
proof unfold_locales
  fix as a t
  show "find_attribute (set_attribute as a) t =
    (if t = a_typ a then Some a else find_attribute as t)"
    by (induction as) auto
  show "distinct (map a_typ as) \<Longrightarrow> distinct (map a_typ (set_attribute as a))"
    by (simp add: set_attribute_types)
qed

lemma matches_in_find: "matches_in as tmpl =
  (case find_attribute as (a_typ tmpl) of
     None \<Rightarrow> False | Some a \<Rightarrow> slice (attr_value a) = slice (attr_value tmpl))"
  by (induction as) auto

lemma find_attribute_SomeD: "find_attribute as t = Some a \<Longrightarrow> a \<in> set as \<and> a_typ a = t"
  by (induction as) (auto split: if_splits)

lemma find_attribute_None: "find_attribute as t = None \<longleftrightarrow> t \<notin> a_typ ` set as"
  by (induction as) auto

lemma find_attribute_append: "find_attribute (as @ bs) t =
  (case find_attribute as t of None \<Rightarrow> find_attribute bs t | Some a \<Rightarrow> Some a)"
  by (induction as) auto

lemma set_attribute_set: "set (set_attribute as a) \<subseteq> insert a (set as)"
  by (induction as) auto

lemma set_attributes_set: "set (foldl set_attribute as tmpl) \<subseteq> set as \<union> set tmpl"
proof (induction tmpl arbitrary: as)
  case (Cons a tmpl)
  then show ?case using set_attribute_set [of as a] by fastforce
qed simp

lemma find_set_derive: "find_attribute (set_derive as) t =
  (if t = attributeDerive
   then Some ((case find_attribute as attributeDerive of
       None \<Rightarrow> empty_attribute attributeDerive | Some a \<Rightarrow> a)\<lparr>a_byte := Some bTrue\<rparr>)
   else find_attribute as t)"
  by (induction as) (auto simp: byte_attribute_def)

end
