(* ===== verification/Keys.thy ===== *)
theory Keys
  imports Object
begin

text \<open>
  Making objects in \<^verbatim>\<open>p11kit/attribute.go\<close>: key and certificate objects with their default
  attributes, and the generation of key pairs from a client's templates.
\<close>

section \<open>Constants\<close>

abbreviation ckcX509 :: uint64 where "ckcX509 \<equiv> 0"
abbreviation ckuSO :: uint64 where "ckuSO \<equiv> 0"
abbreviation ckuUser :: uint64 where "ckuUser \<equiv> 1"
abbreviation ckoData :: uint64 where "ckoData \<equiv> 0"
abbreviation ckoCertificate :: uint64 where "ckoCertificate \<equiv> 1"
abbreviation ckoPublicKey :: uint64 where "ckoPublicKey \<equiv> 2"
abbreviation ckoPrivateKey :: uint64 where "ckoPrivateKey \<equiv> 3"
abbreviation ckoSecretKey :: uint64 where "ckoSecretKey \<equiv> 4"
abbreviation ckkRSA :: uint64 where "ckkRSA \<equiv> 0"
abbreviation ckkGenericSecret :: uint64 where "ckkGenericSecret \<equiv> 0"
abbreviation ckkECDSA :: uint64 where "ckkECDSA \<equiv> 3"

section \<open>Named curves\<close>

definition oidNamedCurveP224 :: "nat list" where "oidNamedCurveP224 = [1, 3, 132, 0, 33]"
definition oidNamedCurveP256 :: "nat list" where "oidNamedCurveP256 = [1, 2, 840, 10045, 3, 1, 7]"
definition oidNamedCurveP384 :: "nat list" where "oidNamedCurveP384 = [1, 3, 132, 0, 34]"
definition oidNamedCurveP521 :: "nat list" where "oidNamedCurveP521 = [1, 3, 132, 0, 35]"

lemmas oid_defs = oidNamedCurveP224_def oidNamedCurveP256_def oidNamedCurveP384_def
  oidNamedCurveP521_def

definition curveOIDs :: "(curve \<times> nat list) list" where
  "curveOIDs = [(P224, oidNamedCurveP224), (P256, oidNamedCurveP256),
     (P384, oidNamedCurveP384), (P521, oidNamedCurveP521)]"

text \<open>The loop over the map \<^verbatim>\<open>curveOIDs\<close>; the identifiers differ, so its order does not matter.\<close>

fun curve_in :: "(curve \<times> nat list) list \<Rightarrow> nat list \<Rightarrow> curve option" where
  "curve_in [] oid = None"
| "curve_in ((c, cOID) # cs) oid = (if cOID = oid then Some c else curve_in cs oid)"

definition curveForOID :: "nat list \<Rightarrow> curve option" where
  "curveForOID oid = curve_in curveOIDs oid"

text \<open>The \<^verbatim>\<open>switch pub.Curve\<close> of \<^verbatim>\<open>newKeyObject\<close>.\<close>

fun oidForCurve :: "curve \<Rightarrow> nat list option" where
  "oidForCurve P224 = Some oidNamedCurveP224"
| "oidForCurve P256 = Some oidNamedCurveP256"
| "oidForCurve P384 = Some oidNamedCurveP384"
| "oidForCurve P521 = Some oidNamedCurveP521"
| "oidForCurve (OtherCurve field order name) = None"

section \<open>The attributes of a key\<close>

text \<open>
  \<^verbatim>\<open>elliptic.Marshal\<close>, as in the Go versions of \<^verbatim>\<open>go.mod\<close> and of the workflow (1.17, 1.18):
  the uncompressed point. \<^verbatim>\<open>FillBytes\<close> panics when a coordinate does not fit.
\<close>

definition elliptic_Marshal :: "curve \<Rightarrow> nat \<Rightarrow> nat \<Rightarrow> bytes result" where
  "elliptic_Marshal c x y =
     (let byteLen = (curve_BitSize c + 7) div 8 in
      case (fillBytes x byteLen, fillBytes y byteLen) of
        (Some xb, Some yb) \<Rightarrow> Inr (4 # xb @ yb)
      | _ \<Rightarrow> Inl RuntimePanic)"

definition common_attributes :: "bool \<Rightarrow> bytes \<Rightarrow> attribute list" where
  "common_attributes isPrivate spki =
    [ulong_attribute attributeClass (if isPrivate then ckoPrivateKey else ckoPublicKey),
     byte_attribute attributeVerifyRecover bFalse,
     byte_attribute attributeWrap bFalse,
     byte_attribute attributeDerive bFalse,
     byte_attribute attributeVerify (if isPrivate then bFalse else bTrue),
     byte_attribute attributeLocal bFalse,
     bytes_attribute attributePublicKeyInfo (Some spki)] @
    (if isPrivate then
      [byte_attribute attributeToken bTrue,
       byte_attribute attributeSensitive bTrue,
       byte_attribute attributeAlwaysSensitive bTrue,
       byte_attribute attributeExtractable bFalse,
       byte_attribute attributeNeverExtractable bTrue,
       byte_attribute attributeAlwaysAuthenticate bFalse,
       byte_attribute attributeSign bTrue,
       byte_attribute attributeUnwrap bFalse]
     else [])"

definition ecdsa_attributes ::
  "bool \<Rightarrow> curve \<Rightarrow> nat \<Rightarrow> nat \<Rightarrow> attribute list result" where
  "ecdsa_attributes isPrivate c x y =
     (case oidForCurve c of
        None \<Rightarrow> Inl ErrUnsupportedCurve
      | Some oid \<Rightarrow>
          (case marshalOID oid of
             None \<Rightarrow> Inl ErrAsn1
           | Some ecParams \<Rightarrow>
               let attrs = [ulong_attribute attributeKeyType ckkECDSA,
                            bytes_attribute attributeECParams (Some ecParams)] in
               if isPrivate then
                 Inr (attrs @ [byte_attribute attributeDecrypt bFalse,
                               empty_attribute attributeValue])
               else (case elliptic_Marshal c x y of
                   Inl e \<Rightarrow> Inl e
                 | Inr point \<Rightarrow>
                     Inr (attrs @ [byte_attribute attributeEncrypt bFalse,
                       bytes_attribute attributeECPoint (Some (marshalOctets point))]))))"

definition rsa_attributes :: "bool \<Rightarrow> nat \<Rightarrow> int \<Rightarrow> attribute list" where
  "rsa_attributes isPrivate n e =
    [ulong_attribute attributeKeyType ckkRSA,
     bytes_attribute attributeModulus (Some (bigBytes n)),
     ulong_attribute attributeModulusBits (of_nat ((bitLen n + 7) div 8 * 8)),
     bytes_attribute attributePublicExponent (Some (bigBytes (nat \<bar>e\<bar>)))] @
    (if isPrivate then
      [byte_attribute attributeDecrypt bTrue,
       empty_attribute attributePrivateExponent,
       empty_attribute attributePrime1,
       empty_attribute attributePrime2,
       empty_attribute attributeExponent1,
       empty_attribute attributeExponent2,
       empty_attribute attributeCoefficient]
     else [byte_attribute attributeEncrypt bTrue])"

definition newKeyObject :: "'w env \<Rightarrow> public_key \<Rightarrow> bool \<Rightarrow> attribute list result" where
  "newKeyObject env pub isPrivate =
     (case env_MarshalPKIXPublicKey env pub of
        Inl e \<Rightarrow> Inl (ErrEncodingKeyInfo e)
      | Inr spki \<Rightarrow>
          (let attrs = common_attributes isPrivate spki in
           case pub of
             EcdsaPublicKey c x y \<Rightarrow>
               map_sum id (\<lambda>more. attrs @ more) (ecdsa_attributes isPrivate c x y)
           | RsaPublicKey n e \<Rightarrow> Inr (attrs @ rsa_attributes isPrivate n e)
           | OtherPublicKey _ \<Rightarrow> Inl ErrUnsupportedPublicKey))"

section \<open>Making objects\<close>

text \<open>\<^verbatim>\<open>NewPrivateKeyObject\<close>; \<open>None\<close> is a key that does not implement \<^verbatim>\<open>crypto.Signer\<close>.\<close>

definition NewPrivateKeyObject :: "'w env \<Rightarrow> signer option \<Rightarrow> ('w, object) act" where
  "NewPrivateKeyObject env priv =
     (case priv of
        None \<Rightarrow> act_fail ErrNotSigner
      | Some s \<Rightarrow> act_bind (newObjectID env) (\<lambda>i.
          act_bind (act_lift (newKeyObject env (signer_Public s) True)) (\<lambda>attrs.
            act_return \<lparr>obj_id = i, obj_attributes = attrs, obj_pub = None, obj_priv = Some s\<rparr>)))"

definition NewPublicKeyObject :: "'w env \<Rightarrow> public_key \<Rightarrow> ('w, object) act" where
  "NewPublicKeyObject env pub =
     act_bind (newObjectID env) (\<lambda>i.
       act_bind (act_lift (newKeyObject env pub False)) (\<lambda>attrs.
         act_return \<lparr>obj_id = i, obj_attributes = attrs, obj_pub = Some pub, obj_priv = None\<rparr>))"

definition certificate_attributes :: "certificate \<Rightarrow> bytes \<Rightarrow> attribute list" where
  "certificate_attributes cert derSerial =
    [byte_attribute attributeToken bTrue,
     ulong_attribute attributeClass ckoCertificate,
     ulong_attribute attributeCertificateType ckcX509,
     bytes_attribute attributeSubject (RawSubject cert),
     bytes_attribute attributeIssuer (RawIssuer cert),
     bytes_attribute attributeValue (Raw cert),
     bytes_attribute attributeID (Some derSerial),
     bytes_attribute attributeSerialNumber (Some derSerial),
     date_attribute attributeStartDate (NotBefore cert),
     date_attribute attributeEndDate (NotAfter cert),
     bytes_attribute attributePublicKeyInfo (RawSubjectPublicKeyInfo cert)]"

definition NewX509CertificateObject :: "'w env \<Rightarrow> certificate \<Rightarrow> ('w, object) act" where
  "NewX509CertificateObject env cert =
     act_bind (newObjectID env) (\<lambda>i.
       act_bind (act_lift (asn1_Marshal_int (SerialNumber cert))) (\<lambda>derSerial.
         act_return \<lparr>obj_id = i, obj_attributes = certificate_attributes cert derSerial,
           obj_pub = None, obj_priv = None\<rparr>))"

section \<open>Key pairs from templates\<close>

text \<open>The loop of \<^verbatim>\<open>generateRSAKeyPair\<close>: the last modulus size, unless an exponent is refused.\<close>

fun rsa_template :: "attribute list \<Rightarrow> uint64 option \<Rightarrow> uint64 option result" where
  "rsa_template [] bits = Inr bits"
| "rsa_template (t # ts) bits =
     (if a_typ t = attributeModulusBits then
        rsa_template ts (case setUint64 t of Some n \<Rightarrow> Some n | None \<Rightarrow> bits)
      else if a_typ t = attributePublicExponent then
        (if length (slice (a_bytes t)) \<noteq> 0 \<and> big_Int64 (setBytes (slice (a_bytes t))) \<noteq> 65537
         then Inl (Pkcs11 errAttributeValueInvalid)
         else rsa_template ts bits)
      else rsa_template ts bits)"

text \<open>An error of the library becomes \<^verbatim>\<open>CKR_GENERAL_ERROR\<close>; a panic in it stays one.\<close>

definition or_general_error :: "('w, 'a) act \<Rightarrow> ('w, 'a) act" where
  "or_general_error m w =
     (case m w of
        (Inl e, w') \<Rightarrow> (Inl (if is_crash e then e else Pkcs11 errGeneralError), w')
      | r \<Rightarrow> r)"

definition generateRSAKeyPair :: "'w env \<Rightarrow> attribute list \<Rightarrow> ('w, signer) act" where
  "generateRSAKeyPair env tmpl =
     (case rsa_template tmpl None of
        Inl e \<Rightarrow> act_fail e
      | Inr None \<Rightarrow> act_fail (Pkcs11 errTemplateIncomplete)
      | Inr (Some bits) \<Rightarrow>
          if bits < 1024 then act_fail (Pkcs11 errKeySizeRange)
          else or_general_error (env_rsa_GenerateKey env (sint bits)))"

definition generateECKeyPair :: "'w env \<Rightarrow> attribute list \<Rightarrow> ('w, signer) act" where
  "generateECKeyPair env tmpl =
     (let ecParams = (case find_attribute tmpl attributeECParams of
                        None \<Rightarrow> [] | Some t \<Rightarrow> slice (a_bytes t)) in
      if length ecParams = 0 then act_fail (Pkcs11 errTemplateIncomplete)
      else (case unmarshalOID ecParams of
          None \<Rightarrow> act_fail (Pkcs11 errCurveNotSupported)
        | Some oid \<Rightarrow>
            (case curveForOID oid of
               None \<Rightarrow> act_fail (Pkcs11 errCurveNotSupported)
             | Some c \<Rightarrow> or_general_error (env_ecdsa_GenerateKey env c))))"

definition generateKeyPair ::
  "'w env \<Rightarrow> mechanism \<Rightarrow> attribute list \<Rightarrow> attribute list \<Rightarrow> ('w, object \<times> object) act" where
  "generateKeyPair env m pubTmpl privTmpl =
     act_bind
       (if m_typ m = ckmRSAKeyPairGen then generateRSAKeyPair env pubTmpl
        else if m_typ m = ckmECKeyPairGen then generateECKeyPair env pubTmpl
        else act_fail (Pkcs11 errMechanismInvalid))
       (\<lambda>key. act_bind (NewPublicKeyObject env (signer_Public key)) (\<lambda>pub.
         act_bind (NewPrivateKeyObject env (Some key)) (\<lambda>priv.
           act_return (setAttributes pub pubTmpl, setAttributes priv privTmpl))))"


section \<open>Facts\<close>

text \<open>Identifiers and curves: what a key object publishes, a template may ask for.\<close>

lemma curveForOID_iff: "curveForOID oid = Some c \<longleftrightarrow> oidForCurve c = Some oid"
  by (cases c) (auto simp: curveForOID_def curveOIDs_def oid_defs)

lemma curve_in_Some: "curve_in cs oid = Some c \<Longrightarrow> (c, oid) \<in> set cs"
  by (induction cs oid rule: curve_in.induct) (auto split: if_splits)

lemma curve_in_None: "curve_in cs oid = None \<longleftrightarrow> oid \<notin> snd ` set cs"
  by (induction cs oid rule: curve_in.induct) auto

lemma curve_in_order:
  assumes "set cs = set curveOIDs"
  shows "curve_in cs oid = curveForOID oid"
proof (cases "curve_in cs oid")
  case None
  then have "curve_in curveOIDs oid = None" using assms unfolding curve_in_None by simp
  then show ?thesis using None by (simp add: curveForOID_def)
next
  case (Some c)
  then have "(c, oid) \<in> set curveOIDs" using curve_in_Some assms by blast
  then have "oidForCurve c = Some oid" by (auto simp: curveOIDs_def)
  then have "curveForOID oid = Some c" by (simp only: curveForOID_iff)
  then show ?thesis using Some by simp
qed

lemma marshalOID_named:
  assumes "oidForCurve c = Some oid"
  obtains b where "marshalOID oid = Some b" "b \<noteq> []" "\<And>tail. unmarshalOID (b @ tail) = Some oid"
proof -
  obtain a1 a2 rest where oid: "oid = a1 # a2 # rest" "a1 * 40 + a2 < 2 ^ 31"
    "\<forall>n \<in> set rest. n < 2 ^ 31" "length rest \<le> 20" "\<not> (a1 > 2 \<or> (a1 < 2 \<and> a2 \<ge> 40))"
    using assms by (cases c) (auto simp: oid_defs)
  then obtain b where b: "marshalOID oid = Some b" by (simp add: marshalOID_def)
  then have "length b < 128" "b \<noteq> []" using marshalOID_length oid by blast+
  moreover have "unmarshalOID (b @ tail) = Some oid" for tail
    using unmarshalOID_marshalOID oid b \<open>length b < 128\<close> by simp
  ultimately show thesis using that b by blast
qed

text \<open>The attributes of a key object: no type occurs twice, every value has its type's kind.\<close>

definition key_types :: "bool \<Rightarrow> attributeType list" where
  "key_types isPrivate =
    [attributeClass, attributeVerifyRecover, attributeWrap, attributeDerive, attributeVerify,
     attributeLocal, attributePublicKeyInfo] @
    (if isPrivate then [attributeToken, attributeSensitive, attributeAlwaysSensitive,
       attributeExtractable, attributeNeverExtractable, attributeAlwaysAuthenticate,
       attributeSign, attributeUnwrap] else [])"

definition ecdsa_types :: "bool \<Rightarrow> attributeType list" where
  "ecdsa_types isPrivate = [attributeKeyType, attributeECParams] @
    (if isPrivate then [attributeDecrypt, attributeValue] else [attributeEncrypt, attributeECPoint])"

definition rsa_types :: "bool \<Rightarrow> attributeType list" where
  "rsa_types isPrivate = [attributeKeyType, attributeModulus, attributeModulusBits,
     attributePublicExponent] @
    (if isPrivate then [attributeDecrypt, attributePrivateExponent, attributePrime1,
       attributePrime2, attributeExponent1, attributeExponent2, attributeCoefficient]
     else [attributeEncrypt])"

lemma distinct_map_of_nat:
  "distinct ns \<Longrightarrow> list_all (\<lambda>n. n < 2 ^ 32) ns \<Longrightarrow> distinct (map of_nat ns :: uint32 list)"
  by (auto simp: distinct_map list_all_iff inj_on_def word_of_nat_eq_iff take_bit_nat_eq_self)

lemma key_types_distinct:
  "distinct (key_types p @ ecdsa_types p)" "distinct (key_types p @ rsa_types p)"
proof -
  have "key_types True @ ecdsa_types True = map of_nat
      [0, 267, 262, 268, 266, 355, 297, 1, 259, 357, 354, 356, 514, 264, 263, 256, 384, 261, 17]"
    by (simp add: key_types_def ecdsa_types_def)
  then have e1: "distinct (key_types True @ ecdsa_types True)"
    by (simp only:) (rule distinct_map_of_nat; simp)
  have "key_types False @ ecdsa_types False = map of_nat
      [0, 267, 262, 268, 266, 355, 297, 256, 384, 260, 385]"
    by (simp add: key_types_def ecdsa_types_def)
  then have e2: "distinct (key_types False @ ecdsa_types False)"
    by (simp only:) (rule distinct_map_of_nat; simp)
  have "key_types True @ rsa_types True = map of_nat
      [0, 267, 262, 268, 266, 355, 297, 1, 259, 357, 354, 356, 514, 264, 263, 256, 288, 289, 290, 261, 291, 292, 293, 294, 295, 296]"
    by (simp add: key_types_def rsa_types_def)
  then have r1: "distinct (key_types True @ rsa_types True)"
    by (simp only:) (rule distinct_map_of_nat; simp)
  have "key_types False @ rsa_types False = map of_nat
      [0, 267, 262, 268, 266, 355, 297, 256, 288, 289, 290, 260]"
    by (simp add: key_types_def rsa_types_def)
  then have r2: "distinct (key_types False @ rsa_types False)"
    by (simp only:) (rule distinct_map_of_nat; simp)
  show "distinct (key_types p @ ecdsa_types p)" "distinct (key_types p @ rsa_types p)"
    using e1 e2 r1 r2 by (cases p; simp only:)+
qed

lemma valueType_key_byte: "list_all (\<lambda>t. valueType t = AttributeTypeByte)
    [attributeVerifyRecover, attributeWrap, attributeDerive, attributeVerify,
     attributeLocal, attributeToken, attributeSensitive, attributeAlwaysSensitive,
     attributeExtractable, attributeNeverExtractable, attributeAlwaysAuthenticate, attributeSign,
     attributeUnwrap, attributeDecrypt, attributeEncrypt]"
  by (simp add: valueType_unat)

lemma valueType_key_ulong: "list_all (\<lambda>t. valueType t = AttributeTypeUlong)
    [attributeClass, attributeKeyType, attributeModulusBits]"
  by (simp add: valueType_unat)

lemma valueType_key_bytes: "list_all (\<lambda>t. valueType t = AttributeTypeByteArray)
    [attributePublicKeyInfo, attributeECParams, attributeECPoint, attributeModulus,
     attributePublicExponent]"
  by (simp add: valueType_unat)

lemmas valueType_key = valueType_key_byte [simplified] valueType_key_ulong [simplified]
  valueType_key_bytes [simplified]

lemma common_attributes_wf:
  "map a_typ (common_attributes p spki) = key_types p"
  "\<forall>a \<in> set (common_attributes p spki). typed_attribute a"
  by (auto simp: common_attributes_def key_types_def valueType_key)

lemma ecdsa_attributes_wf:
  "ecdsa_attributes p c x y = Inr as \<Longrightarrow>
     map a_typ as = ecdsa_types p \<and> (\<forall>a \<in> set as. typed_attribute a)"
  by (auto simp: ecdsa_attributes_def ecdsa_types_def valueType_key
      split: option.splits if_splits sum.splits)

lemma rsa_attributes_wf:
  "map a_typ (rsa_attributes p n e) = rsa_types p"
  "\<forall>a \<in> set (rsa_attributes p n e). typed_attribute a"
  by (auto simp: rsa_attributes_def rsa_types_def valueType_key)

text \<open>
  A list of attributes that can stand for an object: a type at most once, and values of
  the kind of their types, so that every value a client asks for can be encoded.
\<close>

definition wf_attributes :: "attribute list \<Rightarrow> bool" where
  "wf_attributes as \<longleftrightarrow> distinct (map a_typ as) \<and> (\<forall>a \<in> set as. typed_attribute a)"

definition wf_object :: "object \<Rightarrow> bool" where
  "wf_object obj \<longleftrightarrow> wf_attributes (obj_attributes obj)"

text \<open>
  Objects that the embedding program made may hold a type twice (\<^verbatim>\<open>SetLabel\<close> and
  \<^verbatim>\<open>SetCertificate\<close> append), but their values are of their types' kinds too.
\<close>

definition typed_object :: "object \<Rightarrow> bool" where
  "typed_object obj \<longleftrightarrow> (\<forall>a \<in> set (obj_attributes obj). typed_attribute a)"

lemma wf_object_typed: "wf_object obj \<Longrightarrow> typed_object obj"
  by (simp add: wf_object_def wf_attributes_def typed_object_def)

lemma common_attributes_class: "find_attribute (common_attributes p spki @ extra) attributeClass =
    Some (ulong_attribute attributeClass (if p then ckoPrivateKey else ckoPublicKey))"
  by (simp add: common_attributes_def)

lemma common_attributes_extend:
  assumes "distinct (key_types p @ map a_typ extra)" and "\<forall>a \<in> set extra. typed_attribute a"
  shows "wf_attributes (common_attributes p spki @ extra)"
proof -
  have "map a_typ (common_attributes p spki @ extra) = key_types p @ map a_typ extra"
    by (simp add: common_attributes_wf)
  moreover have "\<forall>a \<in> set (common_attributes p spki @ extra). typed_attribute a"
    using assms(2) common_attributes_wf(2) [of p spki] unfolding set_append by blast
  ultimately show ?thesis using assms(1) unfolding wf_attributes_def by simp
qed

lemma newKeyObject_Inr:
  assumes "newKeyObject env pub p = Inr as"
  obtains spki extra where "env_MarshalPKIXPublicKey env pub = Inr spki"
    "as = common_attributes p spki @ extra"
    "map a_typ extra = ecdsa_types p \<or> map a_typ extra = rsa_types p"
    "\<forall>a \<in> set extra. typed_attribute a"
    "\<And>c x y. pub = EcdsaPublicKey c x y \<Longrightarrow> ecdsa_attributes p c x y = Inr extra"
    "\<And>n e. pub = RsaPublicKey n e \<Longrightarrow> extra = rsa_attributes p n e"
proof (cases pub)
  case (EcdsaPublicKey c x y)
  then show thesis using assms that ecdsa_attributes_wf [of p c x y]
    by (cases "ecdsa_attributes p c x y") (auto simp: newKeyObject_def Let_def split: sum.splits)
next
  case (RsaPublicKey n e)
  then show thesis using assms that rsa_attributes_wf [of p n e]
    by (auto simp: newKeyObject_def Let_def split: sum.splits)
next
  case (OtherPublicKey n)
  then show ?thesis using assms by (auto simp: newKeyObject_def split: sum.splits)
qed

lemma newKeyObject_wf:
  assumes "newKeyObject env pub p = Inr as"
  shows "wf_attributes as \<and> find_attribute as attributeClass =
    Some (ulong_attribute attributeClass (if p then ckoPrivateKey else ckoPublicKey))"
  using assms
proof (rule newKeyObject_Inr)
  fix spki extra
  assume as: "as = common_attributes p spki @ extra"
    and types: "map a_typ extra = ecdsa_types p \<or> map a_typ extra = rsa_types p"
    and typed: "\<forall>a \<in> set extra. typed_attribute a"
  have "distinct (key_types p @ map a_typ extra)"
    using types by (elim disjE) (simp_all only: key_types_distinct)
  then show ?thesis
    unfolding as using common_attributes_extend typed common_attributes_class by blast
qed

lemma setAttributes_wf:
  assumes "wf_object obj" and "\<forall>a \<in> set tmpl. typed_attribute a"
  shows "wf_object (setAttributes obj tmpl)"
  using assms attrs.wf_updates [of "obj_attributes obj" tmpl]
    set_attributes_set [of "obj_attributes obj" tmpl]
  by (auto simp: wf_object_def wf_attributes_def setAttributes_def)

lemma NewPublicKeyObject_Inr:
  "NewPublicKeyObject env k w = (Inr obj, w') \<longleftrightarrow>
     (\<exists>i as. newObjectID env w = (Inr i, w') \<and> newKeyObject env k False = Inr as \<and>
       obj = \<lparr>obj_id = i, obj_attributes = as, obj_pub = Some k, obj_priv = None\<rparr>)"
  by (auto simp: NewPublicKeyObject_def act_bind_def act_lift_def act_return_def
      split: prod.splits sum.splits)

lemma NewPrivateKeyObject_Inr:
  "NewPrivateKeyObject env (Some k) w = (Inr obj, w') \<longleftrightarrow>
     (\<exists>i as. newObjectID env w = (Inr i, w') \<and> newKeyObject env (signer_Public k) True = Inr as \<and>
       obj = \<lparr>obj_id = i, obj_attributes = as, obj_pub = None, obj_priv = Some k\<rparr>)"
  by (auto simp: NewPrivateKeyObject_def act_bind_def act_lift_def act_return_def
      split: prod.splits sum.splits)

text \<open>Every pair that is generated: one key, two objects with their defaults overridden.\<close>

lemma generateKeyPair_Inr:
  assumes "generateKeyPair env m pubTmpl privTmpl w = (Inr (pub, priv), w')"
  obtains key i j pas sas where
    "obj_pub pub = Some (signer_Public key)" "obj_priv pub = None"
    "obj_pub priv = None" "obj_priv priv = Some key"
    "newKeyObject env (signer_Public key) False = Inr pas"
    "newKeyObject env (signer_Public key) True = Inr sas"
    "pub = setAttributes \<lparr>obj_id = i, obj_attributes = pas, obj_pub = Some (signer_Public key),
       obj_priv = None\<rparr> pubTmpl"
    "priv = setAttributes \<lparr>obj_id = j, obj_attributes = sas, obj_pub = None,
       obj_priv = Some key\<rparr> privTmpl"
  using assms
  by (auto simp: generateKeyPair_def NewPublicKeyObject_Inr NewPrivateKeyObject_Inr
      setAttributes_def elim!: act_bind_InrE)

lemma generateKeyPair_wf:
  assumes "generateKeyPair env m pubTmpl privTmpl w = (Inr (pub, priv), w')"
    and "\<forall>a \<in> set pubTmpl \<union> set privTmpl. typed_attribute a"
  shows "wf_object pub \<and> wf_object priv"
  using assms(1)
proof (rule generateKeyPair_Inr)
  fix key i j pas sas
  assume "newKeyObject env (signer_Public key) False = Inr pas"
    "newKeyObject env (signer_Public key) True = Inr sas"
    and pub: "pub = setAttributes \<lparr>obj_id = i, obj_attributes = pas,
       obj_pub = Some (signer_Public key), obj_priv = None\<rparr> pubTmpl"
    and priv: "priv = setAttributes \<lparr>obj_id = j, obj_attributes = sas, obj_pub = None,
       obj_priv = Some key\<rparr> privTmpl"
  then have "wf_attributes pas" "wf_attributes sas" using newKeyObject_wf by blast+
  then show ?thesis using assms(2) unfolding pub priv
    by (intro conjI setAttributes_wf) (auto simp: wf_object_def)
qed

text \<open>What a template asks of an RSA key: the last size it gives, whatever surrounds it.\<close>

definition last_ulong :: "attributeType \<Rightarrow> attribute list \<Rightarrow> uint64 option" where
  "last_ulong ty ts =
     foldl (\<lambda>b t. if a_typ t = ty then (case setUint64 t of Some n \<Rightarrow> Some n | None \<Rightarrow> b) else b)
       None ts"

lemma rsa_template_Inr:
  assumes "rsa_template ts bits = Inr r"
  shows "r = foldl (\<lambda>b t. if a_typ t = attributeModulusBits
           then (case setUint64 t of Some n \<Rightarrow> Some n | None \<Rightarrow> b) else b) bits ts \<and>
     (\<forall>t \<in> set ts. a_typ t = attributePublicExponent \<longrightarrow>
        slice (a_bytes t) = [] \<or> big_Int64 (setBytes (slice (a_bytes t))) = 65537)"
  using assms
proof (induction ts arbitrary: bits)
  case (Cons t ts)
  show ?case
  proof (cases "a_typ t = attributeModulusBits")
    case True
    then have "a_typ t \<noteq> attributePublicExponent" by simp
    then show ?thesis using True Cons by simp
  next
    case False
    then have rest: "rsa_template ts bits = Inr r"
      using Cons.prems by (simp split: if_splits)
    have "a_typ t = attributePublicExponent \<longrightarrow>
        slice (a_bytes t) = [] \<or> big_Int64 (setBytes (slice (a_bytes t))) = 65537"
      using Cons.prems False by (simp split: if_splits)
    then show ?thesis using Cons.IH [OF rest] False by simp
  qed
qed simp

end
