(* ===== verification/Derive.thy ===== *)
theory Derive
  imports Keys
begin

text \<open>
  \<^verbatim>\<open>CKM_ECDH1_DERIVE\<close> in \<^verbatim>\<open>p11kit/attribute.go\<close>: the shared secret, the ANSI X9.63 key
  derivation function and the secret key object that holds the result.
\<close>

section \<open>The shared secret\<close>

definition ecdhSharedSecret :: "'w env \<Rightarrow> curve \<Rightarrow> nat \<Rightarrow> bytes \<Rightarrow> bytes result" where
  "ecdhSharedSecret env c d public =
     (let byteLen = (curve_BitSize c + 7) div 8 in
      if length public \<noteq> 1 + 2 * byteLen \<or> public ! 0 \<noteq> 0x04 then Inl (Pkcs11 errArgumentsBad)
      else
        let x = setBytes (take byteLen (drop 1 public));
            y = setBytes (drop (1 + byteLen) public) in
        if \<not> env_IsOnCurve env c x y then Inl (Pkcs11 errDomainParamsInvalid)
        else (case fillBytes (fst (env_ScalarMult env c x y (bigBytes d))) byteLen of
            None \<Rightarrow> Inl RuntimePanic
          | Some secret \<Rightarrow> Inr secret))"

section \<open>The key derivation function\<close>

definition hashForKDF :: "uint64 \<Rightarrow> hash result" where
  "hashForKDF k =
     (if k = ckdSHA224KDF then Inr SHA224
      else if k = ckdSHA256KDF then Inr SHA256
      else if k = ckdSHA384KDF then Inr SHA384
      else if k = ckdSHA512KDF then Inr SHA512
      else Inl (Pkcs11 errMechanismParamInvalid))"

text \<open>
  The loop \<^verbatim>\<open>for counter := uint32(1); len(out) < outLen; counter++\<close>; the counter wraps.
  \<open>None\<close> is a loop that never ends, which \<open>x963_loop_blocks\<close> excludes for real hashes.
\<close>

partial_function (option) x963_loop ::
  "(bytes \<Rightarrow> bytes) \<Rightarrow> bytes \<Rightarrow> bytes \<Rightarrow> nat \<Rightarrow> uint32 \<Rightarrow> bytes \<Rightarrow> bytes option" where
  "x963_loop h secret shared outLen counter out =
     (if length out < outLen
      then x963_loop h secret shared outLen (counter + 1)
        (out @ h (secret @ putUint32 counter @ shared))
      else Some out)"

definition x963KDF :: "(bytes \<Rightarrow> bytes) \<Rightarrow> bytes \<Rightarrow> bytes \<Rightarrow> int \<Rightarrow> bytes result" where
  "x963KDF h secret shared outLen =
     (if outLen \<le> 0 then Inl (Pkcs11 errMechanismParamInvalid)
      else (case x963_loop h secret shared (nat outLen) 1 [] of
          None \<Rightarrow> Inl NonTermination
        | Some out \<Rightarrow> Inr (take (nat outLen) out)))"

text \<open>\<^verbatim>\<open>make([]byte, n)\<close> panics above the address space of linux/amd64, 48 bits.\<close>

definition max_alloc :: nat where "max_alloc = 2 ^ 48"

definition resizeSecret :: "bytes \<Rightarrow> uint64 \<Rightarrow> bytes result" where
  "resizeSecret secret n =
     (if of_nat (length secret) = n then Inr secret
      else if unat n > max_alloc then Inl RuntimePanic
      else if of_nat (length secret) > n then Inr (take (unat n) secret)
      else Inr (replicate (unat (n - of_nat (length secret))) 0 @ secret))"

section \<open>Deriving a key\<close>

text \<open>The template overrides class, key type and length; the last setting of each counts.\<close>

fun derive_template ::
  "attribute list \<Rightarrow> uint64 \<times> uint64 \<times> uint64 \<Rightarrow> uint64 \<times> uint64 \<times> uint64" where
  "derive_template [] (class, keyType, valueLen) = (class, keyType, valueLen)"
| "derive_template (t # ts) (class, keyType, valueLen) =
     derive_template ts
       (case setUint64 t of
          None \<Rightarrow> (class, keyType, valueLen)
        | Some n \<Rightarrow>
            if a_typ t = attributeClass then (n, keyType, valueLen)
            else if a_typ t = attributeKeyType then (class, n, valueLen)
            else if a_typ t = attributeValueLen then (class, keyType, n)
            else (class, keyType, valueLen))"

definition derived_attributes :: "uint64 \<Rightarrow> uint64 \<Rightarrow> bytes \<Rightarrow> uint64 \<Rightarrow> attribute list" where
  "derived_attributes class keyType secret valueLen =
    [ulong_attribute attributeClass class,
     ulong_attribute attributeKeyType keyType,
     bytes_attribute attributeValue (Some secret),
     ulong_attribute attributeValueLen valueLen]"

text \<open>The guards of \<^verbatim>\<open>deriveECDH\<close>: the parameters, the private key and the derive flag.\<close>

definition derive_guards ::
  "mechanism \<Rightarrow> object \<Rightarrow> (ecdh1DeriveParams \<times> curve \<times> nat) result" where
  "derive_guards m base =
     (case m_params m of
        ParamsECDH1 p \<Rightarrow>
          (case obj_priv base of
             Some (EcdsaPrivateKey c x y d) \<Rightarrow>
               (case obj_attributeValue base attributeDerive of
                  None \<Rightarrow> Inl (Pkcs11 errKeyFunctionNotPermitted)
                | Some a \<Rightarrow>
                    (case setByte a of
                       None \<Rightarrow> Inl (Pkcs11 errKeyFunctionNotPermitted)
                     | Some derive \<Rightarrow>
                         if derive = 0 then Inl (Pkcs11 errKeyFunctionNotPermitted)
                         else Inr (p, c, d)))
           | _ \<Rightarrow> Inl (Pkcs11 errKeyTypeInconsistent))
      | _ \<Rightarrow> Inl (Pkcs11 errMechanismParamInvalid))"

definition derive_secret ::
  "'w env \<Rightarrow> ecdh1DeriveParams \<Rightarrow> bytes \<Rightarrow> uint64 \<Rightarrow> bytes result" where
  "derive_secret env p secret valueLen =
     (if kdf p = ckdNull then resizeSecret secret valueLen
      else (case hashForKDF (kdf p) of
          Inl e \<Rightarrow> Inl e
        | Inr h \<Rightarrow>
            (case x963KDF (env_hash_Sum env h) secret (sharedData p) (sint valueLen) of
               Inl e \<Rightarrow> Inl e
             | Inr out \<Rightarrow> resizeSecret out valueLen)))"

definition deriveECDH ::
  "'w env \<Rightarrow> mechanism \<Rightarrow> object \<Rightarrow> attribute list \<Rightarrow> ('w, object) act" where
  "deriveECDH env m base tmpl =
     (case derive_guards m base of
        Inl e \<Rightarrow> act_fail e
      | Inr (p, c, d) \<Rightarrow>
          (case ecdhSharedSecret env c d (publicData p) of
             Inl e \<Rightarrow> act_fail e
           | Inr secret \<Rightarrow>
               (case derive_template tmpl
                   (ckoSecretKey, ckkGenericSecret, of_nat (length secret)) of
                 (class, keyType, valueLen) \<Rightarrow>
                   act_bind (act_lift (derive_secret env p secret valueLen)) (\<lambda>secret.
                     act_bind (newObjectID env) (\<lambda>i.
                       act_return \<lparr>obj_id = i,
                         obj_attributes = derived_attributes class keyType secret valueLen,
                         obj_pub = None, obj_priv = None\<rparr>)))))"

section \<open>Facts\<close>

text \<open>The stream that the derivation truncates: digests of the counters from \<open>k\<close> on.\<close>

definition x963_blocks :: "(bytes \<Rightarrow> bytes) \<Rightarrow> bytes \<Rightarrow> bytes \<Rightarrow> nat \<Rightarrow> nat \<Rightarrow> bytes" where
  "x963_blocks h secret shared k n =
     concat (map (\<lambda>i. h (secret @ putUint32 (of_nat i) @ shared)) [k..<k + n])"

lemma x963_blocks_Suc: "x963_blocks h secret shared k (Suc n) =
    h (secret @ putUint32 (of_nat k) @ shared) @ x963_blocks h secret shared (Suc k) n"
  by (simp add: x963_blocks_def upt_conv_Cons del: upt_Suc)

lemma x963_blocks_length:
  "(\<And>b. length (h b) = sz) \<Longrightarrow> length (x963_blocks h secret shared k n) = n * sz"
  by (induction n arbitrary: k) (simp_all add: x963_blocks_Suc, simp add: x963_blocks_def)

lemma x963_loop_blocks:
  assumes "\<And>b. length (h b) = sz" and "0 < sz"
    and "length out < outLen \<Longrightarrow> n = (outLen - length out + sz - 1) div sz"
    and "outLen \<le> length out \<Longrightarrow> n = 0"
  shows "x963_loop h secret shared outLen (of_nat k) out =
    Some (out @ x963_blocks h secret shared k n)"
  using assms(3,4)
proof (induction n arbitrary: k out)
  case 0
  have "\<not> length out < outLen"
  proof
    assume "length out < outLen"
    then have "(outLen - length out + sz - 1) div sz = 0" using 0(1) by simp
    then show False using \<open>length out < outLen\<close> \<open>0 < sz\<close> by (auto simp: div_eq_0_iff)
  qed
  then show ?case by (subst x963_loop.simps) (simp add: x963_blocks_def)
next
  case (Suc n)
  let ?out = "out @ h (secret @ putUint32 (of_nat k) @ shared)"
  have less: "length out < outLen" using Suc.prems(2) by (rule_tac ccontr) simp
  have n: "Suc n = (outLen - length out + sz - 1) div sz" by (rule Suc.prems(1)) (rule less)
  have len: "length ?out = length out + sz" using assms(1) by simp
  have "x963_loop h secret shared outLen (of_nat (Suc k)) ?out =
      Some (?out @ x963_blocks h secret shared (Suc k) n)"
  proof (rule Suc.IH)
    assume "length ?out < outLen"
    then have "outLen - length out + sz - 1 = (outLen - length ?out + sz - 1) + sz"
      unfolding len by simp
    then have "Suc n = ((outLen - length ?out + sz - 1) + sz) div sz" using n by (simp only:)
    then show "n = (outLen - length ?out + sz - 1) div sz"
      using div_add_self2 [of sz "outLen - length ?out + sz - 1"] \<open>0 < sz\<close> by linarith
  next
    assume "outLen \<le> length ?out"
    then have "outLen - length out + sz - 1 < 2 * sz" using \<open>0 < sz\<close> unfolding len by linarith
    then have "Suc n < 2" unfolding n using \<open>0 < sz\<close> by (simp add: less_mult_imp_div_less)
    then show "n = 0" by simp
  qed
  moreover have "x963_loop h secret shared outLen (of_nat k) out =
      x963_loop h secret shared outLen (of_nat (Suc k)) ?out"
    by (subst x963_loop.simps) (simp add: less add.commute)
  ultimately show ?case by (simp add: x963_blocks_Suc)
qed

text \<open>
  The derivation is the truncated stream of as many blocks as are needed, for any hash
  that returns a fixed, positive number of bytes; so it ends.
\<close>

lemma x963KDF_blocks:
  assumes "\<And>b. length (h b) = sz" and "0 < sz" and "0 < outLen"
  shows "x963KDF h secret shared outLen =
    Inr (take (nat outLen) (x963_blocks h secret shared 1 ((nat outLen + sz - 1) div sz)))"
proof -
  have "x963_loop h secret shared (nat outLen) (of_nat 1) [] =
      Some ([] @ x963_blocks h secret shared 1 ((nat outLen + sz - 1) div sz))"
    by (rule x963_loop_blocks) (use assms in auto)
  then show ?thesis using assms(3) by (simp add: x963KDF_def)
qed

lemma x963KDF_length:
  assumes "\<And>b. length (h b) = sz" and "0 < sz" and "0 < outLen"
  shows "\<exists>out. x963KDF h secret shared outLen = Inr out \<and> length out = nat outLen"
proof -
  have "nat outLen + sz - 1 < sz + (nat outLen + sz - 1) div sz * sz"
    using dividend_less_div_times [of sz "nat outLen + sz - 1"] assms(2) by simp
  then have "nat outLen \<le> (nat outLen + sz - 1) div sz * sz" by linarith
  then show ?thesis
    using x963KDF_blocks [OF assms] x963_blocks_length [OF assms(1)] by simp
qed

text \<open>A resized secret has the length asked for, and its value when it was lengthened.\<close>

lemma resizeSecret_length:
  assumes "resizeSecret secret n = Inr out" and "length secret < 2 ^ 64"
  shows "length out = unat n \<and> (length secret \<le> unat n \<longrightarrow> setBytes out = setBytes secret) \<and>
    (unat n < length secret \<longrightarrow> out = take (unat n) secret)"
proof -
  have l: "unat (of_nat (length secret) :: uint64) = length secret"
    using assms(2) by (simp add: unat_of_nat take_bit_nat_eq_self_iff)
  have less: "of_nat (length secret) > n \<longleftrightarrow> unat n < length secret"
    by (simp add: word_less_nat_alt l)
  have eq: "of_nat (length secret) = n \<longleftrightarrow> length secret = unat n"
    by (metis l word_unat_eq_iff)
  have sub: "length secret \<le> unat n \<Longrightarrow> unat (n - of_nat (length secret)) = unat n - length secret"
    by (metis l unat_sub word_le_nat_alt)
  show ?thesis using assms(1) sub
    by (auto simp: resizeSecret_def less eq setBytes_zeros split: if_splits)
qed

end
