(* ===== verification/Body.thy ===== *)
theory Body
  imports Mechanism
begin

text \<open>
  \<^verbatim>\<open>body\<close> of \<^verbatim>\<open>p11kit/rpc.go\<close>: the body of one call, with its signature, its
  fields and the first error met while reading them. Readers of fields are
  sticky: \<open>decode\<close> does nothing once an error is stored, so a handler reads all its
  fields and looks at \<open>err\<close> once. A Go reader stores through a pointer; here it
  returns the value, or the variable's initial value where the Go code stores
  nothing. After a failed read the variable may hold a partial value in Go, which
  no handler looks at, because it returns \<^verbatim>\<open>req.err()\<close> first.
\<close>

section \<open>Bodies and calls\<close>

record body =
  b_call :: uint32
  signature :: string
  b_buffer :: buffer
  b_error :: "go_error option"

record Version =
  Major :: byte
  Minor :: byte

definition newResponse :: "body \<Rightarrow> body" where
  "newResponse req = \<lparr>b_call = b_call req, signature = [], b_buffer = [], b_error = None\<rparr>"

abbreviation sigAttributeArray :: string where "sigAttributeArray \<equiv> ''aA''"
abbreviation sigAttributeBuffer :: string where "sigAttributeBuffer \<equiv> ''fA''"
abbreviation sigByte :: string where "sigByte \<equiv> ''y''"
abbreviation sigByteArray :: string where "sigByteArray \<equiv> ''ay''"
abbreviation sigByteBuffer :: string where "sigByteBuffer \<equiv> ''fy''"
abbreviation sigMechanism :: string where "sigMechanism \<equiv> ''M''"
abbreviation sigString :: string where "sigString \<equiv> ''s''"
abbreviation sigUlong :: string where "sigUlong \<equiv> ''u''"
abbreviation sigUlongArray :: string where "sigUlongArray \<equiv> ''au''"
abbreviation sigUlongBuffer :: string where "sigUlongBuffer \<equiv> ''fu''"
abbreviation sigVersion :: string where "sigVersion \<equiv> ''v''"
abbreviation sigZeroString :: string where "sigZeroString \<equiv> ''z''"

definition err :: "body \<Rightarrow> go_error option" where
  "err b =
     (case b_error b of
        Some e \<Rightarrow> Some e
      | None \<Rightarrow>
          if length (signature b) \<noteq> 0 then Some (ErrTrailingElements (signature b))
          else if length (b_buffer b) \<noteq> 0 then Some (ErrTrailingData (length (b_buffer b)))
          else None)"

section \<open>Writing\<close>

definition writeSig :: "body \<Rightarrow> string \<Rightarrow> body" where
  "writeSig b next = b\<lparr>signature := signature b @ next\<rparr>"

definition writeAttributeArray :: "body \<Rightarrow> attribute list \<Rightarrow> body" where
  "writeAttributeArray b a =
     (let b = writeSig b sigAttributeArray;
          buf = addUint32 (b_buffer b) (of_nat (length a))
      in b\<lparr>b_buffer := foldl addAttribute buf a\<rparr>)"

definition writeByte :: "body \<Rightarrow> byte \<Rightarrow> body" where
  "writeByte b c = (let b = writeSig b sigByte in b\<lparr>b_buffer := addByte (b_buffer b) c\<rparr>)"

definition writeByteArray :: "body \<Rightarrow> bytes option \<Rightarrow> uint32 \<Rightarrow> body" where
  "writeByteArray b a n =
     (let b = writeSig b sigByteArray in
      case a of
        None \<Rightarrow> b\<lparr>b_buffer := addUint32 (addByte (b_buffer b) 0) n\<rparr>
      | Some v \<Rightarrow> b\<lparr>b_buffer := addByteArray (addByte (b_buffer b) 1) v\<rparr>)"

definition writeUlong :: "body \<Rightarrow> uint64 \<Rightarrow> body" where
  "writeUlong b n = (let b = writeSig b sigUlong in b\<lparr>b_buffer := addUint64 (b_buffer b) n\<rparr>)"

definition writeUlongArray :: "body \<Rightarrow> uint64 list option \<Rightarrow> uint32 \<Rightarrow> body" where
  "writeUlongArray b a n =
     (let b = writeSig b sigUlongArray in
      case a of
        None \<Rightarrow> b\<lparr>b_buffer := addUint32 (addByte (b_buffer b) 0) n\<rparr>
      | Some v \<Rightarrow>
          b\<lparr>b_buffer := foldl addUint64 (addUint32 (addByte (b_buffer b) 1) (of_nat (length v))) v\<rparr>)"

definition writeString :: "body \<Rightarrow> string \<Rightarrow> uint32 \<Rightarrow> body" where
  "writeString b s n =
     (let b = writeSig b sigString;
          buf = addUint32 (b_buffer b) n
      in b\<lparr>b_buffer := foldl (\<lambda>buf i. if i < length s then addByte buf (of_char (s ! i))
                                       else addByte buf 32) buf [0..<unat n]\<rparr>)"

definition writeVersion :: "body \<Rightarrow> Version \<Rightarrow> body" where
  "writeVersion b v =
     (let b = writeSig b sigVersion
      in b\<lparr>b_buffer := addByte (addByte (b_buffer b) (Major v)) (Minor v)\<rparr>)"

section \<open>Reading\<close>

definition sig :: "body \<Rightarrow> string \<Rightarrow> bool \<times> body" where
  "sig b want =
     (if b_error b \<noteq> None then (False, b)
      else if \<not> has_prefix (signature b) want
      then (False, b\<lparr>b_error := Some (ErrInvalidSignature want (signature b))\<rparr>)
      else (True, b\<lparr>signature := trim_prefix (signature b) want\<rparr>))"

text \<open>\<open>decode want f d\<close>: the field's value, or \<open>d\<close>, its variable's initial value.\<close>

definition decode :: "string \<Rightarrow> 'a reader \<Rightarrow> 'a \<Rightarrow> body \<Rightarrow> 'a \<times> body" where
  "decode want f d b =
     (if b_error b \<noteq> None then (d, b)
      else (case sig b want of
          (False, b) \<Rightarrow> (d, b)
        | (True, b) \<Rightarrow>
            (case f (b_buffer b) of
               (Some x, buf) \<Rightarrow> (x, b\<lparr>b_buffer := buf\<rparr>)
             | (None, buf) \<Rightarrow> (d, b\<lparr>b_buffer := buf, b_error := Some ErrUnexpectedEOF\<rparr>))))"

definition readByte :: "body \<Rightarrow> byte \<times> body" where
  "readByte = decode sigByte buffer_byte 0"

definition readAttributeArray :: "body \<Rightarrow> attribute list \<times> body" where
  "readAttributeArray =
     decode sigAttributeArray
       (rd_bind buffer_uint32 (\<lambda>length. rd_repeat (unat length) buffer_attribute)) []"

text \<open>The slice, nil without contents, and the length a client asks for without contents.\<close>

definition buffer_content :: "(bytes option \<times> uint32) reader" where
  "buffer_content = rd_bind buffer_byte (\<lambda>hasContent.
     if hasContent \<noteq> 0 then rd_bind buffer_byteArray (\<lambda>arr. rd_return (arr, 0))
     else rd_bind buffer_uint32 (\<lambda>arrLen. rd_return (None, arrLen)))"

definition readByteArray :: "body \<Rightarrow> (bytes option \<times> uint32) \<times> body" where
  "readByteArray = decode sigByteArray buffer_content (None, 0)"

definition readZeroString :: "body \<Rightarrow> string \<times> body" where
  "readZeroString =
     decode sigZeroString (rd_bind buffer_byteArray (\<lambda>arr. rd_return (string_of (slice arr)))) []"

definition readUlong :: "body \<Rightarrow> uint64 \<times> body" where
  "readUlong = decode sigUlong buffer_uint64 0"

definition readUlongBuffer :: "body \<Rightarrow> uint32 \<times> body" where
  "readUlongBuffer = decode sigUlongBuffer buffer_uint32 0"

definition readByteBuffer :: "body \<Rightarrow> uint32 \<times> body" where
  "readByteBuffer = decode sigByteBuffer buffer_uint32 0"

definition readMechanism :: "body \<Rightarrow> mechanism \<times> body" where
  "readMechanism = decode sigMechanism buffer_mechanism zero_mechanism"

definition readAttributeBuffer :: "body \<Rightarrow> attributeTemplate list \<times> body" where
  "readAttributeBuffer =
     decode sigAttributeBuffer
       (rd_bind buffer_uint32 (\<lambda>count. rd_repeat (unat count) buffer_attributeTemplate)) []"

text \<open>
  Go's loops over a count read \<open>append\<close> element after element, \<open>rd_repeat\<close>; the
  loop variable is a \<^verbatim>\<open>uint32\<close> below the \<^verbatim>\<open>uint32\<close> count, so it never wraps.
\<close>

section \<open>The interface of a field reader\<close>

text \<open>
  What a handler may rely on when it reads a field with \<open>rd\<close>, whose signature is
  \<open>sg\<close>, whose bytes \<open>f\<close> decodes and whose variable starts as \<open>d\<close>: nothing happens
  after an error, and the body afterwards is free of errors only if the signature
  began with \<open>sg\<close> and the bytes decoded.
\<close>

locale field_reader =
  fixes rd :: "body \<Rightarrow> 'a \<times> body" and sg :: string and f :: "'a reader" and d :: 'a
  assumes sticky: "b_error b \<noteq> None \<Longrightarrow> rd b = (d, b)"
    and mismatch: "b_error b = None \<Longrightarrow> \<not> has_prefix (signature b) sg \<Longrightarrow>
      rd b = (d, b\<lparr>b_error := Some (ErrInvalidSignature sg (signature b))\<rparr>)"
    and short: "b_error b = None \<Longrightarrow> signature b = sg @ s \<Longrightarrow> f (b_buffer b) = (None, buf) \<Longrightarrow>
      rd b = (d, b\<lparr>signature := s, b_buffer := buf, b_error := Some ErrUnexpectedEOF\<rparr>)"
    and reads: "b_error b = None \<Longrightarrow> signature b = sg @ s \<Longrightarrow> f (b_buffer b) = (Some x, buf) \<Longrightarrow>
      rd b = (x, b\<lparr>signature := s, b_buffer := buf\<rparr>)"
begin

lemma keeps_call: "b_call (snd (rd b)) = b_call b"
proof (cases "b_error b = None \<and> has_prefix (signature b) sg")
  case True
  then obtain s where s: "signature b = sg @ s" by (auto simp: has_prefix_iff)
  show ?thesis
  proof (cases "f (b_buffer b)")
    case (Pair v buf)
    then show ?thesis using True s short [OF _ s] reads [OF _ s] by (cases v) auto
  qed
next
  case False
  then show ?thesis using sticky [of b] mismatch [of b] by (cases "b_error b") auto
qed

lemma no_error_back:
  assumes "rd b = (x, b')" and "b_error b' = None"
  shows "b_error b = None \<and> signature b = sg @ signature b' \<and>
    f (b_buffer b) = (Some x, b_buffer b') \<and> b_call b' = b_call b"
proof -
  have none: "b_error b = None" using assms sticky [of b] by (cases "b_error b") auto
  have "has_prefix (signature b) sg" using assms none mismatch [of b] by (rule_tac ccontr) auto
  then obtain s where s: "signature b = sg @ s" by (auto simp: has_prefix_iff)
  obtain v buf where fb: "f (b_buffer b) = (v, buf)" by (cases "f (b_buffer b)")
  then have "v \<noteq> None" using assms short [OF none s] by (cases v) auto
  then obtain y where v: "v = Some y" by blast
  have "rd b = (y, b\<lparr>signature := s, b_buffer := buf\<rparr>)"
    by (rule reads [OF none s]) (simp add: fb v)
  then show ?thesis using assms(1) none s fb v by simp
qed

text \<open>Errors never go away: the first one met is the one reported.\<close>

lemma error_stays: "b_error b = Some e \<Longrightarrow> b_error (snd (rd b)) = Some e"
  using sticky [of b] by simp

end

lemma decode_field_reader: "field_reader (decode sg f d) sg f d"
  by unfold_locales (auto simp: decode_def sig_def split: option.splits)

interpretation byte_field: field_reader readByte sigByte buffer_byte 0
  unfolding readByte_def by (rule decode_field_reader)

interpretation attributeArray_field: field_reader readAttributeArray sigAttributeArray
    "rd_bind buffer_uint32 (\<lambda>length. rd_repeat (unat length) buffer_attribute)" "[]"
  unfolding readAttributeArray_def by (rule decode_field_reader)

interpretation byteArray_field: field_reader readByteArray sigByteArray buffer_content "(None, 0)"
  unfolding readByteArray_def by (rule decode_field_reader)

interpretation zeroString_field: field_reader readZeroString sigZeroString
    "rd_bind buffer_byteArray (\<lambda>arr. rd_return (string_of (slice arr)))" "[]"
  unfolding readZeroString_def by (rule decode_field_reader)

interpretation ulong_field: field_reader readUlong sigUlong buffer_uint64 0
  unfolding readUlong_def by (rule decode_field_reader)

interpretation ulongBuffer_field: field_reader readUlongBuffer sigUlongBuffer buffer_uint32 0
  unfolding readUlongBuffer_def by (rule decode_field_reader)

interpretation byteBuffer_field: field_reader readByteBuffer sigByteBuffer buffer_uint32 0
  unfolding readByteBuffer_def by (rule decode_field_reader)

interpretation mechanism_field:
  field_reader readMechanism sigMechanism buffer_mechanism zero_mechanism
  unfolding readMechanism_def by (rule decode_field_reader)

interpretation attributeBuffer_field: field_reader readAttributeBuffer sigAttributeBuffer
    "rd_bind buffer_uint32 (\<lambda>count. rd_repeat (unat count) buffer_attributeTemplate)" "[]"
  unfolding readAttributeBuffer_def by (rule decode_field_reader)

lemma err_None_iff:
  "err b = None \<longleftrightarrow> b_error b = None \<and> signature b = [] \<and> b_buffer b = []"
  by (simp add: err_def split: option.splits)

section \<open>The interface of a field writer\<close>

text \<open>
  A writer appends a signature and an encoding and touches nothing else.
  \<open>field_pair\<close> joins a writer and a reader of the same signature whose bytes form a
  codec: what one writes the other reads, in any response and before any other field.
\<close>

locale field_writer =
  fixes wr :: "body \<Rightarrow> 'a \<Rightarrow> body" and sg :: string and enc :: "'a \<Rightarrow> bytes"
  assumes appends:
    "wr b x = b\<lparr>signature := signature b @ sg, b_buffer := b_buffer b @ enc x\<rparr>"
begin

lemma wr_fields [simp]:
  "signature (wr b x) = signature b @ sg" "b_buffer (wr b x) = b_buffer b @ enc x"
  "b_error (wr b x) = b_error b" "b_call (wr b x) = b_call b"
  by (simp_all add: appends)

end

locale field_pair = field_writer wr sg enc + field_reader rd sg f d + codec enc f ok
  for wr :: "body \<Rightarrow> 'a \<Rightarrow> body" and sg enc rd f d ok
begin

lemma read_written:
  assumes "ok x" and "b_error b = None" and "signature b = sg @ s"
    and "b_buffer b = enc x @ buf"
  shows "rd b = (x, b\<lparr>signature := s, b_buffer := buf\<rparr>)"
  using reads [OF assms(2,3)] assms(1,4) dec_enc by simp

lemma read_after_write:
  assumes "ok x" and "b_error b = None" and "signature b = []" and "b_buffer b = []"
  shows "rd (wr b x) = (x, b)"
proof -
  have "rd (wr b x) = (x, (wr b x)\<lparr>signature := [], b_buffer := []\<rparr>)"
    by (rule read_written) (use assms in simp_all)
  then show ?thesis using assms by (simp add: appends)
qed

end

lemma foldl_addAttribute: "foldl addAttribute buf a = buf @ concat (map (addAttribute []) a)"
  by (rule foldl_appending) (rule addAttribute_append)

lemma foldl_addUint64: "foldl addUint64 buf a = buf @ concat (map (addUint64 []) a)"
  by (rule foldl_appending) (rule addUint64_append)

definition enc_attributes :: "attribute list \<Rightarrow> bytes" where
  "enc_attributes a = addUint32 [] (of_nat (length a)) @ concat (map (addAttribute []) a)"

definition enc_content :: "bytes option \<times> uint32 \<Rightarrow> bytes" where
  "enc_content c = (case fst c of
      None \<Rightarrow> addUint32 (addByte [] 0) (snd c)
    | Some v \<Rightarrow> addByteArray (addByte [] 1) v)"

definition enc_ulongs :: "uint64 list option \<times> uint32 \<Rightarrow> bytes" where
  "enc_ulongs c = (case fst c of
      None \<Rightarrow> addUint32 (addByte [] 0) (snd c)
    | Some v \<Rightarrow> addUint32 (addByte [] 1) (of_nat (length v)) @ concat (map (addUint64 []) v))"

interpretation ulong_pair:
  field_pair writeUlong sigUlong "addUint64 []" readUlong buffer_uint64 0 "\<lambda>_. True"
  by unfold_locales (simp add: writeUlong_def writeSig_def addUint64_def)

interpretation byte_pair:
  field_pair writeByte sigByte "addByte []" readByte buffer_byte 0 "\<lambda>_. True"
  by unfold_locales (simp add: writeByte_def writeSig_def addByte_def)

lemma attributes_codec:
  "codec enc_attributes
     (rd_bind buffer_uint32 (\<lambda>length. rd_repeat (unat length) buffer_attribute))
     (\<lambda>a. length a < 0x100000000 \<and> (\<forall>x \<in> set a. wire_attribute x))"
proof
  fix a and rest :: bytes
  assume a: "length a < 0x100000000 \<and> (\<forall>x \<in> set a. wire_attribute x)"
  then have "unat (of_nat (length a) :: uint32) = length a"
    by (simp add: unat_of_nat take_bit_nat_eq_self_iff)
  then show "rd_bind buffer_uint32 (\<lambda>length. rd_repeat (unat length) buffer_attribute)
      (enc_attributes a @ rest) = (Some a, rest)"
    using a by (simp add: enc_attributes_def addUint32_def codec_simps
        attribute_codec.repeat_dec_enc)
qed

interpretation attributes_pair:
  field_pair writeAttributeArray sigAttributeArray enc_attributes readAttributeArray
    "rd_bind buffer_uint32 (\<lambda>length. rd_repeat (unat length) buffer_attribute)" "[]"
    "\<lambda>a. length a < 0x100000000 \<and> (\<forall>x \<in> set a. wire_attribute x)"
proof (intro field_pair.intro attributes_codec attributeArray_field.field_reader_axioms)
  show "field_writer writeAttributeArray sigAttributeArray enc_attributes"
    by unfold_locales (simp add: writeAttributeArray_def writeSig_def foldl_addAttribute
        enc_attributes_def addUint32_def)
qed

lemma content_codec:
  "codec enc_content buffer_content
     (\<lambda>c. case fst c of None \<Rightarrow> True | Some v \<Rightarrow> length v < 0xffffffff \<and> snd c = 0)"
proof
  fix c :: "bytes option \<times> uint32" and rest :: bytes
  assume "case fst c of None \<Rightarrow> True | Some v \<Rightarrow> length v < 0xffffffff \<and> snd c = 0"
  then show "buffer_content (enc_content c @ rest) = (Some c, rest)"
    by (cases c) (auto simp: buffer_content_def enc_content_def addByte_def codec_simps
        addUint32_append [of "[x]" for x] addByteArray_append [of "[x]" for x]
        addUint32_def [of "[]"] split: option.splits)
qed

interpretation content_pair:
  field_pair "\<lambda>b c. writeByteArray b (fst c) (snd c)" sigByteArray enc_content readByteArray
    buffer_content "(None, 0)"
    "\<lambda>c. case fst c of None \<Rightarrow> True | Some v \<Rightarrow> length v < 0xffffffff \<and> snd c = 0"
proof (intro field_pair.intro content_codec byteArray_field.field_reader_axioms)
  show "field_writer (\<lambda>b c. writeByteArray b (fst c) (snd c)) sigByteArray enc_content"
    by unfold_locales (auto simp: writeByteArray_def writeSig_def enc_content_def addByte_def
        addUint32_append [of "xs @ ys" for xs ys] addUint32_append [of "[x]" for x]
        addByteArray_append [of "xs @ ys" for xs ys] addByteArray_append [of "[x]" for x]
        split: option.splits)
qed

interpretation ulongs_writer:
  field_writer "\<lambda>b c. writeUlongArray b (fst c) (snd c)" sigUlongArray enc_ulongs
  by unfold_locales (auto simp: writeUlongArray_def writeSig_def enc_ulongs_def addByte_def
      foldl_addUint64 addUint32_append [of "xs @ ys" for xs ys] addUint32_append [of "[x]" for x]
      split: option.splits)

definition enc_version :: "Version \<Rightarrow> bytes" where
  "enc_version v = [Major v, Minor v]"

interpretation version_writer: field_writer writeVersion sigVersion enc_version
  by unfold_locales (simp add: writeVersion_def writeSig_def enc_version_def addByte_def)

text \<open>A string field is its width and exactly that many bytes: cut off, or padded with spaces.\<close>

definition enc_string :: "string \<times> uint32 \<Rightarrow> bytes" where
  "enc_string c =
     addUint32 [] (snd c) @ take (unat (snd c)) (bytes_of (fst c)) @
       replicate (unat (snd c) - length (fst c)) 32"

lemma string_loop:
  "foldl (\<lambda>buf i. if i < length s then addByte buf (of_char (s ! i)) else addByte buf 32) buf [0..<n]
     = buf @ take n (bytes_of s) @ replicate (n - length s) 32"
proof (induction n)
  case 0
  then show ?case by simp
next
  case (Suc n)
  show ?case
  proof (cases "n < length s")
    case True
    then show ?thesis using Suc.IH
      by (simp add: addByte_def bytes_of_def take_Suc_conv_app_nth)
  next
    case False
    then have "Suc n - length s = Suc (n - length s)" by simp
    then show ?thesis using False Suc.IH
      by (simp add: addByte_def replicate_append_same)
  qed
qed

interpretation string_writer:
  field_writer "\<lambda>b c. writeString b (fst c) (snd c)" sigString enc_string
  by unfold_locales (simp add: writeString_def writeSig_def enc_string_def string_loop
      addUint32_def del: upt_Suc)

lemma enc_string_length: "length (enc_string c) = 4 + unat (snd c)"
  by (simp add: enc_string_def min_def)

end
