(* ===== verification/Session.thy ===== *)
theory Session
  imports Derive Body "HOL-Library.AList"
begin

text \<open>
  The state of \<^verbatim>\<open>p11kit/p11kit.go\<close>: slots and their \<^verbatim>\<open>Handler\<close>, the sessions of one
  connection and its \<^verbatim>\<open>handler\<close>, with the operations on them that the requests share.
\<close>

section \<open>State\<close>

text \<open>
  \<open>GetObjects\<close> and \<open>MechanismInfo\<close> are callbacks of the embedding program, named by a
  number that \<open>env_GetObjects\<close> and \<open>env_MechanismInfo\<close> interpret; \<open>None\<close> is nil.
\<close>

record slot =
  slot_ID :: uint64
  Description :: string
  Label :: string
  slot_Manufacturer :: string
  Model :: string
  Serial :: string
  HardwareVersion :: Version
  FirmwareVersion :: Version
  Objects :: "object list"
  GetObjects :: "nat option"
  Mechanisms :: "uint64 list option"
  MechanismInfo :: "nat option"
  Initialized :: bool

record Handler =
  Manufacturer :: string
  Library :: string
  LibraryVersion :: Version
  Slots :: "slot list"

record session =
  s_objects :: "object list"
  findMatches :: "uint64 list"
  signMechanism :: mechanism
  signObject :: object
  signData :: bytes
  s_slotID :: uint64

text \<open>The map of sessions is an association list; nil and empty are the same to the code.\<close>

record handler =
  lastSessionID :: uint64
  sessions :: "(uint64 \<times> session) list"

text \<open>What one request runs on: the world, the shared server and its own connection.\<close>

record 'w state =
  world :: 'w
  server :: Handler
  conn :: handler

definition new_handler :: handler where
  "new_handler = \<lparr>lastSessionID = 0, sessions = []\<rparr>"

section \<open>Actions on parts of the state\<close>

definition on_world :: "('w, 'a) act \<Rightarrow> ('w state, 'a) act" where
  "on_world m st = (case m (world st) of (r, w) \<Rightarrow> (r, st\<lparr>world := w\<rparr>))"

lemma on_world_parts [simp]:
  "server (snd (on_world m st)) = server st" "conn (snd (on_world m st)) = conn st"
  by (simp_all add: on_world_def split: prod.splits)

lemma on_world_iff: "on_world m st = (r, st') \<longleftrightarrow> m (world st) = (r, world st') \<and>
    st' = st\<lparr>world := world st'\<rparr>"
  by (auto simp: on_world_def split: prod.splits)

section \<open>Slots\<close>

definition slot_mechanisms :: "slot \<Rightarrow> uint64 list" where
  "slot_mechanisms s =
     (case Mechanisms s of
        Some ms \<Rightarrow> ms
      | None \<Rightarrow> [ucast ckmRSAKeyPairGen, ucast ckmRSAPKCS, ucast ckmRSAPKCSPSS,
                 ucast ckmECKeyPairGen, ucast ckmECDSA, ucast ckmECDH1Derive])"

abbreviation ckfHW :: uint64 where "ckfHW \<equiv> 0x00000001"
abbreviation ckfGenerateKeyPair :: uint64 where "ckfGenerateKeyPair \<equiv> 0x00010000"
abbreviation ckfDerive :: uint64 where "ckfDerive \<equiv> 0x00000010"
abbreviation ckfEncrypt :: uint64 where "ckfEncrypt \<equiv> 0x00000100"
abbreviation ckfDecrypt :: uint64 where "ckfDecrypt \<equiv> 0x00000200"
abbreviation ckfSign :: uint64 where "ckfSign \<equiv> 0x00000800"
abbreviation ckfVerify :: uint64 where "ckfVerify \<equiv> 0x00002000"

text \<open>The table of \<^verbatim>\<open>Slot.mechanismInfo\<close>: smallest size, largest size and flags.\<close>

definition default_mechanismInfo :: "uint64 \<Rightarrow> (uint64 \<times> uint64 \<times> uint64) result" where
  "default_mechanismInfo m =
     (if m = ucast ckmRSAKeyPairGen then Inr (0, 2 * 2 ^ 24, or ckfHW ckfGenerateKeyPair)
      else if m = ucast ckmRSAPKCS then Inr (0, 2 * 2 ^ 24, or ckfHW ckfSign)
      else if m = ucast ckmRSAPKCSPSS then Inr (0, 2 * 2 ^ 24, or ckfHW ckfSign)
      else if m = ucast ckmECKeyPairGen then Inr (0, 2 * 2 ^ 24, or ckfHW ckfGenerateKeyPair)
      else if m = ucast ckmECDSA then Inr (0, 2 * 2 ^ 24, or ckfHW ckfSign)
      else if m = ucast ckmECDH1Derive then Inr (0, 2 * 2 ^ 24, or ckfHW ckfDerive)
      else Inl (Pkcs11 errMechanismInvalid))"

definition slot_mechanismInfo ::
  "'w env \<Rightarrow> slot \<Rightarrow> uint64 \<Rightarrow> ('w, uint64 \<times> uint64 \<times> uint64) act" where
  "slot_mechanismInfo env s m =
     (case MechanismInfo s of
        Some cb \<Rightarrow> env_MechanismInfo env cb m
      | None \<Rightarrow> act_lift (default_mechanismInfo m))"

text \<open>
  \<^verbatim>\<open>handler.slot\<close> returns a pointer into \<^verbatim>\<open>h.s.Slots\<close>; here it is the index, so that what
  is written through the pointer changes the shared slot.
\<close>

fun slot_index :: "slot list \<Rightarrow> uint64 \<Rightarrow> nat option" where
  "slot_index [] i = None"
| "slot_index (s # ss) i = (if slot_ID s = i then Some 0 else map_option Suc (slot_index ss i))"

definition handler_slot :: "Handler \<Rightarrow> uint64 \<Rightarrow> nat result" where
  "handler_slot H i =
     (case slot_index (Slots H) i of None \<Rightarrow> Inl (Pkcs11 errSlotIDInvalid) | Some k \<Rightarrow> Inr k)"

definition update_slot :: "nat \<Rightarrow> (slot \<Rightarrow> slot) \<Rightarrow> Handler \<Rightarrow> Handler" where
  "update_slot k f H = H\<lparr>Slots := (Slots H)[k := f (Slots H ! k)]\<rparr>"

definition persistObject :: "uint64 \<Rightarrow> object \<Rightarrow> ('w state, unit) act" where
  "persistObject slotID obj st =
     (case handler_slot (server st) slotID of
        Inl e \<Rightarrow> (Inl e, st)
      | Inr k \<Rightarrow> (Inr (), st\<lparr>server :=
          update_slot k (\<lambda>s. s\<lparr>Objects := Objects s @ [obj]\<rparr>) (server st)\<rparr>))"

section \<open>Sessions\<close>

text \<open>
  The loop of \<^verbatim>\<open>newSession\<close> that looks for an unused id from the last one on; the ids wrap,
  and with all of them in use it never ends (\<open>None\<close>).
\<close>

partial_function (option) next_free :: "(uint64 \<times> 'a) list \<Rightarrow> uint64 \<Rightarrow> uint64 option" where
  "next_free tbl i = (if map_of tbl i = None then Some i else next_free tbl (i + 1))"

definition add_session :: "session \<Rightarrow> handler \<Rightarrow> (uint64 \<times> handler) option" where
  "add_session s h =
     (case next_free (sessions h) (lastSessionID h + 1) of
        None \<Rightarrow> None
      | Some i \<Rightarrow> Some (i, h\<lparr>lastSessionID := i, sessions := AList.update i s (sessions h)\<rparr>))"

definition remove_session :: "uint64 \<Rightarrow> handler \<Rightarrow> handler" where
  "remove_session i h = h\<lparr>sessions := AList.delete i (sessions h)\<rparr>"

definition update_session :: "uint64 \<Rightarrow> session \<Rightarrow> handler \<Rightarrow> handler" where
  "update_session i s h = h\<lparr>sessions := AList.update i s (sessions h)\<rparr>"

definition fresh_session :: "uint64 \<Rightarrow> object list \<Rightarrow> session" where
  "fresh_session slotID objs = \<lparr>s_objects = objs, findMatches = [],
     signMechanism = zero_mechanism, signObject = zero_object, signData = [], s_slotID = slotID\<rparr>"

definition slot_objects :: "'w env \<Rightarrow> nat \<Rightarrow> ('w state, object list) act" where
  "slot_objects env k st =
     (let objs = Objects (Slots (server st) ! k) in
      case GetObjects (Slots (server st) ! k) of
        None \<Rightarrow> (Inr objs, st)
      | Some cb \<Rightarrow> on_world (env_GetObjects env cb) st)"

definition newSession :: "'w env \<Rightarrow> uint64 \<Rightarrow> ('w state, uint64) act" where
  "newSession env slotID st =
     (case handler_slot (server st) slotID of
        Inl e \<Rightarrow> (Inl e, st)
      | Inr k \<Rightarrow> act_bind (slot_objects env k) (\<lambda>objs st.
          (case add_session (fresh_session slotID objs) (conn st) of
             None \<Rightarrow> (Inl NonTermination, st)
           | Some (i, h) \<Rightarrow> (Inr i, st\<lparr>conn := h\<rparr>))) st)"

definition handler_session :: "handler \<Rightarrow> uint64 \<Rightarrow> session result" where
  "handler_session h i =
     (if length (sessions h) = 0 then Inl (Pkcs11 errSessionHandleInvalid)
      else (case map_of (sessions h) i of
          None \<Rightarrow> Inl (Pkcs11 errSessionHandleInvalid)
        | Some s \<Rightarrow> Inr s))"

definition closeSession :: "uint64 \<Rightarrow> ('w state, unit) act" where
  "closeSession i st =
     (if length (sessions (conn st)) = 0 then (Inl (Pkcs11 errSessionHandleInvalid), st)
      else
        let found = map_of (sessions (conn st)) i;
            st = st\<lparr>conn := remove_session i (conn st)\<rparr> in
        if found = None then (Inl (Pkcs11 errSessionHandleInvalid), st) else (Inr (), st))"

text \<open>A session is a pointer in the map; writing a field through it is an update of its entry.\<close>

definition get_session :: "uint64 \<Rightarrow> ('w state, session) act" where
  "get_session i st = (handler_session (conn st) i, st)"

definition put_session :: "uint64 \<Rightarrow> session \<Rightarrow> ('w state, unit) act" where
  "put_session i s st =
     (Inr (), st\<lparr>conn := update_session i s (conn st)\<rparr>)"

section \<open>Operations of a session\<close>

fun object_in :: "object list \<Rightarrow> uint64 \<Rightarrow> object option" where
  "object_in [] i = None"
| "object_in (obj # objs) i = (if obj_id obj = i then Some obj else object_in objs i)"

definition session_object :: "session \<Rightarrow> uint64 \<Rightarrow> object result" where
  "session_object s i =
     (case object_in (s_objects s) i of
        None \<Rightarrow> Inl (Pkcs11 errObjectHandleInvalid) | Some obj \<Rightarrow> Inr obj)"

fun template_values ::
  "object \<Rightarrow> attributeTemplate list \<Rightarrow> attribute list \<times> bool \<Rightarrow> attribute list \<times> bool" where
  "template_values obj [] (as, allValid) = (as, allValid)"
| "template_values obj (t # ts) (as, allValid) =
     (case obj_attributeValue obj (t_typ t) of
        None \<Rightarrow> template_values obj ts (as @ [empty_attribute (t_typ t)], False)
      | Some a \<Rightarrow> template_values obj ts (as @ [a], allValid))"

definition session_attributeValue ::
  "session \<Rightarrow> uint64 \<Rightarrow> attributeTemplate list \<Rightarrow> (attribute list \<times> bool) result" where
  "session_attributeValue s i tmpl =
     (case session_object s i of
        Inl e \<Rightarrow> Inl e
      | Inr obj \<Rightarrow> Inr (template_values obj tmpl ([], True)))"

definition session_derive ::
  "'w env \<Rightarrow> mechanism \<Rightarrow> object \<Rightarrow> attribute list \<Rightarrow> ('w, object) act" where
  "session_derive env m base tmpl =
     (if m_typ m = ckmECDH1Derive then deriveECDH env m base tmpl
      else act_fail (Pkcs11 errMechanismInvalid))"

fun find_in :: "object list \<Rightarrow> attribute list \<Rightarrow> uint64 list \<Rightarrow> uint64 list" where
  "find_in [] tmpl found = found"
| "find_in (obj # objs) tmpl found =
     (if \<forall>a \<in> set tmpl. matches obj a then find_in objs tmpl (found @ [obj_id obj])
      else find_in objs tmpl found)"

definition session_find :: "session \<Rightarrow> attribute list \<Rightarrow> session" where
  "session_find s tmpl = s\<lparr>findMatches := find_in (s_objects s) tmpl (findMatches s)\<rparr>"

definition session_findNext :: "session \<Rightarrow> nat \<Rightarrow> uint64 list \<times> session" where
  "session_findNext s limit =
     (let m = findMatches s in
      if limit \<ge> length m then (m, s\<lparr>findMatches := []\<rparr>)
      else (take limit m, s\<lparr>findMatches := drop limit m\<rparr>))"

section \<open>Facts about slots\<close>

lemma slot_index_Some:
  "slot_index ss i = Some k \<Longrightarrow> k < length ss \<and> slot_ID (ss ! k) = i \<and> (\<forall>j < k. slot_ID (ss ! j) \<noteq> i)"
proof (induction ss arbitrary: k)
  case (Cons s ss)
  show ?case
  proof (cases "slot_ID s = i")
    case False
    then obtain j where "k = Suc j" "slot_index ss i = Some j" using Cons.prems by auto
    then show ?thesis using Cons.IH [of j] False by (auto simp: less_Suc_eq_0_disj)
  qed (use Cons.prems in auto)
qed simp

lemma slot_index_None: "slot_index ss i = None \<longleftrightarrow> i \<notin> slot_ID ` set ss"
  by (induction ss) auto

lemma slot_index_cong: "map slot_ID ss = map slot_ID ts \<Longrightarrow> slot_index ss i = slot_index ts i"
proof (induction ss arbitrary: ts)
  case (Cons s ss)
  then show ?case by (cases ts) auto
qed simp

lemma update_slot_IDs:
  assumes "\<And>s. slot_ID (f s) = slot_ID s"
  shows "map slot_ID (Slots (update_slot k f H)) = map slot_ID (Slots H)"
proof (cases "k < length (Slots H)")
  case True
  then show ?thesis
    using assms by (simp add: update_slot_def map_update list_update_same_conv)
next
  case False
  then have "(Slots H)[k := f (Slots H ! k)] = Slots H" by (simp add: list_update_beyond)
  then show ?thesis by (simp add: update_slot_def)
qed

lemma handler_slot_Inr: "handler_slot H i = Inr k \<longleftrightarrow> slot_index (Slots H) i = Some k"
  by (simp add: handler_slot_def split: option.splits)

section \<open>Facts about session ids\<close>

lemma next_free_SomeD: "next_free tbl i = Some k \<Longrightarrow> map_of tbl k = None"
  by (rule next_free.raw_induct [of "\<lambda>tbl _ k. map_of tbl k = None" tbl i k])
    (auto split: if_splits)

lemma next_free_step: "next_free tbl i = Some k \<longleftrightarrow>
    (if map_of tbl i = None then k = i else next_free tbl (i + 1) = Some k)"
  by (subst next_free.simps) auto

text \<open>With fewer than 2^64 sessions some id from any point on is unused, so the search ends.\<close>

lemma next_free_found:
  "map_of tbl (i + of_nat n) = None \<Longrightarrow> \<exists>k. next_free tbl i = Some k"
proof (induction n arbitrary: i)
  case 0
  then show ?case by (subst next_free.simps) simp
next
  case (Suc n)
  then have "\<exists>k. next_free tbl (i + 1) = Some k" by (intro Suc.IH) (simp add: add.assoc)
  then show ?case by (subst next_free.simps) simp
qed

lemma next_free_ends:
  fixes i :: uint64
  assumes "length tbl < 2 ^ 64"
  shows "\<exists>k. next_free tbl i = Some k"
proof -
  have "card (fst ` set tbl) < 2 ^ 64"
    using assms card_image_le [of "set tbl" fst] card_length [of tbl] by simp
  moreover have "card (UNIV :: uint64 set) = 2 ^ 64" by (simp add: card_word)
  ultimately have "fst ` set tbl \<noteq> UNIV" by (metis less_irrefl)
  then obtain j where "j \<notin> fst ` set tbl" by blast
  then have "map_of tbl (i + of_nat (unat (j - i))) = None" by (simp add: map_of_eq_None_iff)
  then show ?thesis by (rule next_free_found)
qed

section \<open>The interface of the session table\<close>

text \<open>
  What the handlers rely on: a new entry gets an unused key, and adding, removing and
  replacing an entry change that entry only. So the table is a finite map to its clients.
\<close>

locale fresh_table =
  fixes lookup :: "'t \<Rightarrow> 'k \<Rightarrow> 'v option" and add :: "'v \<Rightarrow> 't \<Rightarrow> ('k \<times> 't) option"
    and remove :: "'k \<Rightarrow> 't \<Rightarrow> 't" and put :: "'k \<Rightarrow> 'v \<Rightarrow> 't \<Rightarrow> 't"
  assumes add_unused: "add v t = Some (k, t') \<Longrightarrow> lookup t k = None"
    and add_map: "add v t = Some (k, t') \<Longrightarrow> lookup t' = (lookup t)(k \<mapsto> v)"
    and remove_map: "lookup (remove k t) = (lookup t)(k := None)"
    and put_map: "lookup (put k v t) = (lookup t)(k \<mapsto> v)"
begin

lemma add_keeps:
  "add v t = Some (k, t') \<Longrightarrow> lookup t j = Some w \<Longrightarrow> lookup t' j = Some w \<and> j \<noteq> k"
  using add_unused [of v t k t'] add_map [of v t k t'] by auto

lemma add_twice_differs:
  "add v t = Some (k, t') \<Longrightarrow> add w t' = Some (j, t'') \<Longrightarrow> j \<noteq> k"
  using add_map [of v t k t'] add_unused [of w t' j t''] by auto

lemma put_other: "j \<noteq> k \<Longrightarrow> lookup (put k v t) j = lookup t j"
  by (simp add: put_map)

lemma remove_other: "j \<noteq> k \<Longrightarrow> lookup (remove k t) j = lookup t j"
  by (simp add: remove_map)

lemma removed: "lookup (remove k t) k = None"
  by (simp add: remove_map)

lemma add_then_remove:
  "add v t = Some (k, t') \<Longrightarrow> lookup (remove k t') = lookup t"
  using add_unused [of v t k t'] add_map [of v t k t'] by (simp add: remove_map fun_upd_idem_iff)

end

definition lookup_session :: "handler \<Rightarrow> uint64 \<Rightarrow> session option" where
  "lookup_session h = map_of (sessions h)"

interpretation sess: fresh_table lookup_session add_session remove_session update_session
proof unfold_locales
  fix s h k h'
  assume add: "add_session s h = Some (k, h')"
  show "lookup_session h k = None"
    using add by (auto simp: add_session_def lookup_session_def dest: next_free_SomeD
        split: option.splits)
  show "lookup_session h' = (lookup_session h)(k \<mapsto> s)"
    using add by (auto simp: add_session_def lookup_session_def update_conv' split: option.splits)
qed (simp_all add: lookup_session_def remove_session_def update_session_def delete_conv' update_conv')

lemma handler_session_lookup: "handler_session h i =
    (case lookup_session h i of None \<Rightarrow> Inl (Pkcs11 errSessionHandleInvalid) | Some s \<Rightarrow> Inr s)"
  by (simp add: handler_session_def lookup_session_def)

lemma add_session_ends: "length (sessions h) < 2 ^ 64 \<Longrightarrow> \<exists>r. add_session s h = Some r"
  using next_free_ends [of "sessions h" "lastSessionID h + 1"] by (auto simp: add_session_def)

text \<open>Until the counter wraps, ids count up, so that none is ever used twice.\<close>

definition ids_below_last :: "handler \<Rightarrow> bool" where
  "ids_below_last h \<longleftrightarrow> (\<forall>k. lookup_session h k \<noteq> None \<longrightarrow> k \<le> lastSessionID h)"

lemma add_session_counts:
  assumes "ids_below_last h" and "lastSessionID h \<noteq> - 1"
  shows "\<exists>h'. add_session s h = Some (lastSessionID h + 1, h') \<and>
    lastSessionID h' = lastSessionID h + 1 \<and> lastSessionID h < lastSessionID h' \<and> ids_below_last h'"
proof -
  have less: "lastSessionID h < lastSessionID h + 1"
    using assms(2) by (rule word_less_inc)
  then have free: "map_of (sessions h) (lastSessionID h + 1) = None"
    using assms(1) unfolding ids_below_last_def lookup_session_def by (metis leD option.distinct(1))
  let ?h = "h\<lparr>lastSessionID := lastSessionID h + 1,
    sessions := AList.update (lastSessionID h + 1) s (sessions h)\<rparr>"
  have add: "add_session s h = Some (lastSessionID h + 1, ?h)"
    by (subst add_session_def, subst next_free.simps) (simp add: free)
  have "ids_below_last ?h"
    using assms(1) less sess.add_map [OF add] unfolding ids_below_last_def
    by (auto intro: order_trans less_imp_le)
  then show ?thesis using add less by simp
qed

section \<open>Facts about the operations of a session\<close>

lemma object_in_Some: "object_in objs i = Some obj \<Longrightarrow> obj \<in> set objs \<and> obj_id obj = i"
  by (induction objs) (auto split: if_splits)

lemma object_in_append_old: "object_in objs i = Some obj \<Longrightarrow> object_in (objs @ others) i = Some obj"
  by (induction objs) (auto split: if_splits)

lemma find_in_filter: "find_in objs tmpl found =
    found @ map obj_id (filter (\<lambda>obj. \<forall>a \<in> set tmpl. matches obj a) objs)"
  by (induction objs tmpl found rule: find_in.induct) auto

lemma template_values_map: "template_values obj ts (as, v) =
    (as @ map (\<lambda>t. case obj_attributeValue obj (t_typ t) of
       None \<Rightarrow> empty_attribute (t_typ t) | Some a \<Rightarrow> a) ts,
     v \<and> (\<forall>t \<in> set ts. obj_attributeValue obj (t_typ t) \<noteq> None))"
  by (induction obj ts "(as, v)" arbitrary: as v rule: template_values.induct)
    (auto split: option.splits)

end
