(* ===== verification/Sign.thy ===== *)
theory Sign
  imports Object
begin

text \<open>
  Signing in \<^verbatim>\<open>p11kit/attribute.go\<close>: \<^verbatim>\<open>Object.sign\<close> and its three mechanisms. ECDSA
  converts the signer's DER signature to the fixed-width form of PKCS #11, RSA PKCS#1
  strips the DigestInfo prefix and hands over hash and digest, RSA-PSS checks that the
  mask generation function goes with the hash.
\<close>

section \<open>ECDSA\<close>

text \<open>The raw signature of \<open>width\<close> bytes for each number; \<open>FillBytes\<close> panics beyond that.\<close>

definition raw_signature :: "nat \<Rightarrow> int \<Rightarrow> int \<Rightarrow> bytes option result" where
  "raw_signature width r s =
     (let n = bitLen (nat \<bar>r\<bar>) in
      if n > width * 8 then Inl (ErrSignatureTooLarge (width * 8) n)
      else let n = bitLen (nat \<bar>s\<bar>) in
      if n > width * 8 then Inl (ErrSignatureTooLarge (width * 8) n)
      else (case (fillBytes (nat \<bar>r\<bar>) width, fillBytes (nat \<bar>s\<bar>) width) of
              (Some rb, Some sb) \<Rightarrow> Inr (Some (rb @ sb))
            | _ \<Rightarrow> Inl RuntimePanic))"

definition signECDSA ::
  "'w env \<Rightarrow> signer \<Rightarrow> mechanism \<Rightarrow> bytes \<Rightarrow> ('w, bytes option) act" where
  "signECDSA env priv m data =
     (if \<not> noParams m then act_fail (Pkcs11 errArgumentsBad)
      else act_bind (env_Sign env priv data (HashOpts NoHash)) (\<lambda>sig.
        (case unmarshalSig (slice sig) of
           None \<Rightarrow> act_fail ErrAsn1
         | Some (r, s) \<Rightarrow>
             (case signer_Public priv of
                EcdsaPublicKey c _ _ \<Rightarrow>
                  act_lift (raw_signature ((curve_N_BitLen c + 7) div 8) r s)
              | _ \<Rightarrow> act_fail ErrNotECDSAPublicKey))))"

section \<open>RSA PKCS#1 v1.5\<close>

definition hashPrefixes :: "(hash \<times> bytes) list" where
  "hashPrefixes =
    [(SHA224, [0x30, 0x2d, 0x30, 0x0d, 6, 9, 0x60, 0x86, 0x48, 1, 0x65, 3, 4, 2, 4, 5, 0, 4, 0x1c]),
     (SHA256, [0x30, 0x31, 0x30, 0x0d, 6, 9, 0x60, 0x86, 0x48, 1, 0x65, 3, 4, 2, 1, 5, 0, 4, 0x20]),
     (SHA384, [0x30, 0x41, 0x30, 0x0d, 6, 9, 0x60, 0x86, 0x48, 1, 0x65, 3, 4, 2, 2, 5, 0, 4, 0x30]),
     (SHA512, [0x30, 0x51, 0x30, 0x0d, 6, 9, 0x60, 0x86, 0x48, 1, 0x65, 3, 4, 2, 3, 5, 0, 4, 0x40])]"

text \<open>
  The loop over the map \<^verbatim>\<open>hashPrefixes\<close>, in the order given: Go's order is not fixed,
  and \<open>split_prefix_order\<close> below shows that it does not matter.
\<close>

fun split_prefix :: "(hash \<times> bytes) list \<Rightarrow> bytes \<Rightarrow> (hash \<times> bytes) option" where
  "split_prefix [] data = None"
| "split_prefix ((h, prefix) # hs) data =
     (if \<not> has_prefix data prefix then split_prefix hs data
      else Some (h, trim_prefix data prefix))"

definition signRSAPKCS ::
  "'w env \<Rightarrow> signer \<Rightarrow> mechanism \<Rightarrow> bytes \<Rightarrow> ('w, bytes option) act" where
  "signRSAPKCS env priv m data =
     (if \<not> noParams m then act_fail (Pkcs11 errArgumentsBad)
      else (case split_prefix hashPrefixes data of
          Some (h, digest) \<Rightarrow> env_Sign env priv digest (HashOpts h)
        | None \<Rightarrow> act_fail (Pkcs11 errArgumentsBad)))"

section \<open>RSA-PSS\<close>

definition pss_hash :: "uint64 \<Rightarrow> (hash \<times> uint64) option" where
  "pss_hash alg =
     (if alg = ckmSHA256 then Some (SHA256, ckgMGF1SHA256)
      else if alg = ckmSHA384 then Some (SHA384, ckgMGF1SHA384)
      else if alg = ckmSHA512 then Some (SHA512, ckgMGF1SHA512)
      else None)"

definition signRSAPKCSPSS ::
  "'w env \<Rightarrow> signer \<Rightarrow> mechanism \<Rightarrow> bytes \<Rightarrow> ('w, bytes option) act" where
  "signRSAPKCSPSS env priv m data =
     (case m_params m of
        ParamsPSS p \<Rightarrow>
          (case pss_hash (hashAlg p) of
             None \<Rightarrow> act_fail (Pkcs11 errMechanismParamInvalid)
           | Some (h, g) \<Rightarrow>
               if g \<noteq> mgf p then act_fail (Pkcs11 errMechanismParamInvalid)
               else env_Sign env priv data (PSSOpts h (sint (saltLen p))))
      | _ \<Rightarrow> act_fail ErrPSSParams)"

section \<open>Signing with an object\<close>

definition sign :: "'w env \<Rightarrow> object \<Rightarrow> mechanism \<Rightarrow> bytes \<Rightarrow> ('w, bytes option) act" where
  "sign env obj m data =
     (case obj_priv obj of
        None \<Rightarrow> act_fail (Pkcs11 errKeyHandleInvalid)
      | Some priv \<Rightarrow>
          if m_typ m = ckmRSAPKCS then signRSAPKCS env priv m data
          else if m_typ m = ckmRSAPKCSPSS then signRSAPKCSPSS env priv m data
          else if m_typ m = ckmECDSA then signECDSA env priv m data
          else act_fail (Pkcs11 errMechanismInvalid))"

section \<open>Facts\<close>

lemma raw_signature_cases:
  "raw_signature width r s = x \<longleftrightarrow>
     (if bitLen (nat \<bar>r\<bar>) > width * 8 then x = Inl (ErrSignatureTooLarge (width * 8) (bitLen (nat \<bar>r\<bar>)))
      else if bitLen (nat \<bar>s\<bar>) > width * 8
      then x = Inl (ErrSignatureTooLarge (width * 8) (bitLen (nat \<bar>s\<bar>)))
      else (\<exists>rb sb. fillBytes (nat \<bar>r\<bar>) width = Some rb \<and> fillBytes (nat \<bar>s\<bar>) width = Some sb \<and>
        x = Inr (Some (rb @ sb))))"
  using fillBytes_bitLen [of "nat \<bar>r\<bar>" width] fillBytes_bitLen [of "nat \<bar>s\<bar>" width]
  by (auto simp: raw_signature_def Let_def mult.commute)

text \<open>A raw signature is twice \<open>width\<close> bytes and both numbers can be read back.\<close>

lemma raw_signature_split:
  assumes "raw_signature width r s = Inr sig" and "0 \<le> r" and "0 \<le> s"
  shows "length (slice sig) = 2 * width \<and> int (setBytes (take width (slice sig))) = r \<and>
    int (setBytes (drop width (slice sig))) = s"
proof -
  obtain rb sb where "fillBytes (nat \<bar>r\<bar>) width = Some rb" "fillBytes (nat \<bar>s\<bar>) width = Some sb"
    "sig = Some (rb @ sb)"
    using assms(1) unfolding raw_signature_cases by (auto split: if_splits)
  then show ?thesis using assms(2,3) by (auto dest!: fillBytes_SomeD)
qed

lemma raw_signature_no_panic: "raw_signature width r s \<noteq> Inl RuntimePanic"
  unfolding raw_signature_cases by auto

lemma has_prefix_same:
  "has_prefix data p \<Longrightarrow> has_prefix data q \<Longrightarrow> length p = length q \<Longrightarrow> p = q"
  by (auto simp: has_prefix_iff)

lemma hashPrefixes_lengths: "(h, p) \<in> set hashPrefixes \<Longrightarrow> length p = 19"
  by (auto simp: hashPrefixes_def)

lemma hashPrefixes_inj:
  "(h, p) \<in> set hashPrefixes \<Longrightarrow> (k, p) \<in> set hashPrefixes \<Longrightarrow> h = k"
  by (auto simp: hashPrefixes_def)

text \<open>
  The loop is a choice: it finds an entry whose prefix starts the data, and for the
  prefixes of the code that entry is unique.
\<close>

lemma split_prefix_Some:
  "split_prefix hs data = Some (h, d) \<Longrightarrow> \<exists>p. (h, p) \<in> set hs \<and> data = p @ d"
  by (induction hs data rule: split_prefix.induct) (auto simp: has_prefix_iff split: if_splits)

lemma split_prefix_None:
  "split_prefix hs data = None \<longleftrightarrow> (\<forall>(h, p) \<in> set hs. \<not> has_prefix data p)"
  by (induction hs data rule: split_prefix.induct) auto

lemma split_prefix_iff:
  assumes "set hs = set hashPrefixes"
  shows "split_prefix hs data = Some (h, d) \<longleftrightarrow> (\<exists>p. (h, p) \<in> set hashPrefixes \<and> data = p @ d)"
proof
  assume "split_prefix hs data = Some (h, d)"
  then show "\<exists>p. (h, p) \<in> set hashPrefixes \<and> data = p @ d" using split_prefix_Some assms by blast
next
  assume "\<exists>p. (h, p) \<in> set hashPrefixes \<and> data = p @ d"
  then obtain p where p: "(h, p) \<in> set hashPrefixes" "data = p @ d" by blast
  then have "split_prefix hs data \<noteq> None" unfolding split_prefix_None using assms by fastforce
  then obtain k e where ke: "split_prefix hs data = Some (k, e)" by auto
  then obtain q where q: "(k, q) \<in> set hashPrefixes" "data = q @ e"
    using split_prefix_Some [OF ke] assms by auto
  have "p = q" using p q hashPrefixes_lengths by (metis append_eq_append_conv)
  moreover have "h = k" using p q \<open>p = q\<close> hashPrefixes_inj by blast
  ultimately show "split_prefix hs data = Some (h, d)" using ke p q by simp
qed

lemma split_prefix_order:
  assumes "set hs = set hashPrefixes"
  shows "split_prefix hs data = split_prefix hashPrefixes data"
proof (cases "split_prefix hashPrefixes data")
  case None
  then have "split_prefix hs data = None" using assms unfolding split_prefix_None by simp
  then show ?thesis using None by simp
next
  case (Some x)
  obtain h d where x: "x = (h, d)" by fastforce
  then have "split_prefix hs data = Some (h, d)"
    using Some by (simp only: split_prefix_iff [OF assms] split_prefix_iff [OF refl])
  then show ?thesis using Some x by simp
qed

text \<open>A key that \<open>supports\<close> a mechanism passes the guards of \<open>sign\<close> for it.\<close>

lemma supports_Inr:
  "supports obj m = Inr () \<longleftrightarrow>
     (\<exists>s. obj_priv obj = Some s \<and>
       ((\<exists>c x y. signer_Public s = EcdsaPublicKey c x y) \<and> m_typ m = ckmECDSA \<or>
        (\<exists>n e. signer_Public s = RsaPublicKey n e) \<and>
          (m_typ m = ckmRSAPKCS \<or> m_typ m = ckmRSAPKCSPSS)))"
  by (auto simp: supports_def split: option.splits public_key.splits)

end
