(* ===== verification/Message.thy ===== *)
theory Message
  imports Body
begin

text \<open>
  Calls and the framing of messages in \<^verbatim>\<open>p11kit/rpc.go\<close>: the \<^verbatim>\<open>call\<close> constants,
  \<^verbatim>\<open>readRequest\<close> and \<^verbatim>\<open>writeResponse\<close>. The connection's input is the list of
  bytes the client has sent and will send before it closes; \<^verbatim>\<open>io.ReadFull\<close> returns
  an error when that runs out, and has then consumed all of it.
\<close>

section \<open>Calls\<close>

type_synonym call = uint32

abbreviation callError :: call where "callError \<equiv> 0"
abbreviation callInitialize :: call where "callInitialize \<equiv> 1"
abbreviation callFinalize :: call where "callFinalize \<equiv> 2"
abbreviation callGetInfo :: call where "callGetInfo \<equiv> 3"
abbreviation callGetSlotList :: call where "callGetSlotList \<equiv> 4"
abbreviation callGetSlotInfo :: call where "callGetSlotInfo \<equiv> 5"
abbreviation callGetTokenInfo :: call where "callGetTokenInfo \<equiv> 6"
abbreviation callGetMechanismList :: call where "callGetMechanismList \<equiv> 7"
abbreviation callGetMechanismInfo :: call where "callGetMechanismInfo \<equiv> 8"
abbreviation callInitToken :: call where "callInitToken \<equiv> 9"
abbreviation callOpenSession :: call where "callOpenSession \<equiv> 10"
abbreviation callCloseSession :: call where "callCloseSession \<equiv> 11"
abbreviation callCloseAllSessions :: call where "callCloseAllSessions \<equiv> 12"
abbreviation callGetSessionInfo :: call where "callGetSessionInfo \<equiv> 13"
abbreviation callInitPIN :: call where "callInitPIN \<equiv> 14"
abbreviation callSetPIN :: call where "callSetPIN \<equiv> 15"
abbreviation callGetOperationState :: call where "callGetOperationState \<equiv> 16"
abbreviation callSetOperationState :: call where "callSetOperationState \<equiv> 17"
abbreviation callLogin :: call where "callLogin \<equiv> 18"
abbreviation callLogout :: call where "callLogout \<equiv> 19"
abbreviation callCreateObject :: call where "callCreateObject \<equiv> 20"
abbreviation callCopyObject :: call where "callCopyObject \<equiv> 21"
abbreviation callDestroyObject :: call where "callDestroyObject \<equiv> 22"
abbreviation callGetObjectSize :: call where "callGetObjectSize \<equiv> 23"
abbreviation callGetAttributeValue :: call where "callGetAttributeValue \<equiv> 24"
abbreviation callSetAttributeValue :: call where "callSetAttributeValue \<equiv> 25"
abbreviation callFindObjectsInit :: call where "callFindObjectsInit \<equiv> 26"
abbreviation callFindObjects :: call where "callFindObjects \<equiv> 27"
abbreviation callFindObjectsFinal :: call where "callFindObjectsFinal \<equiv> 28"
abbreviation callEncryptInit :: call where "callEncryptInit \<equiv> 29"
abbreviation callEncrypt :: call where "callEncrypt \<equiv> 30"
abbreviation callEncryptUpdate :: call where "callEncryptUpdate \<equiv> 31"
abbreviation callEncryptFinal :: call where "callEncryptFinal \<equiv> 32"
abbreviation callDecryptInit :: call where "callDecryptInit \<equiv> 33"
abbreviation callDecrypt :: call where "callDecrypt \<equiv> 34"
abbreviation callDecryptUpdate :: call where "callDecryptUpdate \<equiv> 35"
abbreviation callDecryptFinal :: call where "callDecryptFinal \<equiv> 36"
abbreviation callDigestInit :: call where "callDigestInit \<equiv> 37"
abbreviation callDigest :: call where "callDigest \<equiv> 38"
abbreviation callDigestUpdate :: call where "callDigestUpdate \<equiv> 39"
abbreviation callDigestKey :: call where "callDigestKey \<equiv> 40"
abbreviation callDigestFinal :: call where "callDigestFinal \<equiv> 41"
abbreviation callSignInit :: call where "callSignInit \<equiv> 42"
abbreviation callSign :: call where "callSign \<equiv> 43"
abbreviation callSignUpdate :: call where "callSignUpdate \<equiv> 44"
abbreviation callSignFinal :: call where "callSignFinal \<equiv> 45"
abbreviation callSignRecoverInit :: call where "callSignRecoverInit \<equiv> 46"
abbreviation callSignRecover :: call where "callSignRecover \<equiv> 47"
abbreviation callVerifyInit :: call where "callVerifyInit \<equiv> 48"
abbreviation callVerify :: call where "callVerify \<equiv> 49"
abbreviation callVerifyUpdate :: call where "callVerifyUpdate \<equiv> 50"
abbreviation callVerifyFinal :: call where "callVerifyFinal \<equiv> 51"
abbreviation callVerifyRecoverInit :: call where "callVerifyRecoverInit \<equiv> 52"
abbreviation callVerifyRecover :: call where "callVerifyRecover \<equiv> 53"
abbreviation callDigestEncryptUpdate :: call where "callDigestEncryptUpdate \<equiv> 54"
abbreviation callDecryptDigestUpdate :: call where "callDecryptDigestUpdate \<equiv> 55"
abbreviation callSignEncryptUpdate :: call where "callSignEncryptUpdate \<equiv> 56"
abbreviation callDecryptVerifyUpdate :: call where "callDecryptVerifyUpdate \<equiv> 57"
abbreviation callGenerateKey :: call where "callGenerateKey \<equiv> 58"
abbreviation callGenerateKeyPair :: call where "callGenerateKeyPair \<equiv> 59"
abbreviation callWrapKey :: call where "callWrapKey \<equiv> 60"
abbreviation callUnwrapKey :: call where "callUnwrapKey \<equiv> 61"
abbreviation callDeriveKey :: call where "callDeriveKey \<equiv> 62"
abbreviation callSeedRandom :: call where "callSeedRandom \<equiv> 63"
abbreviation callGenerateRandom :: call where "callGenerateRandom \<equiv> 64"
abbreviation callWaitForSlotEvent :: call where "callWaitForSlotEvent \<equiv> 65"

definition callStrings :: "(call \<times> string) list" where
  "callStrings =
    [(callInitialize, ''C_Initialize''),
     (callFinalize, ''C_Finalize''),
     (callGetInfo, ''C_GetInfo''),
     (callGetSlotList, ''C_GetSlotList''),
     (callGetSlotInfo, ''C_GetSlotInfo''),
     (callGetTokenInfo, ''C_GetTokenInfo''),
     (callGetMechanismList, ''C_GetMechanismList''),
     (callGetMechanismInfo, ''C_GetMechanismInfo''),
     (callInitToken, ''C_InitToken''),
     (callOpenSession, ''C_OpenSession''),
     (callCloseSession, ''C_CloseSession''),
     (callCloseAllSessions, ''C_CloseAllSessions''),
     (callGetSessionInfo, ''C_GetSessionInfo''),
     (callInitPIN, ''C_InitPIN''),
     (callSetPIN, ''C_SetPIN''),
     (callGetOperationState, ''C_GetOperationState''),
     (callSetOperationState, ''C_SetOperationState''),
     (callLogin, ''C_Login''),
     (callLogout, ''C_Logout''),
     (callCreateObject, ''C_CreateObject''),
     (callCopyObject, ''C_CopyObject''),
     (callDestroyObject, ''C_DestroyObject''),
     (callGetObjectSize, ''C_GetObjectSize''),
     (callGetAttributeValue, ''C_GetAttributeValue''),
     (callSetAttributeValue, ''C_SetAttributeValue''),
     (callFindObjectsInit, ''C_FindObjectsInit''),
     (callFindObjects, ''C_FindObjects''),
     (callFindObjectsFinal, ''C_FindObjectsFinal''),
     (callEncryptInit, ''C_EncryptInit''),
     (callEncrypt, ''C_Encrypt''),
     (callEncryptUpdate, ''C_EncryptUpdate''),
     (callEncryptFinal, ''C_EncryptFinal''),
     (callDecryptInit, ''C_DecryptInit''),
     (callDecrypt, ''C_Decrypt''),
     (callDecryptUpdate, ''C_DecryptUpdate''),
     (callDecryptFinal, ''C_DecryptFinal''),
     (callDigestInit, ''C_DigestInit''),
     (callDigest, ''C_Digest''),
     (callDigestUpdate, ''C_DigestUpdate''),
     (callDigestKey, ''C_DigestKey''),
     (callDigestFinal, ''C_DigestFinal''),
     (callSignInit, ''C_SignInit''),
     (callSign, ''C_Sign''),
     (callSignUpdate, ''C_SignUpdate''),
     (callSignFinal, ''C_SignFinal''),
     (callSignRecoverInit, ''C_SignRecoverInit''),
     (callSignRecover, ''C_SignRecover''),
     (callVerifyInit, ''C_VerifyInit''),
     (callVerify, ''C_Verify''),
     (callVerifyUpdate, ''C_VerifyUpdate''),
     (callVerifyFinal, ''C_VerifyFinal''),
     (callVerifyRecoverInit, ''C_VerifyRecoverInit''),
     (callVerifyRecover, ''C_VerifyRecover''),
     (callDigestEncryptUpdate, ''C_DigestEncryptUpdate''),
     (callDecryptDigestUpdate, ''C_DecryptDigestUpdate''),
     (callSignEncryptUpdate, ''C_SignEncryptUpdate''),
     (callDecryptVerifyUpdate, ''C_DecryptVerifyUpdate''),
     (callGenerateKey, ''C_GenerateKey''),
     (callGenerateKeyPair, ''C_GenerateKeyPair''),
     (callWrapKey, ''C_WrapKey''),
     (callUnwrapKey, ''C_UnwrapKey''),
     (callDeriveKey, ''C_DeriveKey''),
     (callSeedRandom, ''C_SeedRandom''),
     (callGenerateRandom, ''C_GenerateRandom''),
     (callWaitForSlotEvent, ''C_WaitForSlotEvent'')]"

definition call_String :: "call \<Rightarrow> string" where
  "call_String c =
     (case map_of callStrings c of
        Some s \<Rightarrow> s
      | None \<Rightarrow> ''unknown call('' @ decimal (unat c) @ '')'')"

section \<open>Framing\<close>

record header =
  h_ID :: uint32
  OptionsLen :: uint32
  BufferLen :: uint32

definition body_prefix :: "(uint32 \<times> bytes option) reader" where
  "body_prefix = rd_bind buffer_uint32 (\<lambda>callID. rd_bind buffer_byteArray (\<lambda>sigBytes.
     rd_return (callID, sigBytes)))"

definition read_header :: "header reader" where
  "read_header r =
     (if length r < 12 then (None, [])
      else (Some \<lparr>h_ID = bigEndianUint32 (take 4 r),
                  OptionsLen = bigEndianUint32 (take 4 (drop 4 r)),
                  BufferLen = bigEndianUint32 (take 4 (drop 8 r))\<rparr>, drop 12 r))"

text \<open>
  \<^verbatim>\<open>readRequest\<close>: the message id and the body, and the input left. The lengths are
  Go \<^verbatim>\<open>int\<close>s of 64 bits, whose sum cannot overflow.
\<close>

definition readRequest :: "bytes \<Rightarrow> (uint32 \<times> body) result \<times> bytes" where
  "readRequest r =
     (case read_header r of
        (None, r) \<Rightarrow> (Inl ErrReadHeader, r)
      | (Some h, r) \<Rightarrow>
          (let optsLen = unat (OptionsLen h);
               buffLen = unat (BufferLen h);
               n = optsLen + buffLen
           in if length r < n then (Inl ErrReadBody, [])
              else
                (let b = take n r; r = drop n r; buff = drop optsLen b
                 in case body_prefix buff of
                      (None, _) \<Rightarrow> (Inl ErrMalformedBody, r)
                    | (Some (callID, sigBytes), buff) \<Rightarrow>
                        (Inr (h_ID h, \<lparr>b_call = callID, signature = string_of (slice sigBytes),
                                      b_buffer = buff, b_error = None\<rparr>), r))))"

definition writeResponse :: "uint32 \<Rightarrow> body \<Rightarrow> bytes" where
  "writeResponse messageID b =
     (let bodyLen = 4 + 4 + length (signature b) + length (b_buffer b);
          buf = addUint32 [] messageID;
          buf = addUint32 buf 0;
          buf = addUint32 buf (of_nat bodyLen);
          buf = addUint32 buf (b_call b);
          buf = addByteArray buf (bytes_of (signature b))
      in buf @ b_buffer b)"

text \<open>A frame as a client may send it, with options.\<close>

definition frame :: "uint32 \<Rightarrow> bytes \<Rightarrow> body \<Rightarrow> bytes" where
  "frame messageID options b =
     putUint32 messageID @ putUint32 (of_nat (length options)) @
     putUint32 (of_nat (8 + length (signature b) + length (b_buffer b))) @ options @
     putUint32 (b_call b) @ addByteArray [] (bytes_of (signature b)) @ b_buffer b"

definition frame_ok :: "bytes \<Rightarrow> body \<Rightarrow> bool" where
  "frame_ok options b \<longleftrightarrow> length options < 0x100000000 \<and>
     8 + length (signature b) + length (b_buffer b) < 0x100000000"

lemma writeResponse_frame: "writeResponse messageID b = frame messageID [] b"
proof -
  have "addByteArray (x @ y) z = x @ y @ addByteArray [] z" for x y z :: bytes
    by (subst addByteArray_append) simp
  then show ?thesis
    by (simp add: writeResponse_def frame_def addUint32_def Let_def)
qed

lemma readRequest_frame:
  assumes "frame_ok options b"
  shows "readRequest (frame messageID options b @ rest) =
    (Inr (messageID, b\<lparr>b_error := None\<rparr>), rest)"
proof -
  let ?n = "8 + length (signature b) + length (b_buffer b)"
  let ?p = "putUint32 (b_call b) @ addByteArray [] (bytes_of (signature b)) @ b_buffer b"
  have o: "unat (of_nat (length options) :: uint32) = length options"
    and n: "unat (of_nat ?n :: uint32) = ?n"
    using assms by (simp_all only: frame_ok_def unat_of_nat take_bit_nat_eq_self_iff) auto
  have len: "length ?p = ?n" by simp
  have h: "read_header (frame messageID options b @ rest) =
      (Some \<lparr>h_ID = messageID, OptionsLen = of_nat (length options), BufferLen = of_nat ?n\<rparr>,
       options @ ?p @ rest)"
    by (simp add: read_header_def frame_def)
  have "body_prefix ?p = (Some (b_call b, Some (bytes_of (signature b))), b_buffer b)"
    using assms by (simp add: body_prefix_def codec_simps frame_ok_def)
  moreover have "take (length options + ?n) (options @ ?p @ rest) = options @ ?p"
    and "drop (length options + ?n) (options @ ?p @ rest) = rest"
    using len by simp_all
  ultimately show ?thesis
    using len by (simp add: readRequest_def h o n del: of_nat_add)
qed

lemma readRequest_shorter:
  assumes "readRequest r = (Inr x, r')"
  shows "length r' + 12 \<le> length r"
proof -
  from assms obtain h r1 where h: "read_header r = (Some h, r1)"
    by (auto simp: readRequest_def split: prod.splits option.splits)
  then have "length r = length r1 + 12" by (auto simp: read_header_def split: if_splits)
  moreover have "length r' \<le> length r1"
    using assms h by (auto simp: readRequest_def Let_def split: prod.splits option.splits if_splits)
  ultimately show ?thesis by simp
qed

end
