(* ===== verification/Handlers.thy ===== *)
theory Handlers
  imports Session Sign Message
begin

text \<open>
  The request handlers of \<^verbatim>\<open>p11kit/p11kit.go\<close>: each reads its fields from the request
  body, stops at the first error of reading, works on the state and writes its response
  fields. A handler that fails leaves the state as far as it got, as in the code.
\<close>

text \<open>\<^verbatim>\<open>if err := req.err(); err != nil { return nil, err }\<close>\<close>

definition checked :: "body \<Rightarrow> ('s, 'a) act \<Rightarrow> ('s, 'a) act" where
  "checked req m = (case err req of Some e \<Rightarrow> act_fail e | None \<Rightarrow> m)"

abbreviation cryptokiVersion :: Version where
  "cryptokiVersion \<equiv> \<lparr>Major = 0x02, Minor = 0x28\<rparr>"

definition get_slot :: "uint64 \<Rightarrow> ('w state, slot) act" where
  "get_slot i st =
     (case handler_slot (server st) i of
        Inl e \<Rightarrow> (Inl e, st) | Inr k \<Rightarrow> (Inr (Slots (server st) ! k), st))"

section \<open>The module, its slots and tokens\<close>

definition handshakeMessage :: string where
  "handshakeMessage = ''PRIVATE-GNOME-KEYRING-PKCS11-PROTOCOL-V-1''"

definition handleInitialize :: "body \<Rightarrow> ('w state, body) act" where
  "handleInitialize req =
     (let (handshake, req) = readByteArray req;
          (reserved, req) = readByte req;
          (_, req) = readByteArray req in
      checked req
        (if string_of (slice (fst handshake)) \<noteq> handshakeMessage
         then act_fail (ErrHandshake (slice (fst handshake)))
         else act_return (newResponse req)))"

definition handleGetInfo :: "body \<Rightarrow> ('w state, body) act" where
  "handleGetInfo req =
     checked req (\<lambda>st.
       let resp = newResponse req;
           resp = writeVersion resp cryptokiVersion;
           resp = writeString resp (Manufacturer (server st)) 32;
           resp = writeUlong resp 0;
           resp = writeString resp (Library (server st)) 32;
           resp = writeVersion resp (LibraryVersion (server st)) in
       (Inr resp, st))"

definition token_info :: "body \<Rightarrow> slot \<Rightarrow> body" where
  "token_info resp s =
     (let effectivelyInfinite = 0; unavailableInformation = - 1;
          flags = (if Initialized s then 0x00000400 else 0);
          resp = writeString resp (Label s) 32;
          resp = writeString resp (slot_Manufacturer s) 32;
          resp = writeString resp (Model s) 16;
          resp = writeString resp (Serial s) 16;
          resp = writeUlong resp flags;
          resp = writeUlong resp effectivelyInfinite;
          resp = writeUlong resp unavailableInformation;
          resp = writeUlong resp effectivelyInfinite;
          resp = writeUlong resp unavailableInformation;
          resp = writeUlong resp 0;
          resp = writeUlong resp 0;
          resp = writeUlong resp unavailableInformation;
          resp = writeUlong resp unavailableInformation;
          resp = writeUlong resp unavailableInformation;
          resp = writeUlong resp unavailableInformation;
          resp = writeVersion resp (HardwareVersion s);
          resp = writeVersion resp (FirmwareVersion s) in
      writeString resp [] 16)"

definition handleGetTokenInfo :: "body \<Rightarrow> ('w state, body) act" where
  "handleGetTokenInfo req =
     (let (slotID, req) = readUlong req in
      checked req
        (act_bind (get_slot slotID) (\<lambda>s. act_return (token_info (newResponse req) s))))"

definition handleGetSlotInfo :: "body \<Rightarrow> ('w state, body) act" where
  "handleGetSlotInfo req =
     (let (slotID, req) = readUlong req in
      checked req
        (act_bind (get_slot slotID) (\<lambda>s.
          let flags = or 0x01 0x04;
              resp = newResponse req;
              resp = writeString resp (Description s) 64;
              resp = writeString resp (slot_Manufacturer s) 32;
              resp = writeUlong resp flags;
              resp = writeVersion resp (HardwareVersion s);
              resp = writeVersion resp (FirmwareVersion s) in
          act_return resp)))"

definition handleGetMechanismList :: "body \<Rightarrow> ('w state, body) act" where
  "handleGetMechanismList req =
     (let (slotID, req) = readUlong req;
          (count, req) = readUlongBuffer req in
      checked req
        (act_bind (get_slot slotID) (\<lambda>s.
          let m = slot_mechanisms s;
              n = of_nat (length m) :: uint32;
              resp = newResponse req in
          if count = 0 then act_return (writeUlongArray resp None n)
          else if count < n then act_fail (Pkcs11 errBufferTooSmall)
          else act_return (writeUlongArray resp (Some m) n))))"

definition handleGetMechanismInfo :: "'w env \<Rightarrow> body \<Rightarrow> ('w state, body) act" where
  "handleGetMechanismInfo env req =
     (let (slotID, req) = readUlong req;
          (mech, req) = readUlong req in
      checked req
        (act_bind (get_slot slotID) (\<lambda>s.
          act_bind (on_world (slot_mechanismInfo env s mech)) (\<lambda>(minSize, maxSize, flags).
            let resp = newResponse req;
                resp = writeUlong resp minSize;
                resp = writeUlong resp maxSize in
            act_return (writeUlong resp flags)))))"

definition init_token :: "uint64 \<Rightarrow> string \<Rightarrow> ('w state, unit) act" where
  "init_token slotID label st =
     (case handler_slot (server st) slotID of
        Inl e \<Rightarrow> (Inl e, st)
      | Inr k \<Rightarrow>
          if Initialized (Slots (server st) ! k)
          then (Inl (Pkcs11 errCryptokiAlreadyInitialized), st)
          else (Inr (), st\<lparr>server := update_slot k
            (\<lambda>s. s\<lparr>Label := trim_right label (CHR '' '' # CHR 0x00 # []), Initialized := True\<rparr>)
            (server st)\<rparr>))"

definition handleInitToken :: "body \<Rightarrow> ('w state, body) act" where
  "handleInitToken req =
     (let (slotID, req) = readUlong req;
          (pin, req) = readByteArray req;
          (label, req) = readZeroString req in
      checked req
        (act_bind (init_token slotID label) (\<lambda>_. act_return (newResponse req))))"

definition handleGenerateRandom :: "body \<Rightarrow> ('w state, body) act" where
  "handleGenerateRandom req = act_fail (Pkcs11 errRandomNoRNG)"

definition handleSeedRandom :: "body \<Rightarrow> ('w state, body) act" where
  "handleSeedRandom req = act_fail (Pkcs11 errRandomNoRNG)"

definition handleGetSlotList :: "body \<Rightarrow> ('w state, body) act" where
  "handleGetSlotList req =
     (let (tokenPresent, req) = readByte req;
          (n, req) = readUlongBuffer req in
      checked req (\<lambda>st.
        let resp = newResponse req; slots = Slots (server st) in
        if n = 0 then (Inr (writeUlongArray resp None (of_nat (length slots))), st)
        else if unat n < length slots then (Inl (Pkcs11 errBufferTooSmall), st)
        else (Inr (writeUlongArray resp (Some (map slot_ID slots)) 0), st)))"

section \<open>Sessions\<close>

definition handleOpenSession :: "'w env \<Rightarrow> body \<Rightarrow> ('w state, body) act" where
  "handleOpenSession env req =
     (let (slotID, req) = readUlong req;
          (flags, req) = readUlong req in
      checked req
        (if and flags 0x00000004 = 0 then act_fail (Pkcs11 errSessionParallelNotSupported)
         else act_bind (newSession env slotID) (\<lambda>sessionID.
           act_return (writeUlong (newResponse req) sessionID))))"

definition handleCloseSession :: "body \<Rightarrow> ('w state, body) act" where
  "handleCloseSession req =
     (let (i, req) = readUlong req in
      checked req (act_bind (closeSession i) (\<lambda>_. act_return (newResponse req))))"

definition handleLogin :: "body \<Rightarrow> ('w state, body) act" where
  "handleLogin req =
     (let (sessionID, req) = readUlong req;
          (userType, req) = readUlong req;
          (pin, req) = readByteArray req in
      checked req
        (act_bind (get_session sessionID) (\<lambda>_.
          if userType \<noteq> ckuUser then act_fail (Pkcs11 errUserTypeInvalid)
          else act_return (newResponse req))))"

definition handleLogout :: "body \<Rightarrow> ('w state, body) act" where
  "handleLogout req =
     (let (sessionID, req) = readUlong req in
      checked req (act_bind (get_session sessionID) (\<lambda>_. act_return (newResponse req))))"

definition handleGetSessionInfo :: "body \<Rightarrow> ('w state, body) act" where
  "handleGetSessionInfo req =
     (let (sessionID, req) = readUlong req in
      checked req
        (act_bind (get_session sessionID) (\<lambda>s.
          let resp = newResponse req;
              resp = writeUlong resp (s_slotID s);
              resp = writeUlong resp 1;
              resp = writeUlong resp 0x00000004 in
          act_return (writeUlong resp 0))))"

section \<open>Objects\<close>

definition handleFindObjectsInit :: "body \<Rightarrow> ('w state, body) act" where
  "handleFindObjectsInit req =
     (let (sessionID, req) = readUlong req;
          (tmpl, req) = readAttributeArray req in
      checked req
        (act_bind (get_session sessionID) (\<lambda>s.
          act_bind (put_session sessionID (session_find s tmpl)) (\<lambda>_.
            act_return (newResponse req)))))"

definition handleFindObjects :: "body \<Rightarrow> ('w state, body) act" where
  "handleFindObjects req =
     (let (sessionID, req) = readUlong req;
          (count, req) = readUlongBuffer req in
      checked req
        (act_bind (get_session sessionID) (\<lambda>s.
          case session_findNext s (unat count) of
            (objIDs, s) \<Rightarrow>
              act_bind (put_session sessionID s) (\<lambda>_.
                act_return (writeUlongArray (newResponse req) (Some objIDs)
                  (of_nat (length objIDs)))))))"

definition handleFindObjectsFinal :: "body \<Rightarrow> ('w state, body) act" where
  "handleFindObjectsFinal req =
     (let (sessionID, req) = readUlong req in
      checked req (act_return (newResponse req)))"

definition handleGetAttributeValue :: "body \<Rightarrow> ('w state, body) act" where
  "handleGetAttributeValue req =
     (let (sessionID, req) = readUlong req;
          (objectID, req) = readUlong req;
          (attrs, req) = readAttributeBuffer req in
      checked req
        (act_bind (get_session sessionID) (\<lambda>s.
          act_bind (act_lift (session_attributeValue s objectID attrs)) (\<lambda>(arr, allValid).
            let resp = writeAttributeArray (newResponse req) arr in
            act_return
              (if allValid then writeUlong resp 0
               else writeUlong resp errAttributeTypeInvalid)))))"

section \<open>Signing\<close>

definition handleSignInit :: "body \<Rightarrow> ('w state, body) act" where
  "handleSignInit req =
     (let (sessionID, req) = readUlong req;
          (m, req) = readMechanism req;
          (keyID, req) = readUlong req in
      checked req
        (act_bind (get_session sessionID) (\<lambda>s.
          act_bind (act_lift (session_object s keyID)) (\<lambda>obj.
            act_bind (act_lift (supports obj m)) (\<lambda>_.
              act_bind (put_session sessionID (s\<lparr>signMechanism := m, signObject := obj\<rparr>)) (\<lambda>_.
                act_return (newResponse req)))))))"

definition write_signature :: "body \<Rightarrow> bytes option \<Rightarrow> body" where
  "write_signature resp sg = writeByteArray resp sg (of_nat (length (slice sg)))"

definition handleSign :: "'w env \<Rightarrow> body \<Rightarrow> ('w state, body) act" where
  "handleSign env req =
     (let (sessionID, req) = readUlong req;
          (data, req) = readByteArray req;
          (sigLen, req) = readByteBuffer req in
      checked req
        (act_bind (get_session sessionID) (\<lambda>s.
          act_bind (on_world (sign env (signObject s) (signMechanism s) (slice (fst data)))) (\<lambda>sg.
            act_return (write_signature (newResponse req) sg)))))"

definition handleSignUpdate :: "body \<Rightarrow> ('w state, body) act" where
  "handleSignUpdate req =
     (let (sessionID, req) = readUlong req;
          (data, req) = readByteArray req in
      checked req
        (act_bind (get_session sessionID) (\<lambda>s.
          act_bind (put_session sessionID (s\<lparr>signData := signData s @ slice (fst data)\<rparr>)) (\<lambda>_.
            act_return (newResponse req)))))"

definition handleSignFinal :: "'w env \<Rightarrow> body \<Rightarrow> ('w state, body) act" where
  "handleSignFinal env req =
     (let (sessionID, req) = readUlong req;
          (sigLength, req) = readByteBuffer req in
      checked req
        (act_bind (get_session sessionID) (\<lambda>s.
          act_bind (on_world (sign env (signObject s) (signMechanism s) (signData s))) (\<lambda>sg.
            act_return (write_signature (newResponse req) sg)))))"

section \<open>Generating and deriving keys\<close>

text \<open>The test that an object's \<^verbatim>\<open>CKA_TOKEN\<close> is set, before it is persisted.\<close>

definition is_token :: "object \<Rightarrow> bool" where
  "is_token obj =
     (case obj_attributeValue obj attributeToken of
        None \<Rightarrow> False
      | Some a \<Rightarrow> (case setByte a of None \<Rightarrow> False | Some token \<Rightarrow> token \<noteq> 0))"

fun persist_tokens :: "uint64 \<Rightarrow> object list \<Rightarrow> ('w state, unit) act" where
  "persist_tokens slotID [] = act_return ()"
| "persist_tokens slotID (obj # objs) =
     (if \<not> is_token obj then persist_tokens slotID objs
      else act_bind (persistObject slotID obj) (\<lambda>_. persist_tokens slotID objs))"

definition handleGenerateKeyPair :: "'w env \<Rightarrow> body \<Rightarrow> ('w state, body) act" where
  "handleGenerateKeyPair env req =
     (let (sessionID, req) = readUlong req;
          (m, req) = readMechanism req;
          (pubTmpl, req) = readAttributeArray req;
          (privTmpl, req) = readAttributeArray req in
      checked req
        (act_bind (get_session sessionID) (\<lambda>s.
          act_bind (on_world (generateKeyPair env m pubTmpl privTmpl)) (\<lambda>(pub, priv).
            act_bind (put_session sessionID (s\<lparr>s_objects := s_objects s @ [pub, priv]\<rparr>)) (\<lambda>_.
              act_bind (persist_tokens (s_slotID s) [pub, priv]) (\<lambda>_.
                act_return
                  (writeUlong (writeUlong (newResponse req) (obj_id pub)) (obj_id priv))))))))"

definition handleDeriveKey :: "'w env \<Rightarrow> body \<Rightarrow> ('w state, body) act" where
  "handleDeriveKey env req =
     (let (sessionID, req) = readUlong req;
          (m, req) = readMechanism req;
          (keyID, req) = readUlong req;
          (tmpl, req) = readAttributeArray req in
      checked req
        (act_bind (get_session sessionID) (\<lambda>s.
          act_bind (act_lift (session_object s keyID)) (\<lambda>obj.
            act_bind (on_world (session_derive env m obj tmpl)) (\<lambda>derived.
              act_bind (put_session sessionID (s\<lparr>s_objects := s_objects s @ [derived]\<rparr>)) (\<lambda>_.
                act_return (writeUlong (newResponse req) (obj_id derived))))))))"

end
