(* ===== verification/Server.thy ===== *)
theory Server
  imports Handlers
begin

text \<open>
  \<^verbatim>\<open>Handler.Handle\<close> of \<^verbatim>\<open>p11kit/p11kit.go\<close>: the version byte, the table of handlers, the
  answer to a request or to its error, and the loop that serves a connection until
  \<^verbatim>\<open>C_Finalize\<close>, the end of the input or an error that is not a PKCS #11 code.
\<close>

section \<open>A connection\<close>

text \<open>
  All the bytes the peer will send, those written so far, and how many further calls of
  \<^verbatim>\<open>Write\<close> succeed (\<open>None\<close>: all of them). A read beyond the input is an EOF.
\<close>

record connection =
  io_in :: bytes
  io_out :: bytes
  writes_left :: "nat option"

definition conn_write :: "bytes \<Rightarrow> connection \<Rightarrow> connection option" where
  "conn_write b c =
     (case writes_left c of
        None \<Rightarrow> Some (c\<lparr>io_out := io_out c @ b\<rparr>)
      | Some 0 \<Rightarrow> None
      | Some (Suc n) \<Rightarrow> Some (c\<lparr>io_out := io_out c @ b, writes_left := Some n\<rparr>))"

definition protocolVersion :: byte where "protocolVersion = 0"

definition negotiateProtocolVersion :: "connection \<Rightarrow> unit result \<times> connection" where
  "negotiateProtocolVersion c =
     (case buffer_byte (io_in c) of
        (None, r) \<Rightarrow> (Inl ErrReadVersion, c\<lparr>io_in := r\<rparr>)
      | (Some _, r) \<Rightarrow>
          (case conn_write [protocolVersion] (c\<lparr>io_in := r\<rparr>) of
             None \<Rightarrow> (Inl ErrWriteVersion, c\<lparr>io_in := r\<rparr>)
           | Some c \<Rightarrow> (Inr (), c)))"

section \<open>Answering a request\<close>

definition handlers :: "'w env \<Rightarrow> (call \<times> (body \<Rightarrow> ('w state, body) act)) list" where
  "handlers env =
    [(callFinalize, act_return),
     (callInitialize, handleInitialize),
     (callGetInfo, handleGetInfo),
     (callGetSlotList, handleGetSlotList),
     (callGetTokenInfo, handleGetTokenInfo),
     (callGetSlotInfo, handleGetSlotInfo),
     (callGetMechanismList, handleGetMechanismList),
     (callGetMechanismInfo, handleGetMechanismInfo env),
     (callInitToken, handleInitToken),
     (callGenerateRandom, handleGenerateRandom),
     (callSeedRandom, handleSeedRandom),
     (callOpenSession, handleOpenSession env),
     (callCloseSession, handleCloseSession),
     (callLogin, handleLogin),
     (callLogout, handleLogout),
     (callFindObjectsInit, handleFindObjectsInit),
     (callFindObjects, handleFindObjects),
     (callFindObjectsFinal, handleFindObjectsFinal),
     (callGetAttributeValue, handleGetAttributeValue),
     (callSignInit, handleSignInit),
     (callSign, handleSign env),
     (callSignUpdate, handleSignUpdate),
     (callSignFinal, handleSignFinal env),
     (callGetSessionInfo, handleGetSessionInfo),
     (callGenerateKeyPair, handleGenerateKeyPair env),
     (callDeriveKey, handleDeriveKey env)]"

definition run_handler :: "'w env \<Rightarrow> body \<Rightarrow> ('w state, body) act" where
  "run_handler env req =
     (case map_of (handlers env) (b_call req) of
        Some h \<Rightarrow> h req
      | None \<Rightarrow> act_fail (Pkcs11 errFunctionNotSupported))"

definition error_response :: "pkcs11Error \<Rightarrow> body" where
  "error_response c =
     writeUlong \<lparr>b_call = callError, signature = [], b_buffer = [], b_error = None\<rparr> c"

text \<open>A panic or an endless loop (\<open>is_crash\<close>) is not an error the loop could look at.\<close>

definition respond :: "'w env \<Rightarrow> body \<Rightarrow> ('w state, body) act" where
  "respond env req st =
     (case run_handler env req st of
        (Inr resp, st) \<Rightarrow> (Inr resp, st)
      | (Inl e, st) \<Rightarrow>
          if is_crash e then (Inl e, st)
          else (case errors_As e of
              None \<Rightarrow> (Inl (ErrCallFailed (b_call req) e), st)
            | Some c \<Rightarrow> (Inr (error_response c), st)))"

section \<open>The loop\<close>

text \<open>The error that ends the loop, if any, the state and the connection.\<close>

function serve ::
  "'w env \<Rightarrow> 'w state \<Rightarrow> connection \<Rightarrow> go_error option \<times> 'w state \<times> connection" where
  "serve env st c =
     (case readRequest (io_in c) of
        (Inl e, r) \<Rightarrow> (Some (ErrReadRequest e), st, c\<lparr>io_in := r\<rparr>)
      | (Inr (callID, req), r) \<Rightarrow>
          (case respond env req st of
             (Inl e, st) \<Rightarrow> (Some e, st, c\<lparr>io_in := r\<rparr>)
           | (Inr resp, st) \<Rightarrow>
               (case conn_write (writeResponse callID resp) (c\<lparr>io_in := r\<rparr>) of
                  None \<Rightarrow> (Some ErrWriteResponse, st, c\<lparr>io_in := r\<rparr>)
                | Some c \<Rightarrow>
                    if b_call req = callFinalize then (None, st, c) else serve env st c)))"
  by pat_completeness auto

lemma conn_write_input: "conn_write b c = Some c' \<Longrightarrow> io_in c' = io_in c"
  by (auto simp: conn_write_def split: option.splits nat.splits)

termination serve
proof (relation "measure (\<lambda>(env, st, c). length (io_in c))", goal_cases)
  case (2 env st c x r a callID req res resp st' c')
  then show ?case using readRequest_shorter [of "io_in c" "(callID, req)" r]
    by (auto dest!: conn_write_input)
qed simp

declare serve.simps [simp del]

definition Handle ::
  "'w env \<Rightarrow> 'w \<Rightarrow> Handler \<Rightarrow> connection \<Rightarrow> go_error option \<times> 'w state \<times> connection" where
  "Handle env w H c =
     (let st = \<lparr>world = w, server = H, conn = new_handler\<rparr> in
      case negotiateProtocolVersion c of
        (Inl e, c) \<Rightarrow> (Some (ErrNegotiate e), st, c)
      | (Inr (), c) \<Rightarrow> serve env st c)"

section \<open>Facts\<close>

lemma conn_write_Some:
  "conn_write b c = Some c' \<Longrightarrow> io_out c' = io_out c @ b \<and> io_in c' = io_in c"
  by (auto simp: conn_write_def split: option.splits nat.splits)

text \<open>One round on a frame: its answer, under the same id, then the rest of the input.\<close>

lemma serve_frame:
  assumes "io_in c = frame callID options req @ rest" and "frame_ok options req"
    and "b_error req = None"
  shows "serve env st c =
    (case respond env req st of
       (Inl e, st) \<Rightarrow> (Some e, st, c\<lparr>io_in := rest\<rparr>)
     | (Inr resp, st) \<Rightarrow>
         (case conn_write (frame callID [] resp) (c\<lparr>io_in := rest\<rparr>) of
            None \<Rightarrow> (Some ErrWriteResponse, st, c\<lparr>io_in := rest\<rparr>)
          | Some c \<Rightarrow>
              if b_call req = callFinalize then (None, st, c) else serve env st c))"
proof -
  have "req\<lparr>b_error := None\<rparr> = req" using assms(3) by (cases req) simp
  then show ?thesis
    using readRequest_frame [OF assms(2), of callID rest]
    by (subst serve.simps, unfold writeResponse_frame) (simp add: assms(1))
qed

lemma respond_cases:
  "respond env req st = (r, st') \<Longrightarrow> \<exists>r'. run_handler env req st = (r', st')"
  by (auto simp: respond_def split: prod.splits sum.splits option.splits if_splits)

end
