(* ===== verification/Requests.thy ===== *)
theory Requests
  imports Server
begin

text \<open>
  Requests as a client encodes them, and what each handler does on one: the fields are
  read back, so the handler is its operation on the decoded values. These are the forms
  in which the properties of the handlers are stated.
\<close>

section \<open>Bodies of requests\<close>

definition body_of :: "call \<Rightarrow> string \<Rightarrow> bytes \<Rightarrow> body" where
  "body_of c s b = \<lparr>b_call = c, signature = s, b_buffer = b, b_error = None\<rparr>"

named_theorems request_simps "reading the fields of an encoded request"

lemma body_of_fields [request_simps]:
  "b_call (body_of c s b) = c" "signature (body_of c s b) = s"
  "b_buffer (body_of c s b) = b" "b_error (body_of c s b) = None"
  "newResponse (body_of c s b) = body_of c [] []"
  by (simp_all add: body_of_def newResponse_def)

lemma err_body_of [request_simps]: "err (body_of c [] []) = None"
  by (simp add: err_def body_of_def)

lemma readUlong_body [request_simps]:
  "readUlong (body_of c (CHR ''u'' # s) (putUint64 n @ b)) = (n, body_of c s b)"
  "readUlong (body_of c (CHR ''u'' # s) (putUint64 n)) = (n, body_of c s [])"
  using ulong_field.reads [of "body_of c (CHR ''u'' # s) (putUint64 n @ b)" s n b]
    ulong_field.reads [of "body_of c (CHR ''u'' # s) (putUint64 n)" s n "[]"]
    buffer_uint64_put [of n "[]"]
  by (simp_all add: body_of_def buffer_uint64_put)

lemma readByte_body [request_simps]:
  "readByte (body_of c (CHR ''y'' # s) (x # b)) = (x, body_of c s b)"
  using byte_field.reads [of "body_of c (CHR ''y'' # s) (x # b)" s x b]
  by (simp add: body_of_def buffer_byte_Cons)

lemma read_buffer_size_body [request_simps]:
  "readUlongBuffer (body_of c (CHR ''f'' # CHR ''u'' # s) (putUint32 n @ b)) = (n, body_of c s b)"
  "readUlongBuffer (body_of c (CHR ''f'' # CHR ''u'' # s) (putUint32 n)) = (n, body_of c s [])"
  "readByteBuffer (body_of c (CHR ''f'' # CHR ''y'' # s) (putUint32 n @ b)) = (n, body_of c s b)"
  "readByteBuffer (body_of c (CHR ''f'' # CHR ''y'' # s) (putUint32 n)) = (n, body_of c s [])"
  using ulongBuffer_field.reads [of "body_of c (CHR ''f'' # CHR ''u'' # s) (putUint32 n @ b)" s n b]
    ulongBuffer_field.reads [of "body_of c (CHR ''f'' # CHR ''u'' # s) (putUint32 n)" s n "[]"]
    byteBuffer_field.reads [of "body_of c (CHR ''f'' # CHR ''y'' # s) (putUint32 n @ b)" s n b]
    byteBuffer_field.reads [of "body_of c (CHR ''f'' # CHR ''y'' # s) (putUint32 n)" s n "[]"]
    buffer_uint32_put [of n "[]"]
  by (simp_all add: body_of_def buffer_uint32_put)

definition enc_data :: "bytes \<Rightarrow> bytes" where
  "enc_data d = enc_content (Some d, 0)"

lemma readByteArray_body [request_simps]:
  assumes "length d < 0xffffffff"
  shows "readByteArray (body_of c (CHR ''a'' # CHR ''y'' # s) (enc_data d @ b)) =
      ((Some d, 0), body_of c s b)"
    and "readByteArray (body_of c (CHR ''a'' # CHR ''y'' # s) (enc_data d)) =
      ((Some d, 0), body_of c s [])"
  using content_pair.read_written [of "(Some d, 0)" "body_of c (CHR ''a'' # CHR ''y'' # s) (enc_data d @ b)" s b]
    content_pair.read_written [of "(Some d, 0)" "body_of c (CHR ''a'' # CHR ''y'' # s) (enc_data d)" s "[]"]
    assms
  by (simp_all add: body_of_def enc_data_def)

lemma readZeroString_body [request_simps]:
  assumes "length l < 0xffffffff"
  shows "readZeroString (body_of c (CHR ''z'' # s) (addByteArray [] (bytes_of l))) = (l, body_of c s [])"
  using zeroString_field.reads [of "body_of c (CHR ''z'' # s) (addByteArray [] (bytes_of l))" s l "[]"]
    buffer_byteArray_add [of "bytes_of l" "[]"] assms
  by (simp add: body_of_def rd_bind_def rd_return_def)

definition sendable :: "attribute list \<Rightarrow> bool" where
  "sendable as \<longleftrightarrow> length as < 0x100000000 \<and> (\<forall>a \<in> set as. wire_attribute a)"

lemma readAttributeArray_body [request_simps]:
  assumes "sendable as"
  shows "readAttributeArray (body_of c (CHR ''a'' # CHR ''A'' # s) (enc_attributes as @ b)) =
      (as, body_of c s b)"
    and "readAttributeArray (body_of c (CHR ''a'' # CHR ''A'' # s) (enc_attributes as)) =
      (as, body_of c s [])"
  using attributes_pair.read_written
      [of as "body_of c (CHR ''a'' # CHR ''A'' # s) (enc_attributes as @ b)" s b]
    attributes_pair.read_written
      [of as "body_of c (CHR ''a'' # CHR ''A'' # s) (enc_attributes as)" s "[]"]
    assms
  by (simp_all add: body_of_def sendable_def)

text \<open>A mechanism in any of its encodings, before a field that is not taken for its end.\<close>

definition mech_bytes :: "mechanism \<Rightarrow> bytes \<Rightarrow> bool" where
  "mech_bytes m e \<longleftrightarrow> (\<forall>b. buffer_mechanism (e @ b) = (Some m, b))"

lemma mech_bytes_marked:
  "mechanismHasNoParameters typ \<Longrightarrow>
     mech_bytes \<lparr>m_typ = typ, m_params = ParamsBytes []\<rparr> (enc_mechanism_marked typ)"
  by (simp add: mech_bytes_def codec_simps)

lemma mech_bytes_params: "params_match m \<Longrightarrow> mech_bytes m (enc_mechanism_params m)"
  by (simp add: mech_bytes_def codec_simps)

lemma readMechanism_body [request_simps]:
  "mech_bytes m e \<Longrightarrow>
     readMechanism (body_of c (CHR ''M'' # s) (e @ b)) = (m, body_of c s b)"
  using mechanism_field.reads [of "body_of c (CHR ''M'' # s) (e @ b)" s m b]
  by (simp add: body_of_def mech_bytes_def)

lemma checked_ok [request_simps]: "err req = None \<Longrightarrow> checked req m = m"
  by (simp add: checked_def)

section \<open>Errors of reading\<close>

text \<open>No error met while reading fields is a PKCS #11 code, so each ends the connection.\<close>

definition clean :: "body \<Rightarrow> bool" where
  "clean b \<longleftrightarrow> (\<forall>e. b_error b = Some e \<longrightarrow> errors_As e = None)"

lemma clean_body_of [simp]: "clean (body_of c s b)"
  by (simp add: clean_def body_of_def)

lemma clean_decode: "clean b \<Longrightarrow> clean (snd (decode sg f d b))"
  by (auto simp: clean_def decode_def sig_def split: prod.splits option.splits)

lemma clean_read [simp]:
  "clean b \<Longrightarrow> clean (snd (readUlong b))" "clean b \<Longrightarrow> clean (snd (readByte b))"
  "clean b \<Longrightarrow> clean (snd (readUlongBuffer b))" "clean b \<Longrightarrow> clean (snd (readByteBuffer b))"
  "clean b \<Longrightarrow> clean (snd (readByteArray b))" "clean b \<Longrightarrow> clean (snd (readMechanism b))"
  "clean b \<Longrightarrow> clean (snd (readAttributeArray b))" "clean b \<Longrightarrow> clean (snd (readZeroString b))"
  "clean b \<Longrightarrow> clean (snd (readAttributeBuffer b))"
  by (simp_all add: readUlong_def readByte_def readUlongBuffer_def readByteBuffer_def
      readByteArray_def readMechanism_def readAttributeArray_def readZeroString_def
      readAttributeBuffer_def clean_decode)

lemma clean_err: "clean b \<Longrightarrow> err b = Some e \<Longrightarrow> errors_As e = None"
  by (auto simp: clean_def err_def split: option.splits if_splits)

section \<open>Handlers on encoded requests\<close>

definition open_request :: "uint64 \<Rightarrow> uint64 \<Rightarrow> body" where
  "open_request slotID flags = body_of callOpenSession ''uu'' (putUint64 slotID @ putUint64 flags)"

lemma handleOpenSession_request:
  "handleOpenSession env (open_request slotID flags) =
     (if and flags 4 = 0 then act_fail (Pkcs11 errSessionParallelNotSupported)
      else act_bind (newSession env slotID) (\<lambda>i.
        act_return (writeUlong (body_of callOpenSession [] []) i)))"
  by (simp add: handleOpenSession_def open_request_def request_simps)

definition find_init_request :: "uint64 \<Rightarrow> attribute list \<Rightarrow> body" where
  "find_init_request i tmpl = body_of callFindObjectsInit ''uaA'' (putUint64 i @ enc_attributes tmpl)"

lemma handleFindObjectsInit_request:
  "sendable tmpl \<Longrightarrow> handleFindObjectsInit (find_init_request i tmpl) =
     act_bind (get_session i) (\<lambda>s. act_bind (put_session i (session_find s tmpl)) (\<lambda>_.
       act_return (body_of callFindObjectsInit [] [])))"
  by (simp add: handleFindObjectsInit_def find_init_request_def request_simps)

definition find_request :: "uint64 \<Rightarrow> uint32 \<Rightarrow> body" where
  "find_request i n = body_of callFindObjects ''ufu'' (putUint64 i @ putUint32 n)"

lemma handleFindObjects_request:
  "handleFindObjects (find_request i n) =
     act_bind (get_session i) (\<lambda>s.
       case session_findNext s (unat n) of (ids, s) \<Rightarrow>
         act_bind (put_session i s) (\<lambda>_.
           act_return (writeUlongArray (body_of callFindObjects [] []) (Some ids)
             (of_nat (length ids)))))"
  by (simp add: handleFindObjects_def find_request_def request_simps)

definition find_final_request :: "uint64 \<Rightarrow> body" where
  "find_final_request i = body_of callFindObjectsFinal ''u'' (putUint64 i)"

lemma handleFindObjectsFinal_request:
  "handleFindObjectsFinal (find_final_request i) = act_return (body_of callFindObjectsFinal [] [])"
  by (simp add: handleFindObjectsFinal_def find_final_request_def request_simps)

definition sign_init_request :: "uint64 \<Rightarrow> bytes \<Rightarrow> uint64 \<Rightarrow> body" where
  "sign_init_request i e keyID = body_of callSignInit ''uMu'' (putUint64 i @ e @ putUint64 keyID)"

lemma handleSignInit_request:
  "mech_bytes m e \<Longrightarrow> handleSignInit (sign_init_request i e keyID) =
     act_bind (get_session i) (\<lambda>s.
       act_bind (act_lift (session_object s keyID)) (\<lambda>obj.
         act_bind (act_lift (supports obj m)) (\<lambda>_.
           act_bind (put_session i (s\<lparr>signMechanism := m, signObject := obj\<rparr>)) (\<lambda>_.
             act_return (body_of callSignInit [] [])))))"
  by (simp add: handleSignInit_def sign_init_request_def request_simps)

definition sign_update_request :: "uint64 \<Rightarrow> bytes \<Rightarrow> body" where
  "sign_update_request i d = body_of callSignUpdate ''uay'' (putUint64 i @ enc_data d)"

lemma handleSignUpdate_request:
  "length d < 0xffffffff \<Longrightarrow> handleSignUpdate (sign_update_request i d) =
     act_bind (get_session i) (\<lambda>s. act_bind (put_session i (s\<lparr>signData := signData s @ d\<rparr>)) (\<lambda>_.
       act_return (body_of callSignUpdate [] [])))"
  by (simp add: handleSignUpdate_def sign_update_request_def request_simps)

definition sign_request :: "uint64 \<Rightarrow> bytes \<Rightarrow> uint32 \<Rightarrow> body" where
  "sign_request i d n = body_of callSign ''uayfy'' (putUint64 i @ enc_data d @ putUint32 n)"

lemma handleSign_request:
  "length d < 0xffffffff \<Longrightarrow> handleSign env (sign_request i d n) =
     act_bind (get_session i) (\<lambda>s.
       act_bind (on_world (sign env (signObject s) (signMechanism s) d)) (\<lambda>sg.
         act_return (write_signature (body_of callSign [] []) sg)))"
  by (simp add: handleSign_def sign_request_def request_simps)

definition sign_final_request :: "uint64 \<Rightarrow> uint32 \<Rightarrow> body" where
  "sign_final_request i n = body_of callSignFinal ''ufy'' (putUint64 i @ putUint32 n)"

lemma handleSignFinal_request:
  "handleSignFinal env (sign_final_request i n) =
     act_bind (get_session i) (\<lambda>s.
       act_bind (on_world (sign env (signObject s) (signMechanism s) (signData s))) (\<lambda>sg.
         act_return (write_signature (body_of callSignFinal [] []) sg)))"
  by (simp add: handleSignFinal_def sign_final_request_def request_simps)

definition generate_request :: "uint64 \<Rightarrow> bytes \<Rightarrow> attribute list \<Rightarrow> attribute list \<Rightarrow> body" where
  "generate_request i e pubTmpl privTmpl = body_of callGenerateKeyPair ''uMaAaA''
     (putUint64 i @ e @ enc_attributes pubTmpl @ enc_attributes privTmpl)"

lemma handleGenerateKeyPair_request:
  "mech_bytes m e \<Longrightarrow> sendable pubTmpl \<Longrightarrow> sendable privTmpl \<Longrightarrow>
   handleGenerateKeyPair env (generate_request i e pubTmpl privTmpl) =
     act_bind (get_session i) (\<lambda>s.
       act_bind (on_world (generateKeyPair env m pubTmpl privTmpl)) (\<lambda>(pub, priv).
         act_bind (put_session i (s\<lparr>s_objects := s_objects s @ [pub, priv]\<rparr>)) (\<lambda>_.
           act_bind (persist_tokens (s_slotID s) [pub, priv]) (\<lambda>_.
             act_return (writeUlong (writeUlong (body_of callGenerateKeyPair [] []) (obj_id pub))
               (obj_id priv))))))"
  by (simp add: handleGenerateKeyPair_def generate_request_def request_simps
      del: persist_tokens.simps)

definition derive_request :: "uint64 \<Rightarrow> bytes \<Rightarrow> uint64 \<Rightarrow> attribute list \<Rightarrow> body" where
  "derive_request i e keyID tmpl = body_of callDeriveKey ''uMuaA''
     (putUint64 i @ e @ putUint64 keyID @ enc_attributes tmpl)"

lemma handleDeriveKey_request:
  "mech_bytes m e \<Longrightarrow> sendable tmpl \<Longrightarrow> handleDeriveKey env (derive_request i e keyID tmpl) =
     act_bind (get_session i) (\<lambda>s.
       act_bind (act_lift (session_object s keyID)) (\<lambda>obj.
         act_bind (on_world (session_derive env m obj tmpl)) (\<lambda>derived.
           act_bind (put_session i (s\<lparr>s_objects := s_objects s @ [derived]\<rparr>)) (\<lambda>_.
             act_return (writeUlong (body_of callDeriveKey [] []) (obj_id derived))))))"
  by (simp add: handleDeriveKey_def derive_request_def request_simps)

definition slot_list_request :: "byte \<Rightarrow> uint32 \<Rightarrow> body" where
  "slot_list_request present n = body_of callGetSlotList ''yfu'' (present # putUint32 n)"

lemma handleGetSlotList_request:
  "handleGetSlotList (slot_list_request present n) = (\<lambda>st.
     let resp = body_of callGetSlotList [] []; slots = Slots (server st) in
     if n = 0 then (Inr (writeUlongArray resp None (of_nat (length slots))), st)
     else if unat n < length slots then (Inl (Pkcs11 errBufferTooSmall), st)
     else (Inr (writeUlongArray resp (Some (map slot_ID slots)) 0), st))"
  by (simp add: handleGetSlotList_def slot_list_request_def request_simps)

definition mechanism_list_request :: "uint64 \<Rightarrow> uint32 \<Rightarrow> body" where
  "mechanism_list_request slotID n =
     body_of callGetMechanismList ''ufu'' (putUint64 slotID @ putUint32 n)"

lemma handleGetMechanismList_request:
  "handleGetMechanismList (mechanism_list_request slotID n) =
     act_bind (get_slot slotID) (\<lambda>s.
       let m = slot_mechanisms s; resp = body_of callGetMechanismList [] [] in
       if n = 0 then act_return (writeUlongArray resp None (of_nat (length m)))
       else if n < of_nat (length m) then act_fail (Pkcs11 errBufferTooSmall)
       else act_return (writeUlongArray resp (Some m) (of_nat (length m))))"
  by (simp add: handleGetMechanismList_def mechanism_list_request_def request_simps Let_def cong: if_cong)

definition init_token_request :: "uint64 \<Rightarrow> bytes \<Rightarrow> string \<Rightarrow> body" where
  "init_token_request slotID pin label = body_of callInitToken ''uayz''
     (putUint64 slotID @ enc_data pin @ addByteArray [] (bytes_of label))"

lemma handleInitToken_request:
  "length pin < 0xffffffff \<Longrightarrow> length label < 0xffffffff \<Longrightarrow>
   handleInitToken (init_token_request slotID pin label) =
     act_bind (init_token slotID label) (\<lambda>_. act_return (body_of callInitToken [] []))"
  by (simp add: handleInitToken_def init_token_request_def request_simps)

end
