(* ===== verification/WireProperties.thy ===== *)
theory WireProperties
  imports Requests
begin

text \<open>
  What the wire format guarantees: fields and frames survive the trip, a request is taken
  apart exactly or refused, counts cannot exceed the data behind them, and the one place
  where the format is ambiguous.
\<close>

section \<open>Round trips\<close>

text \<open>
  C7: Attributes that an object can carry survive the whole trip: written into a response
  body, framed, read back as a frame and decoded, with whatever follows on the stream left
  alone.
\<close>

theorem attributes_cross_the_wire:
  assumes "sendable as" and "length (enc_attributes as) < 0xfffffff0"
  shows "\<exists>b. readRequest (writeResponse callID (writeAttributeArray (body_of c [] []) as) @ rest)
      = (Inr (callID, b), rest) \<and> readAttributeArray b = (as, body_of c [] [])"
proof -
  let ?b = "writeAttributeArray (body_of c [] []) as"
  have b: "signature ?b = ''aA''" "b_buffer ?b = enc_attributes as" "b_error ?b = None"
    by (simp_all add: body_of_fields)
  then have "frame_ok [] ?b" using assms(2) by (simp add: frame_ok_def)
  then have "readRequest (writeResponse callID ?b @ rest) = (Inr (callID, ?b\<lparr>b_error := None\<rparr>), rest)"
    by (simp only: writeResponse_frame readRequest_frame)
  moreover have "?b\<lparr>b_error := None\<rparr> = ?b" using b(3) by simp
  moreover have "readAttributeArray ?b = (as, body_of c [] [])"
    by (rule attributes_pair.read_after_write) (use assms(1) in \<open>simp_all add: sendable_def body_of_fields\<close>)
  ultimately show ?thesis by auto
qed

theorem attributes_cross_the_wire_witness:
  "\<exists>b. readRequest (writeResponse 7 (writeAttributeArray (body_of callGetAttributeValue [] [])
      [byte_attribute attributeToken 1, ulong_attribute attributeClass 3,
       bytes_attribute attributeID (Some [1, 2, 3]), empty_attribute attributeValue]) @ [9])
    = (Inr (7, b), [9]) \<and> readAttributeArray b =
      ([byte_attribute attributeToken 1, ulong_attribute attributeClass 3,
        bytes_attribute attributeID (Some [1, 2, 3]), empty_attribute attributeValue],
       body_of callGetAttributeValue [] [])"
proof (rule attributes_cross_the_wire)
  have "valueType attributeToken = AttributeTypeByte" "valueType attributeClass = AttributeTypeUlong"
    "valueType attributeID = AttributeTypeByteArray" by (simp_all add: valueType_unat)
  then show "sendable [byte_attribute attributeToken 1, ulong_attribute attributeClass 3,
       bytes_attribute attributeID (Some [1, 2, 3]), empty_attribute attributeValue]"
    by (simp add: sendable_def wire_attribute_def) (simp add: attribute_defs)
  show "length (enc_attributes [byte_attribute attributeToken 1, ulong_attribute attributeClass 3,
       bytes_attribute attributeID (Some [1, 2, 3]), empty_attribute attributeValue]) < 0xfffffff0"
    by (simp add: enc_attributes_def addAttribute_def Let_def)
qed

text \<open>
  C8: A frame is read back as the request it carries, whatever options the client attached
  (they are skipped) and whatever frames follow; and the server's own responses are such
  frames, without options.
\<close>

theorem request_framing_roundtrip:
  assumes "frame_ok options req" and "b_error req = None"
  shows "readRequest (frame callID options req @ rest) = (Inr (callID, req), rest) \<and>
    writeResponse callID req = frame callID [] req"
proof -
  have "req\<lparr>b_error := None\<rparr> = req" using assms(2) by simp
  then show ?thesis using readRequest_frame [OF assms(1)] writeResponse_frame by simp
qed

theorem request_framing_roundtrip_witness:
  "readRequest (frame 1 [0xff, 0xff] (find_final_request 5) @ [0]) =
     (Inr (1, find_final_request 5), [0]) \<and>
   writeResponse 1 (find_final_request 5) = frame 1 [] (find_final_request 5)"
  by (rule request_framing_roundtrip)
    (simp_all add: find_final_request_def body_of_fields frame_ok_def)

text \<open>
  A date with a year of four digits is encoded as eight digits that decode to the same
  date, before any other field.
\<close>

lemma date_field_roundtrip:
  assumes "valid_date t" and "1000 \<le> year t" and "year t \<le> 9999"
  shows "length (addDate [] t) = 8 \<and> buffer_date (addDate [] t @ rest) = (Some t, rest)"
proof -
  have all: "buffer_date (addDate [] t @ rest) = (Some t, rest)" for rest
    using buffer_date_addDate assms by blast
  have "addDate [] t = take 8 (addDate [] t) \<and> 8 \<le> length (addDate [] t)"
    using buffer_date_SomeD [of "addDate [] t" t "[]"] all [of "[]"] by simp
  then have "length (addDate [] t) = 8" by (metis length_take min.absorb2)
  then show ?thesis using all by simp
qed

text \<open>
  A string field is always its width and exactly that many bytes: the string cut off, or
  padded with spaces; \<^verbatim>\<open>writeString\<close> changes nothing else of the response.
\<close>

lemma string_field_fixed_width:
  "\<exists>f. writeString b s n = b\<lparr>signature := signature b @ ''s'',
       b_buffer := b_buffer b @ putUint32 n @ f\<rparr> \<and>
     length f = unat n \<and> take (length s) f = take (unat n) (bytes_of s) \<and>
     drop (length s) f = replicate (unat n - length s) 32"
  using string_writer.appends [of b "(s, n)"]
  by (intro exI [of _ "take (unat n) (bytes_of s) @ replicate (unat n - length s) 32"])
    (simp add: enc_string_def addUint32_def min_def)

section \<open>Malformed and hostile requests\<close>

lemma find_objects_fields:
  "err (snd (readUlongBuffer (snd (readUlong (body_of c s b))))) = None \<longleftrightarrow>
     s = ''ufu'' \<and> length b = 12"
proof
  let ?b1 = "snd (readUlong (body_of c s b))"
  let ?b2 = "snd (readUlongBuffer ?b1)"
  assume "err ?b2 = None"
  then have none: "b_error ?b2 = None" and nil: "signature ?b2 = []" "b_buffer ?b2 = []"
    unfolding err_None_iff by auto
  have two: "b_error ?b1 = None" "signature ?b1 = ''fu'' @ signature ?b2"
      "buffer_uint32 (b_buffer ?b1) = (Some (fst (readUlongBuffer ?b1)), b_buffer ?b2)"
    using ulongBuffer_field.no_error_back [OF prod.collapse [symmetric] none] by simp_all
  have one: "signature (body_of c s b) = ''u'' @ signature ?b1"
      "buffer_uint64 (b_buffer (body_of c s b)) =
        (Some (fst (readUlong (body_of c s b))), b_buffer ?b1)"
    using ulong_field.no_error_back [OF prod.collapse [symmetric] two(1)] by simp_all
  have "b_buffer ?b1 = putUint32 (fst (readUlongBuffer ?b1))"
    using two(3) nil by (simp add: buffer_uint32_cases)
  then have "\<exists>x y. b = putUint64 x @ putUint32 y"
    using one(2) unfolding buffer_uint64_cases body_of_fields by metis
  then have "length b = 12" by (elim exE) simp
  then show "s = ''ufu'' \<and> length b = 12" using one(1) two(2) nil by (simp add: body_of_fields)
next
  assume s: "s = ''ufu'' \<and> length b = 12"
  then have "b = putUint64 (bigEndianUint64 (take 8 b)) @ putUint32 (bigEndianUint32 (drop 8 b))"
    by (simp add: putUint64_bigEndian putUint32_bigEndian)
  then obtain x y where "b = putUint64 x @ putUint32 y" by blast
  then show "err (snd (readUlongBuffer (snd (readUlong (body_of c s b))))) = None"
    using s by (simp add: request_simps)
qed

text \<open>
  C30: A request is accepted only when its signature is exactly the handler's and its bytes
  are exactly those of its fields; for \<^verbatim>\<open>C_FindObjects\<close> that is the signature \<open>ufu\<close> and 12
  bytes. Anything else is an error that is not a PKCS #11 code, and changes nothing.
\<close>

theorem find_objects_accepts_exactly:
  "(\<exists>e. handleFindObjects (body_of c s b) st = (Inl e, st) \<and> errors_As e = None) \<longleftrightarrow>
     \<not> (s = ''ufu'' \<and> length b = 12)"
proof (cases "err (snd (readUlongBuffer (snd (readUlong (body_of c s b)))))")
  case (Some e)
  then have "errors_As e = None" by (rule clean_err [rotated]) simp
  then show ?thesis using Some find_objects_fields [of c s b]
    by (auto simp: handleFindObjects_def Let_def case_prod_beta checked_def)
next
  case None
  then have "s = ''ufu'' \<and> length b = 12" by (simp only: find_objects_fields)
  moreover have "fst (handleFindObjects (body_of c s b) st) = Inl e \<Longrightarrow> errors_As e \<noteq> None" for e
    using None by (auto simp: handleFindObjects_def Let_def case_prod_beta checked_def
        act_bind_def get_session_def put_session_def handler_session_lookup
        split: option.splits prod.splits)
  ultimately show ?thesis by (metis fst_conv)
qed

text \<open>
  C31: The element counts of a request are bounded by the bytes behind them: an attribute
  array needs five bytes an element, a template eight, so a hostile count makes the read
  fail instead of growing an array.
\<close>

theorem array_counts_bounded:
  "5 * length (fst (readAttributeArray b)) \<le> length (b_buffer b) \<and>
   8 * length (fst (readAttributeBuffer b)) \<le> length (b_buffer b)"
proof
  show "5 * length (fst (readAttributeArray b)) \<le> length (b_buffer b)"
    by (auto simp: readAttributeArray_def decode_def sig_def mult.commute
        elim!: rd_bind_SomeD dest!: attribute_reads.repeat_bound uint32_reads.shorter
        split: prod.splits option.splits)
  show "8 * length (fst (readAttributeBuffer b)) \<le> length (b_buffer b)"
    by (auto simp: readAttributeBuffer_def decode_def sig_def mult.commute
        elim!: rd_bind_SomeD dest!: template_reads.repeat_bound uint32_reads.shorter
        split: prod.splits option.splits)
qed

section \<open>Mechanisms\<close>

text \<open>
  Both encodings of a mechanism without parameters, the type alone and the type with the
  null marker, and the encoding with parameters are read as the mechanism that was meant;
  the first only if the next field does not start with the marker's bytes.
\<close>

lemma mechanism_encodings_agree:
  assumes "mechanismHasNoParameters typ" and "\<not> peekUint32 rest 0xffffffff" and "params_match m"
  shows "buffer_mechanism (enc_mechanism_plain typ @ rest) =
      buffer_mechanism (enc_mechanism_marked typ @ rest) \<and>
    buffer_mechanism (enc_mechanism_plain typ @ rest) =
      (Some \<lparr>m_typ = typ, m_params = ParamsBytes []\<rparr>, rest) \<and>
    buffer_mechanism (enc_mechanism_params m @ rest) = (Some m, rest)"
  using assms by (simp add: codec_simps)

lemma mechanism_encodings_agree_witness:
  "buffer_mechanism (enc_mechanism_plain ckmECDSA @ putUint64 3) =
     buffer_mechanism (enc_mechanism_marked ckmECDSA @ putUint64 3) \<and>
   buffer_mechanism (enc_mechanism_plain ckmECDSA @ putUint64 3) =
     (Some \<lparr>m_typ = ckmECDSA, m_params = ParamsBytes []\<rparr>, putUint64 3) \<and>
   buffer_mechanism (enc_mechanism_params \<lparr>m_typ = ckmRSAPKCSPSS,
       m_params = ParamsPSS \<lparr>hashAlg = ckmSHA256, mgf = ckgMGF1SHA256, saltLen = 32\<rparr>\<rparr> @ putUint64 3)
     = (Some \<lparr>m_typ = ckmRSAPKCSPSS,
         m_params = ParamsPSS \<lparr>hashAlg = ckmSHA256, mgf = ckgMGF1SHA256, saltLen = 32\<rparr>\<rparr>, putUint64 3)"
  by (rule mechanism_encodings_agree)
    (simp_all add: mechanismHasNoParameters_def params_match_def peekUint32_def putUint64_def)

lemma putUint64_halves:
  "putUint64 k = putUint32 (ucast (drop_bit 32 k)) @ putUint32 (ucast k)"
proof -
  have that_high: "ucast (drop_bit n (ucast (drop_bit 32 k) :: uint32)) = (ucast (drop_bit (n + 32) k) :: byte)"
    if "n \<le> 24" for n
    using that by (intro bit_word_eqI) (auto simp: bit_unsigned_iff bit_drop_bit_eq comp_def ac_simps)
  have that_low: "ucast (drop_bit n (ucast k :: uint32)) = (ucast (drop_bit n k) :: byte)"
    if "n \<le> 24" for n
    using that by (intro bit_word_eqI) (auto simp: bit_unsigned_iff bit_drop_bit_eq comp_def)
  show ?thesis
    using that_high [of 24] that_high [of 16] that_high [of 8] that_high [of 0]
      that_low [of 24] that_low [of 16] that_low [of 8] that_low [of 0]
    by (simp add: putUint64_def putUint32_def)
qed

text \<open>
  C33: The ambiguity is reachable. A client that sends \<^verbatim>\<open>C_SignInit\<close> in the format of current
  p11-kit versions, the type alone, with a key handle whose upper 32 bits are all ones, has
  half of its handle read as the null marker; the request fails and the connection ends.
  Handles are random 64-bit numbers.
\<close>

theorem sign_init_swallows_key_handle:
  assumes "mechanismHasNoParameters typ" and "ucast (drop_bit 32 keyID) = (0xffffffff :: uint32)"
  shows "handleSignInit (sign_init_request i (enc_mechanism_plain typ) keyID) st =
      (Inl ErrUnexpectedEOF, st) \<and>
    respond env (sign_init_request i (enc_mechanism_plain typ) keyID) st =
      (Inl (ErrCallFailed callSignInit ErrUnexpectedEOF), st)"
proof -
  let ?m = "\<lparr>m_typ = typ, m_params = ParamsBytes []\<rparr>"
  let ?lo = "putUint32 (ucast keyID)"
  have m: "readMechanism (body_of callSignInit ''Mu'' (enc_mechanism_plain typ @ putUint64 keyID)) =
      (?m, body_of callSignInit ''u'' ?lo)"
    using mechanism_field.reads [of "body_of callSignInit ''Mu'' (enc_mechanism_plain typ @ putUint64 keyID)"
        "''u''" ?m ?lo] buffer_mechanism_swallows [OF assms(1)]
    by (simp add: body_of_def putUint64_halves assms(2))
  obtain buf where k: "buffer_uint64 ?lo = (None, buf)"
    using buffer_uint64_None [of ?lo] by (cases "buffer_uint64 ?lo") simp
  have "err (snd (readUlong (body_of callSignInit ''u'' ?lo))) = Some ErrUnexpectedEOF"
    using ulong_field.short [of "body_of callSignInit ''u'' ?lo" "[]" buf] k
    by (simp add: body_of_def err_def)
  then have "handleSignInit (sign_init_request i (enc_mechanism_plain typ) keyID) st =
      (Inl ErrUnexpectedEOF, st)"
    by (simp add: handleSignInit_def sign_init_request_def request_simps m case_prod_beta checked_def)
  moreover have "map_of (handlers env) callSignInit = Some handleSignInit"
    by (simp add: handlers_def)
  ultimately show ?thesis
    by (simp add: respond_def run_handler_def sign_init_request_def body_of_fields is_crash_def)
qed

theorem sign_init_swallows_key_handle_witness:
  "handleSignInit (sign_init_request 1 (enc_mechanism_plain ckmECDSA) 0xffffffff00000007)
      \<lparr>world = (), server = \<lparr>Manufacturer = [], Library = [],
         LibraryVersion = \<lparr>Major = 0, Minor = 0\<rparr>, Slots = []\<rparr>, conn = new_handler\<rparr> =
    (Inl ErrUnexpectedEOF, \<lparr>world = (), server = \<lparr>Manufacturer = [], Library = [],
         LibraryVersion = \<lparr>Major = 0, Minor = 0\<rparr>, Slots = []\<rparr>, conn = new_handler\<rparr>)"
  by (rule sign_init_swallows_key_handle [THEN conjunct1])
    (simp_all add: mechanismHasNoParameters_def drop_bit_eq_div)

end
