(* ===== verification/Effects.thy ===== *)
theory Effects
  imports Server
begin

text \<open>
  The abstract specification of the server: the state changes a request may make, as step
  relations on a session and on the state. Every handler refines it: what it does to the
  state, whether it answers or fails, is a sequence of these steps. Each step that
  touches the shared slots is one critical section of the code.
\<close>

section \<open>Steps\<close>

inductive session_step :: "session \<Rightarrow> session \<Rightarrow> bool" where
  find: "session_step s (session_find s tmpl)"
| findNext: "session_step s (snd (session_findNext s n))"
| sign_init: "session_object s k = Inr obj \<Longrightarrow> supports obj m = Inr () \<Longrightarrow>
    session_step s (s\<lparr>signMechanism := m, signObject := obj\<rparr>)"
| sign_update: "session_step s (s\<lparr>signData := signData s @ d\<rparr>)"
| add_objects: "\<forall>obj \<in> set objs. wf_object obj \<Longrightarrow>
    session_step s (s\<lparr>s_objects := s_objects s @ objs\<rparr>)"

text \<open>The objects a session on a slot may start with.\<close>

definition offered :: "'w env \<Rightarrow> slot \<Rightarrow> object list \<Rightarrow> bool" where
  "offered env s objs \<longleftrightarrow>
     (case GetObjects s of
        None \<Rightarrow> objs = Objects s
      | Some cb \<Rightarrow> \<exists>w w'. env_GetObjects env cb w = (Inr objs, w'))"

inductive st_step :: "'w env \<Rightarrow> 'w state \<Rightarrow> 'w state \<Rightarrow> bool" for env where
  world: "st_step env st (st\<lparr>world := w\<rparr>)"
| init: "slot_index (Slots (server st)) i = Some k \<Longrightarrow> \<not> Initialized (Slots (server st) ! k) \<Longrightarrow>
    st_step env st
      (st\<lparr>server := update_slot k (\<lambda>s. s\<lparr>Label := l, Initialized := True\<rparr>) (server st)\<rparr>)"
| persist: "slot_index (Slots (server st)) i = Some k \<Longrightarrow> wf_object obj \<Longrightarrow> is_token obj \<Longrightarrow>
    st_step env st
      (st\<lparr>server := update_slot k (\<lambda>s. s\<lparr>Objects := Objects s @ [obj]\<rparr>) (server st)\<rparr>)"
| opened: "slot_index (Slots (server st)) i = Some k \<Longrightarrow> offered env (Slots (server st) ! k) objs \<Longrightarrow>
    add_session (fresh_session i objs) (conn st) = Some (j, h) \<Longrightarrow> st_step env st (st\<lparr>conn := h\<rparr>)"
| closed: "st_step env st (st\<lparr>conn := remove_session i (conn st)\<rparr>)"
| in_session: "lookup_session (conn st) i = Some s \<Longrightarrow> session_step s s' \<Longrightarrow>
    st_step env st (st\<lparr>conn := update_session i s' (conn st)\<rparr>)"

abbreviation st_steps :: "'w env \<Rightarrow> 'w state \<Rightarrow> 'w state \<Rightarrow> bool" where
  "st_steps env \<equiv> (st_step env)\<^sup>*\<^sup>*"

section \<open>Composition\<close>

lemma bind_steps:
  assumes "R\<^sup>*\<^sup>* st (snd (m st))"
    and "\<And>x t. m st = (Inr x, t) \<Longrightarrow> R\<^sup>*\<^sup>* t (snd (f x t))"
  shows "R\<^sup>*\<^sup>* st (snd (act_bind m f st))"
proof (cases "m st")
  case (Pair r t)
  then show ?thesis using assms by (cases r) auto
qed

lemma checked_steps:
  "(err req = None \<Longrightarrow> R\<^sup>*\<^sup>* st (snd (m st))) \<Longrightarrow> R\<^sup>*\<^sup>* st (snd (checked req m st))"
  by (cases "err req") (simp_all add: checked_def)

lemma on_world_steps: "st_steps env st (snd (on_world m st))"
  by (auto simp: on_world_def split: prod.splits intro: st_step.world)

lemma get_slot_steps: "snd (get_slot i st) = st"
  by (simp add: get_slot_def split: sum.splits)

lemma get_session_steps: "snd (get_session i st) = st"
  by (simp add: get_session_def)

lemma get_sessionD: "get_session i st = (Inr s, t) \<Longrightarrow> t = st \<and> lookup_session (conn st) i = Some s"
  by (auto simp: get_session_def handler_session_lookup split: option.splits)

lemma put_session_steps:
  assumes "lookup_session (conn st) i = Some s" and "session_step s s'"
  shows "st_steps env st (snd (put_session i s' st))"
  using r_into_rtranclp [of "st_step env", OF st_step.in_session [OF assms]]
  by (simp add: put_session_def)

lemma slot_objects_offered:
  "slot_objects env k st = (Inr objs, t) \<Longrightarrow> offered env (Slots (server st) ! k) objs \<and>
     server t = server st \<and> conn t = conn st"
  by (auto simp: slot_objects_def offered_def on_world_def Let_def split: option.splits prod.splits)

lemma slot_objects_steps: "st_steps env st (snd (slot_objects env k st))"
  by (auto simp: slot_objects_def Let_def intro: on_world_steps split: option.splits)

lemma newSession_steps: "st_steps env st (snd (newSession env i st))"
proof (cases "handler_slot (server st) i")
  case (Inr k)
  let ?f = "\<lambda>objs st. case add_session (fresh_session i objs) (conn st) of
      None \<Rightarrow> (Inl NonTermination, st) | Some (i, h) \<Rightarrow> (Inr i, st\<lparr>conn := h\<rparr>)"
  have "st_steps env st (snd (act_bind (slot_objects env k) ?f st))"
  proof (rule bind_steps)
    show "st_steps env st (snd (slot_objects env k st))" by (rule slot_objects_steps)
  next
    fix objs t
    assume "slot_objects env k st = (Inr objs, t)"
    then have t: "offered env (Slots (server t) ! k) objs" "slot_index (Slots (server t)) i = Some k"
      using slot_objects_offered [of env k st objs t] Inr by (simp_all add: handler_slot_Inr)
    show "st_steps env t (snd (?f objs t))"
      using st_step.opened [OF t(2) t(1)] by (auto split: option.splits)
  qed
  then show ?thesis by (simp add: newSession_def Inr)
qed (simp add: newSession_def)

lemma closeSession_steps: "st_steps env st (snd (closeSession i st))"
  by (auto simp: closeSession_def Let_def intro: st_step.closed)

lemma init_token_steps: "st_steps env st (snd (init_token i l st))"
proof (cases "handler_slot (server st) i")
  case (Inr k)
  then have "slot_index (Slots (server st)) i = Some k" by (simp only: handler_slot_Inr)
  then show ?thesis using st_step.init [of st i k env]
    by (simp add: init_token_def Inr r_into_rtranclp)
qed (simp add: init_token_def)

lemma persist_tokens_steps:
  "\<forall>obj \<in> set objs. wf_object obj \<Longrightarrow> st_steps env st (snd (persist_tokens i objs st))"
proof (induction objs arbitrary: st)
  case (Cons obj objs)
  have "st_steps env st (snd (persistObject i obj st))" if "is_token obj"
  proof (cases "handler_slot (server st) i")
    case (Inr k)
    then have "slot_index (Slots (server st)) i = Some k" by (simp only: handler_slot_Inr)
    then show ?thesis using st_step.persist [of st i k obj env] Cons.prems that
      by (simp add: persistObject_def Inr r_into_rtranclp)
  qed (simp add: persistObject_def)
  then show ?case using Cons by (auto intro: bind_steps)
qed simp

section \<open>What templates and derivations yield\<close>

lemma repeat_attributes_typed:
  "rd_repeat n buffer_attribute b = (Some as, b') \<Longrightarrow> \<forall>a \<in> set as. typed_attribute a"
proof (induction n arbitrary: b as)
  case (Suc n)
  then obtain a b1 as1 where "buffer_attribute b = (Some a, b1)"
      "rd_repeat n buffer_attribute b1 = (Some as1, b')" "as = a # as1"
    by (auto elim!: rd_bind_SomeD)
  then show ?case using Suc.IH buffer_attribute_SomeD by fastforce
qed simp

lemma decode_value:
  "fst (decode sg f d b) = d \<or> (\<exists>b' b''. f b' = (Some (fst (decode sg f d b)), b''))"
  by (auto simp: decode_def split: prod.splits bool.splits option.splits)

lemma readAttributeArray_typed:
  assumes "readAttributeArray b = (as, b')"
  shows "\<forall>a \<in> set as. typed_attribute a"
proof -
  let ?f = "rd_bind buffer_uint32 (\<lambda>length. rd_repeat (unat length) buffer_attribute)"
  have "as = [] \<or> (\<exists>c c'. ?f c = (Some as, c'))"
    using decode_value [of sigAttributeArray ?f "[]" b] assms by (simp add: readAttributeArray_def)
  then show ?thesis by (auto elim!: rd_bind_SomeD dest: repeat_attributes_typed)
qed

lemma derived_wf: "wf_attributes (derived_attributes class keyType secret valueLen)"
proof -
  have "valueType attributeValueLen = AttributeTypeUlong"
    "valueType attributeValue = AttributeTypeByteArray" by (simp_all add: valueType_unat)
  then show ?thesis by (simp add: wf_attributes_def derived_attributes_def valueType_key)
qed

lemma deriveECDH_wf: "deriveECDH env m base tmpl w = (Inr obj, w') \<Longrightarrow> wf_object obj"
  by (auto simp: deriveECDH_def wf_object_def derived_wf elim!: act_bind_InrE
      split: sum.splits prod.splits)

lemma session_derive_wf: "session_derive env m base tmpl w = (Inr obj, w') \<Longrightarrow> wf_object obj"
  by (auto simp: session_derive_def deriveECDH_wf split: if_splits)

section \<open>The handlers\<close>

lemmas handler_unfold = Let_def case_prod_beta

lemmas read_only_simps = get_slot_steps get_session_steps act_bind_def act_lift_def
  act_return_def act_fail_def checked_def

lemma reading_steps:
  "snd (handleInitialize req st) = st" "snd (handleGetInfo req st) = st"
  "snd (handleGetTokenInfo req st) = st" "snd (handleGetSlotInfo req st) = st"
  "snd (handleGetMechanismList req st) = st" "snd (handleGenerateRandom req st) = st"
  "snd (handleSeedRandom req st) = st" "snd (handleGetSlotList req st) = st"
  "snd (handleLogin req st) = st" "snd (handleLogout req st) = st"
  "snd (handleGetSessionInfo req st) = st" "snd (handleFindObjectsFinal req st) = st"
  "snd (handleGetAttributeValue req st) = st"
  unfolding handleInitialize_def handleGetInfo_def handleGetTokenInfo_def handleGetSlotInfo_def
    handleGetMechanismList_def handleGenerateRandom_def handleSeedRandom_def
    handleGetSlotList_def handleLogin_def handleLogout_def handleGetSessionInfo_def
    handleFindObjectsFinal_def handleGetAttributeValue_def handler_unfold
  by (auto simp: checked_def act_bind_def get_slot_def get_session_def
      split: option.splits sum.splits prod.splits if_splits)

lemma handleGetMechanismInfo_steps: "st_steps env st (snd (handleGetMechanismInfo env req st))"
  unfolding handleGetMechanismInfo_def handler_unfold
  by (intro checked_steps bind_steps) (simp_all add: get_slot_steps on_world_steps)

lemma handleInitToken_steps: "st_steps env st (snd (handleInitToken req st))"
  unfolding handleInitToken_def handler_unfold
  by (intro checked_steps bind_steps) (simp_all add: init_token_steps)

lemma handleOpenSession_steps: "st_steps env st (snd (handleOpenSession env req st))"
  unfolding handleOpenSession_def handler_unfold
  by (intro checked_steps) (auto intro!: bind_steps newSession_steps)

lemma handleCloseSession_steps: "st_steps env st (snd (handleCloseSession req st))"
  unfolding handleCloseSession_def handler_unfold
  by (intro checked_steps bind_steps) (simp_all add: closeSession_steps)

text \<open>A handler that replaces the session it looked up.\<close>

lemma in_session_steps:
  assumes "\<And>s. lookup_session (conn st) i = Some s \<Longrightarrow> st_steps env st (snd (f s st))"
  shows "st_steps env st (snd (act_bind (get_session i) f st))"
proof (rule bind_steps)
  fix s t
  assume "get_session i st = (Inr s, t)"
  then have "t = st" "lookup_session (conn st) i = Some s" using get_sessionD by blast+
  then show "st_steps env t (snd (f s t))" using assms by simp
qed (simp add: get_session_steps)

lemma replace_steps:
  assumes "lookup_session (conn st) i = Some s" and "session_step s s'"
    and "\<And>t. st_steps env t (snd (f () t))"
  shows "st_steps env st (snd (act_bind (put_session i s') f st))"
  by (rule bind_steps) (use put_session_steps [OF assms(1,2)] assms(3) in auto)

lemma handleFindObjectsInit_steps: "st_steps env st (snd (handleFindObjectsInit req st))"
  unfolding handleFindObjectsInit_def handler_unfold
  by (intro checked_steps in_session_steps) (auto intro!: replace_steps session_step.find)

lemma handleFindObjects_steps: "st_steps env st (snd (handleFindObjects req st))"
  unfolding handleFindObjects_def handler_unfold
  by (intro checked_steps in_session_steps) (auto intro!: replace_steps session_step.findNext)

lemma handleSignUpdate_steps: "st_steps env st (snd (handleSignUpdate req st))"
  unfolding handleSignUpdate_def handler_unfold
  by (intro checked_steps in_session_steps) (auto intro!: replace_steps session_step.sign_update)

lemma handleSignInit_steps: "st_steps env st (snd (handleSignInit req st))"
  unfolding handleSignInit_def handler_unfold
proof (intro checked_steps in_session_steps bind_steps, goal_cases)
  case (3 s obj t u t')
  then have "t' = st" "session_object s (fst (readUlong (snd (readMechanism (snd (readUlong req)))))) = Inr obj"
    "supports obj (fst (readMechanism (snd (readUlong req)))) = Inr ()"
    by (simp_all add: act_lift_def)
  then show ?case using 3 by (auto intro!: put_session_steps session_step.sign_init)
qed (simp_all add: act_lift_def)

lemma on_worldD:
  "on_world m st = (r, t) \<Longrightarrow> server t = server st \<and> conn t = conn st \<and> m (world st) = (r, world t)"
  by (auto simp: on_world_def split: prod.splits)

lemma handleSign_steps: "st_steps env st (snd (handleSign env req st))"
  unfolding handleSign_def handler_unfold
  by (intro checked_steps in_session_steps bind_steps) (simp_all add: on_world_steps)

lemma handleSignFinal_steps: "st_steps env st (snd (handleSignFinal env req st))"
  unfolding handleSignFinal_def handler_unfold
  by (intro checked_steps in_session_steps bind_steps) (simp_all add: on_world_steps)

lemma handleDeriveKey_steps: "st_steps env st (snd (handleDeriveKey env req st))"
  unfolding handleDeriveKey_def handler_unfold
proof (intro checked_steps in_session_steps bind_steps, goal_cases)
  case (2 s obj t)
  then show ?case by (simp add: act_lift_def on_world_steps)
next
  case (3 s obj t derived u)
  then have "wf_object derived" "lookup_session (conn u) (fst (readUlong req)) = Some s"
    by (auto simp: act_lift_def dest!: on_worldD dest: session_derive_wf)
  then show ?case by (auto intro!: put_session_steps session_step.add_objects)
qed (simp_all add: act_lift_def)

lemma generated_wf:
  assumes "on_world (generateKeyPair env m (fst (readAttributeArray b)) (fst (readAttributeArray c))) st
    = (Inr pair, t)"
  shows "wf_object (fst pair) \<and> wf_object (snd pair)"
proof -
  have "\<forall>a \<in> set (fst (readAttributeArray b)) \<union> set (fst (readAttributeArray c)). typed_attribute a"
    using readAttributeArray_typed [OF prod.collapse [symmetric]] by blast
  then show ?thesis using assms by (cases pair) (auto dest!: on_worldD dest: generateKeyPair_wf)
qed

lemma handleGenerateKeyPair_steps: "st_steps env st (snd (handleGenerateKeyPair env req st))"
  unfolding handleGenerateKeyPair_def handler_unfold
proof (rule checked_steps, rule in_session_steps, rule bind_steps, goal_cases)
  case (2 s pair t)
  then have "wf_object (fst pair) \<and> wf_object (snd pair)" by (intro generated_wf)
  moreover have "lookup_session (conn t) (fst (readUlong req)) = Some s"
    using 2 by (auto dest!: on_worldD)
  ultimately show ?case
    by (auto intro!: bind_steps put_session_steps session_step.add_objects
        persist_tokens_steps simp del: persist_tokens.simps)
qed (rule on_world_steps)

section \<open>The refinement\<close>

lemma run_handler_steps: "st_steps env st (snd (run_handler env req st))"
proof (cases "map_of (handlers env) (b_call req)")
  case (Some h)
  then have "(b_call req, h) \<in> set (handlers env)" by (rule map_of_SomeD)
  then have "h \<in> snd ` set (handlers env)" by force
  then have "st_steps env st (snd (h req st))"
    unfolding handlers_def
    by (auto simp: reading_steps handleGetMechanismInfo_steps handleInitToken_steps
        handleOpenSession_steps handleCloseSession_steps handleFindObjectsInit_steps
        handleFindObjects_steps handleSignInit_steps handleSign_steps handleSignUpdate_steps
        handleSignFinal_steps handleGenerateKeyPair_steps handleDeriveKey_steps)
  then show ?thesis by (simp add: run_handler_def Some)
qed (simp add: run_handler_def)

lemma respond_steps: "st_steps env st (snd (respond env req st))"
  using run_handler_steps [of env st req]
  by (auto simp: respond_def split: prod.splits sum.splits option.splits if_splits)

text \<open>What serving a connection does to the state is what answering requests one by one does.\<close>

definition responds :: "'w env \<Rightarrow> 'w state \<Rightarrow> 'w state \<Rightarrow> bool" where
  "responds env st st' \<longleftrightarrow> (\<exists>req. st' = snd (respond env req st))"

lemma serve_responds: "(responds env)\<^sup>*\<^sup>* st (fst (snd (serve env st c)))"
proof (induction env st c rule: serve.induct)
  case (1 env st c)
  obtain x r where x: "readRequest (io_in c) = (x, r)" by fastforce
  show ?case
  proof (cases x)
    case (Inl e)
    then show ?thesis by (subst serve.simps) (simp add: x)
  next
    case (Inr y)
    obtain callID req where y: "y = (callID, req)" by fastforce
    obtain res st' where res: "respond env req st = (res, st')" by fastforce
    have first: "(responds env)\<^sup>*\<^sup>* st st'"
      by (rule r_into_rtranclp) (auto simp: responds_def res intro!: exI [of _ req])
    show ?thesis
    proof (cases res)
      case (Inl e)
      then show ?thesis using first by (subst serve.simps) (simp add: x \<open>x = Inr y\<close> y res)
    next
      case resp: (Inr resp)
      show ?thesis
      proof (cases "conn_write (writeResponse callID resp) (c\<lparr>io_in := r\<rparr>)")
        case None
        then show ?thesis using first by (subst serve.simps) (simp add: x \<open>x = Inr y\<close> y res resp)
      next
        case (Some c')
        show ?thesis
        proof (cases "b_call req = callFinalize")
          case True
          then show ?thesis using first Some
            by (subst serve.simps) (simp add: x \<open>x = Inr y\<close> y res resp)
        next
          case False
          then have "(responds env)\<^sup>*\<^sup>* st' (fst (snd (serve env st' c')))"
            by (intro "1.IH" [OF x [symmetric] Inr y [symmetric] res [symmetric] resp Some])
          then show ?thesis using first Some False
            by (subst serve.simps) (simp add: x \<open>x = Inr y\<close> y res resp)
        qed
      qed
    qed
  qed
qed

lemma serve_steps: "st_steps env st (fst (snd (serve env st c)))"
  using serve_responds [of env st c]
proof (induction rule: rtranclp_induct)
  case (step t u)
  then obtain req where "u = snd (respond env req t)" by (auto simp: responds_def)
  then show ?case using step.IH respond_steps [of env t req] by simp
qed simp

end
