(* ===== verification/System.thy ===== *)
theory System
  imports Effects
begin

text \<open>
  Many connections on one server. Connections come and go, each with sessions of its own;
  they share the slots, which change in the critical sections of the code, the steps of
  \<open>st_step\<close>. What holds after every interleaving of these steps is an invariant of the
  concurrent server.
\<close>

section \<open>Invariants and orders of step relations\<close>

locale step_invariant =
  fixes step :: "'s \<Rightarrow> 's \<Rightarrow> bool" and inv :: "'s \<Rightarrow> bool"
  assumes preserved: "step s t \<Longrightarrow> inv s \<Longrightarrow> inv t"
begin

lemma steps_preserve: "step\<^sup>*\<^sup>* s t \<Longrightarrow> inv s \<Longrightarrow> inv t"
  by (induction rule: rtranclp_induct) (auto intro: preserved)

end

locale step_order =
  fixes step :: "'s \<Rightarrow> 's \<Rightarrow> bool" and le :: "'s \<Rightarrow> 's \<Rightarrow> bool"
  assumes le_refl: "le s s" and le_trans: "le s t \<Longrightarrow> le t u \<Longrightarrow> le s u"
    and step_le: "step s t \<Longrightarrow> le s t"
begin

lemma steps_le: "step\<^sup>*\<^sup>* s t \<Longrightarrow> le s t"
  by (induction rule: rtranclp_induct) (auto intro: le_refl le_trans step_le)

end

section \<open>How the shared slots evolve\<close>

text \<open>
  A slot keeps its identity and description; once initialized it stays initialized, under
  its label; its token objects only get more.
\<close>

definition slot_le :: "slot \<Rightarrow> slot \<Rightarrow> bool" where
  "slot_le s t \<longleftrightarrow>
     (\<exists>l b objs. t = s\<lparr>Label := l, Initialized := b, Objects := Objects s @ objs\<rparr> \<and>
       (Initialized s \<longrightarrow> b \<and> l = Label s))"

definition server_le :: "Handler \<Rightarrow> Handler \<Rightarrow> bool" where
  "server_le G H \<longleftrightarrow> (\<exists>ss. H = G\<lparr>Slots := ss\<rparr> \<and> list_all2 slot_le (Slots G) ss)"

lemma slot_le_refl [simp]: "slot_le s s"
  unfolding slot_le_def
  by (intro exI [of _ "Label s"] exI [of _ "Initialized s"] exI [of _ "[]"]) simp

lemma slot_le_trans:
  assumes "slot_le s t" and "slot_le t u"
  shows "slot_le s u"
proof -
  obtain l b objs where t: "t = s\<lparr>Label := l, Initialized := b, Objects := Objects s @ objs\<rparr>"
    and b: "Initialized s \<longrightarrow> b \<and> l = Label s"
    using assms(1) unfolding slot_le_def by blast
  obtain m c objs' where u: "u = t\<lparr>Label := m, Initialized := c, Objects := Objects t @ objs'\<rparr>"
    and c: "Initialized t \<longrightarrow> c \<and> m = Label t"
    using assms(2) unfolding slot_le_def by blast
  show ?thesis
    unfolding slot_le_def
    by (intro exI [of _ m] exI [of _ c] exI [of _ "objs @ objs'"]) (use t u b c in simp)
qed

lemma server_le_refl [simp]: "server_le G G"
  unfolding server_le_def by (intro exI [of _ "Slots G"]) (simp add: list_all2_refl)

lemma server_le_trans:
  assumes "server_le F G" and "server_le G H"
  shows "server_le F H"
proof -
  obtain ss where G: "G = F\<lparr>Slots := ss\<rparr>" "list_all2 slot_le (Slots F) ss"
    using assms(1) unfolding server_le_def by blast
  obtain ts where H: "H = G\<lparr>Slots := ts\<rparr>" "list_all2 slot_le (Slots G) ts"
    using assms(2) unfolding server_le_def by blast
  have "list_all2 slot_le (Slots F) ts"
    by (rule list_all2_trans [OF slot_le_trans G(2)]) (use G H in simp_all)
  then show ?thesis unfolding server_le_def by (intro exI [of _ ts]) (simp add: G H)
qed

lemma update_slot_le:
  assumes "slot_le (Slots H ! k) (f (Slots H ! k))"
  shows "server_le H (update_slot k f H)"
proof -
  have "slot_le (Slots H ! i) ((Slots H)[k := f (Slots H ! k)] ! i)" if "i < length (Slots H)" for i
    using assms that by (cases "i = k") simp_all
  then show ?thesis
    unfolding server_le_def update_slot_def
    by (intro exI [of _ "(Slots H)[k := f (Slots H ! k)]"]) (simp add: list_all2_conv_all_nth)
qed

lemma st_step_server_le: "st_step env st st' \<Longrightarrow> server_le (server st) (server st')"
proof (induction rule: st_step.induct)
  case (init st i k l)
  then have "slot_le (Slots (server st) ! k) ((Slots (server st) ! k)\<lparr>Label := l, Initialized := True\<rparr>)"
    unfolding slot_le_def by (intro exI [of _ l] exI [of _ True] exI [of _ "[]"]) simp
  then show ?case by (simp add: update_slot_le)
next
  case (persist st i k obj)
  have "slot_le s (s\<lparr>Objects := Objects s @ [obj]\<rparr>)" for s
    unfolding slot_le_def
    by (intro exI [of _ "Label s"] exI [of _ "Initialized s"] exI [of _ "[obj]"]) simp
  then show ?case by (simp add: update_slot_le)
qed simp_all

interpretation slots: step_order "st_step env" "\<lambda>st st'. server_le (server st) (server st')"
  by unfold_locales (auto intro: server_le_trans st_step_server_le)

lemma slot_le_ID: "slot_le s t \<Longrightarrow> slot_ID t = slot_ID s"
  by (auto simp: slot_le_def)

lemma server_le_IDs: "server_le G H \<Longrightarrow> map slot_ID (Slots H) = map slot_ID (Slots G)"
  by (auto simp: server_le_def list_all2_conv_all_nth slot_le_ID intro!: nth_equalityI)

section \<open>What holds of every session\<close>

definition session_ok :: "Handler \<Rightarrow> session \<Rightarrow> bool" where
  "session_ok H s \<longleftrightarrow>
     s_slotID s \<in> slot_ID ` set (Slots H) \<and> (\<forall>obj \<in> set (s_objects s). typed_object obj) \<and>
     (signObject s = zero_object \<or> supports (signObject s) (signMechanism s) = Inr ())"

definition handler_ok :: "Handler \<Rightarrow> handler \<Rightarrow> bool" where
  "handler_ok H h \<longleftrightarrow> (\<forall>i s. lookup_session h i = Some s \<longrightarrow> session_ok H s)"

definition server_ok :: "Handler \<Rightarrow> bool" where
  "server_ok H \<longleftrightarrow> (\<forall>s \<in> set (Slots H). \<forall>obj \<in> set (Objects s). typed_object obj)"

definition state_ok :: "'w state \<Rightarrow> bool" where
  "state_ok st \<longleftrightarrow> server_ok (server st) \<and> handler_ok (server st) (conn st)"

text \<open>The embedding program's callbacks return objects whose values are of their types' kinds.\<close>

definition callbacks_ok :: "'w env \<Rightarrow> bool" where
  "callbacks_ok env \<longleftrightarrow>
     (\<forall>cb w objs w'. env_GetObjects env cb w = (Inr objs, w') \<longrightarrow> (\<forall>obj \<in> set objs. typed_object obj))"

lemma session_step_ok: "session_step s t \<Longrightarrow> session_ok H s \<Longrightarrow> session_ok H t"
  by (induction rule: session_step.induct)
    (auto simp: session_ok_def session_find_def session_findNext_def Let_def
      intro: wf_object_typed)

lemma session_ok_mono: "session_ok G s \<Longrightarrow> server_le G H \<Longrightarrow> session_ok H s"
  using server_le_IDs [of G H] unfolding session_ok_def by (metis list.set_map)

lemma handler_ok_mono: "handler_ok G h \<Longrightarrow> server_le G H \<Longrightarrow> handler_ok H h"
  unfolding handler_ok_def using session_ok_mono by blast

lemma handler_ok_put: "handler_ok H h \<Longrightarrow> session_ok H s \<Longrightarrow> handler_ok H (update_session i s h)"
  unfolding handler_ok_def by (simp add: sess.put_map)

lemma handler_ok_remove: "handler_ok H h \<Longrightarrow> handler_ok H (remove_session i h)"
  unfolding handler_ok_def by (simp add: sess.remove_map)

lemma handler_ok_add:
  "handler_ok H h \<Longrightarrow> session_ok H s \<Longrightarrow> add_session s h = Some (i, h') \<Longrightarrow> handler_ok H h'"
  unfolding handler_ok_def by (simp add: sess.add_map [of s h i h'])

lemma new_handler_ok [simp]: "handler_ok H new_handler"
  by (simp add: handler_ok_def new_handler_def lookup_session_def)

lemma server_ok_update:
  assumes "server_ok H" and "\<And>s. (\<forall>obj \<in> set (Objects s). typed_object obj) \<Longrightarrow>
      (\<forall>obj \<in> set (Objects (f s)). typed_object obj)"
  shows "server_ok (update_slot k f H)"
proof (cases "k < length (Slots H)")
  case True
  have "server_ok (update_slot k f H) \<longleftrightarrow>
      (\<forall>s \<in> set ((Slots H)[k := f (Slots H ! k)]). \<forall>obj \<in> set (Objects s). typed_object obj)"
    by (simp add: server_ok_def update_slot_def)
  moreover have "set ((Slots H)[k := f (Slots H ! k)]) \<subseteq> insert (f (Slots H ! k)) (set (Slots H))"
    by (rule set_update_subset_insert)
  ultimately show ?thesis using assms True nth_mem [OF True] unfolding server_ok_def by blast
next
  case False
  then have "(Slots H)[k := f (Slots H ! k)] = Slots H" by (simp add: list_update_beyond)
  then show ?thesis using assms(1) by (simp add: update_slot_def server_ok_def)
qed

lemma fresh_session_ok:
  assumes "callbacks_ok env" and "server_ok H" and k: "slot_index (Slots H) i = Some k"
    and "offered env (Slots H ! k) objs"
  shows "session_ok H (fresh_session i objs)"
proof -
  have "Slots H ! k \<in> set (Slots H)" "slot_ID (Slots H ! k) = i" using slot_index_Some [OF k] by auto
  then show ?thesis
    using assms(1,2,4)
    by (auto simp: session_ok_def fresh_session_def offered_def server_ok_def callbacks_ok_def
        split: option.splits)
qed

lemma st_step_ok:
  assumes "st_step env st st'" and "callbacks_ok env" and "state_ok st"
  shows "state_ok st'"
proof -
  have le: "server_le (server st) (server st')" using assms(1) by (rule st_step_server_le)
  have h: "handler_ok (server st') (conn st)"
    using assms(3) le by (auto simp: state_ok_def intro: handler_ok_mono)
  show ?thesis
    using assms(1)
  proof cases
    case (init i k l)
    then show ?thesis using h assms(3) by (simp add: state_ok_def server_ok_update)
  next
    case (persist i k obj)
    then show ?thesis using h assms(3)
      by (auto simp: state_ok_def intro!: server_ok_update intro: wf_object_typed)
  next
    case (opened i k objs j h')
    then show ?thesis using h assms(2,3) fresh_session_ok [of env "server st" i k objs]
      by (auto simp: state_ok_def intro: handler_ok_add)
  next
    case (in_session i s s')
    then have "session_ok (server st) s'"
      using assms(3) session_step_ok by (auto simp: state_ok_def handler_ok_def)
    then show ?thesis using in_session assms(3) by (simp add: state_ok_def handler_ok_put)
  qed (use assms(3) in \<open>simp_all add: state_ok_def handler_ok_remove\<close>)
qed

interpretation state: step_invariant "st_step env" "\<lambda>st. callbacks_ok env \<longrightarrow> state_ok st"
  by unfold_locales (blast intro: st_step_ok)

section \<open>The concurrent server\<close>

text \<open>Connections are named by numbers; one that is closed takes its sessions with it.\<close>

record 'w system =
  sys_world :: 'w
  sys_server :: Handler
  sys_conns :: "nat \<rightharpoonup> handler"

definition view :: "'w system \<Rightarrow> handler \<Rightarrow> 'w state" where
  "view S h = \<lparr>world = sys_world S, server = sys_server S, conn = h\<rparr>"

definition put_view :: "nat \<Rightarrow> 'w state \<Rightarrow> 'w system \<Rightarrow> 'w system" where
  "put_view c st S = S\<lparr>sys_world := world st, sys_server := server st,
     sys_conns := (sys_conns S)(c \<mapsto> conn st)\<rparr>"

inductive sys_step :: "'w env \<Rightarrow> 'w system \<Rightarrow> 'w system \<Rightarrow> bool" for env where
  accept: "sys_conns S c = None \<Longrightarrow>
    sys_step env S (S\<lparr>sys_conns := (sys_conns S)(c \<mapsto> new_handler)\<rparr>)"
| drop: "sys_step env S (S\<lparr>sys_conns := (sys_conns S)(c := None)\<rparr>)"
| request: "sys_conns S c = Some h \<Longrightarrow> st_step env (view S h) st' \<Longrightarrow>
    sys_step env S (put_view c st' S)"

abbreviation sys_steps :: "'w env \<Rightarrow> 'w system \<Rightarrow> 'w system \<Rightarrow> bool" where
  "sys_steps env \<equiv> (sys_step env)\<^sup>*\<^sup>*"

definition system_ok :: "'w system \<Rightarrow> bool" where
  "system_ok S \<longleftrightarrow> server_ok (sys_server S) \<and>
     (\<forall>c h. sys_conns S c = Some h \<longrightarrow> handler_ok (sys_server S) h)"

definition start :: "'w \<Rightarrow> Handler \<Rightarrow> 'w system" where
  "start w H = \<lparr>sys_world = w, sys_server = H, sys_conns = Map.empty\<rparr>"

lemma view_simps [simp]:
  "world (view S h) = sys_world S" "server (view S h) = sys_server S" "conn (view S h) = h"
  by (simp_all add: view_def)

lemma put_view_simps [simp]:
  "sys_world (put_view c st S) = world st" "sys_server (put_view c st S) = server st"
  "sys_conns (put_view c st S) = (sys_conns S)(c \<mapsto> conn st)"
  by (simp_all add: put_view_def)

lemma view_put_view [simp]: "view (put_view c st S) (conn st) = st"
  by (simp add: view_def)

lemma sys_step_server_le: "sys_step env S S' \<Longrightarrow> server_le (sys_server S) (sys_server S')"
  by (induction rule: sys_step.induct) (auto dest: st_step_server_le)

lemma sys_step_ok:
  assumes "sys_step env S S'" and "callbacks_ok env" and "system_ok S"
  shows "system_ok S'"
  using assms(1)
proof cases
  case (request c h st')
  have "state_ok (view S h)" using assms(3) request by (simp add: state_ok_def system_ok_def)
  then have ok: "state_ok st'" using request assms(2) st_step_ok by blast
  have le: "server_le (sys_server S) (server st')" using st_step_server_le request by fastforce
  show ?thesis
    using assms(3) ok le request by (auto simp: system_ok_def state_ok_def intro: handler_ok_mono)
qed (use assms(3) in \<open>auto simp: system_ok_def split: if_splits\<close>)

interpretation shared: step_order "sys_step env" "\<lambda>S S'. server_le (sys_server S) (sys_server S')"
  by unfold_locales (auto intro: server_le_trans sys_step_server_le)

interpretation sys: step_invariant "sys_step env" "\<lambda>S. callbacks_ok env \<longrightarrow> system_ok S"
  by unfold_locales (blast intro: sys_step_ok)

text \<open>A request of one connection is a run of the system that leaves the others' sessions alone.\<close>

lemma st_steps_sys:
  assumes "st_steps env (view S h) st'" and "sys_conns S c = Some h"
  shows "sys_steps env S (put_view c st' S)"
  using assms(1)
proof (induction rule: rtranclp_induct)
  case base
  have "put_view c (view S h) S = S" using assms(2) by (simp add: put_view_def fun_upd_idem)
  then show ?case by simp
next
  case (step st st')
  have "sys_step env (put_view c st S) (put_view c st' (put_view c st S))"
    by (rule sys_step.request [of _ _ "conn st"]) (use step in simp_all)
  moreover have "put_view c st' (put_view c st S) = put_view c st' S" by (simp add: put_view_def)
  ultimately show ?case using step.IH by (metis rtranclp.rtrancl_into_rtrancl)
qed

end
