(* ===== verification/KeyProperties.thy ===== *)
theory KeyProperties
  imports Derive Sign
begin

text \<open>
  What objects, keys, signatures and derived secrets guarantee, for any environment; the
  witnesses use \<open>sample_env\<close>, an environment whose functions are constants of the right
  shape.
\<close>

definition sample_env :: "nat env" where
  "sample_env =
    \<lparr>env_rand_Int = (\<lambda>limit w. (Inr (w mod limit), Suc w)),
     env_Sign = (\<lambda>s d opts w. (Inr (Some (marshalSig 5 6)), w)),
     env_rsa_GenerateKey = (\<lambda>bits w. (Inr (OtherSigner (RsaPublicKey (2 ^ 1023) 65537) 0), w)),
     env_ecdsa_GenerateKey = (\<lambda>c w. (Inr (EcdsaPrivateKey c 1 2 3), w)),
     env_GetObjects = (\<lambda>cb w. (Inr [], w)),
     env_MechanismInfo = (\<lambda>cb m w. (Inr (0, 0, 0), w)),
     env_MarshalPKIXPublicKey = (\<lambda>k. Inr [1, 2]),
     env_IsOnCurve = (\<lambda>c x y. True),
     env_ScalarMult = (\<lambda>c x y d. (x, y)),
     env_hash_Sum = (\<lambda>h b. replicate (hash_Size h) 7)\<rparr>"

section \<open>Attributes of objects\<close>

text \<open>
  After \<^verbatim>\<open>setAttributes\<close> an object answers for each type with the template's last entry
  of the type, and with its old attribute where the template has none; the key and the
  handle stay as they were.
\<close>

lemma setAttributes_overrides:
  "obj_attributeValue (setAttributes obj tmpl) t =
     (case List.find (\<lambda>a. a_typ a = t) (rev tmpl) of
        Some a \<Rightarrow> Some a | None \<Rightarrow> obj_attributeValue obj t) \<and>
   obj_priv (setAttributes obj tmpl) = obj_priv obj \<and> obj_pub (setAttributes obj tmpl) = obj_pub obj \<and>
   obj_id (setAttributes obj tmpl) = obj_id obj"
  unfolding obj_attributeValue_def setAttributes_def by (simp add: attrs.find_updates)

text \<open>
  The setters: \<^verbatim>\<open>SetCKAID\<close> and \<^verbatim>\<open>SetDerive\<close> take effect whatever was there, but
  \<^verbatim>\<open>SetLabel\<close> and \<^verbatim>\<open>SetCertificate\<close> append, so on an object that has a label, or a
  \<^verbatim>\<open>CKA_ID\<close>, a client goes on to see the old one.
\<close>

lemma setters_take_effect:
  "obj_attributeValue (SetCKAID obj v) attributeID = Some (bytes_attribute attributeID v) \<and>
   map_option setByte (obj_attributeValue (SetDerive obj) attributeDerive) = Some (Some 1) \<and>
   obj_attributeValue (SetLabel (SetLabel obj l1) l2) attributeLabel =
     obj_attributeValue (SetLabel obj l1) attributeLabel \<and>
   (case SetCertificate (SetCKAID obj v) cert of
      Inl e \<Rightarrow> e \<in> {ErrNotKeyObject, ErrAsn1}
    | Inr obj' \<Rightarrow> obj_attributeValue obj' attributeID = Some (bytes_attribute attributeID v))"
  by (simp add: obj_attributeValue_def SetCKAID_def setAttributes_def SetDerive_def SetLabel_def
      SetCertificate_def asn1_Marshal_int_def find_set_derive setByte_def find_attribute_append
      attrs.find_upd split: option.splits)

abbreviation secret_types :: "attributeType set" where
  "secret_types \<equiv> {attributeValue, attributePrivateExponent, attributePrime1,
     attributePrime2, attributeExponent1, attributeExponent2, attributeCoefficient}"

lemma no_secrets:
  "\<forall>a \<in> set (common_attributes p spki). a_typ a \<in> secret_types \<longrightarrow> attr_value a = None"
  "ecdsa_attributes p c x y = Inr as \<Longrightarrow>
     \<forall>a \<in> set as. a_typ a \<in> secret_types \<longrightarrow> attr_value a = None"
  "\<forall>a \<in> set (rsa_attributes p n e). a_typ a \<in> secret_types \<longrightarrow> attr_value a = None"
  by (simp_all add: common_attributes_def)
    (auto simp: ecdsa_attributes_def rsa_attributes_def Let_def split: option.splits if_splits sum.splits)

text \<open>
  C18: A key object's attributes are well formed and of its class, and none of them holds
  private key material: what a private key has of \<^verbatim>\<open>CKA_VALUE\<close>, the private exponent, the
  primes, the CRT exponents and the coefficient is empty.
\<close>

theorem key_object_public_only:
  assumes "newKeyObject env k p = Inr as"
  shows "wf_attributes as \<and>
    find_attribute as attributeClass =
      Some (ulong_attribute attributeClass (if p then ckoPrivateKey else ckoPublicKey)) \<and>
    (\<forall>a \<in> set as. a_typ a \<in> {attributeValue, attributePrivateExponent, attributePrime1,
       attributePrime2, attributeExponent1, attributeExponent2, attributeCoefficient} \<longrightarrow>
       attr_value a = None)"
proof (intro conjI)
  show "wf_attributes as" "find_attribute as attributeClass =
      Some (ulong_attribute attributeClass (if p then ckoPrivateKey else ckoPublicKey))"
    using newKeyObject_wf [OF assms] by blast+
  obtain spki extra where as: "as = common_attributes p spki @ extra"
    and k: "\<And>c x y. k = EcdsaPublicKey c x y \<Longrightarrow> ecdsa_attributes p c x y = Inr extra"
      "\<And>n e. k = RsaPublicKey n e \<Longrightarrow> extra = rsa_attributes p n e"
    using assms by (rule newKeyObject_Inr) blast
  have "\<forall>a \<in> set extra. a_typ a \<in> secret_types \<longrightarrow> attr_value a = None"
  proof (cases k)
    case (OtherPublicKey n)
    then show ?thesis using assms by (auto simp: newKeyObject_def split: sum.splits)
  next
    case (RsaPublicKey n e)
    then show ?thesis using k(2) no_secrets(3) by simp
  qed (use k(1) no_secrets(2) in blast)
  then show "\<forall>a \<in> set as. a_typ a \<in> secret_types \<longrightarrow> attr_value a = None"
    unfolding as using no_secrets(1) [of p spki] unfolding set_append by blast
qed

theorem key_object_public_only_witness:
  "\<exists>as. newKeyObject sample_env (RsaPublicKey 4 3) True = Inr as \<and> wf_attributes as \<and>
    find_attribute as attributeClass = Some (ulong_attribute attributeClass ckoPrivateKey) \<and>
    (\<forall>a \<in> set as. a_typ a \<in> {attributeValue, attributePrivateExponent, attributePrime1,
       attributePrime2, attributeExponent1, attributeExponent2, attributeCoefficient} \<longrightarrow>
       attr_value a = None)"
proof -
  have k: "newKeyObject sample_env (RsaPublicKey 4 3) True =
      Inr (common_attributes True [1, 2] @ rsa_attributes True 4 3)"
    by (simp add: newKeyObject_def sample_env_def)
  show ?thesis by (rule exI, rule conjI [OF k]) (use key_object_public_only [OF k] in simp)
qed

text \<open>
  C38: The \<^verbatim>\<open>CKA_EC_PARAMS\<close> that a key on a named curve publishes asks, in a template, for a
  new key on the same curve.
\<close>

theorem ec_params_roundtrip:
  assumes "newKeyObject env (EcdsaPublicKey c x y) p = Inr as"
  shows "\<exists>a. find_attribute as attributeECParams = Some a \<and>
    generateECKeyPair env [a] = or_general_error (env_ecdsa_GenerateKey env c)"
proof -
  obtain spki extra where as: "as = common_attributes p spki @ extra"
    and k: "ecdsa_attributes p c x y = Inr extra"
    using assms by (rule newKeyObject_Inr) blast
  then obtain oid where oid: "oidForCurve c = Some oid"
    by (auto simp: ecdsa_attributes_def split: option.splits)
  obtain b where b: "marshalOID oid = Some b" "b \<noteq> []" "\<And>tail. unmarshalOID (b @ tail) = Some oid"
    using marshalOID_named [OF oid] by blast
  let ?a = "bytes_attribute attributeECParams (Some b)"
  have "find_attribute (common_attributes p spki) attributeECParams = None"
    by (simp add: common_attributes_def)
  moreover have "find_attribute extra attributeECParams = Some ?a"
    using k oid b(1) by (auto simp: ecdsa_attributes_def Let_def split: if_splits sum.splits)
  ultimately have "find_attribute as attributeECParams = Some ?a"
    by (simp add: as find_attribute_append)
  moreover have "curveForOID oid = Some c" using oid by (simp only: curveForOID_iff)
  then have "generateECKeyPair env [?a] = or_general_error (env_ecdsa_GenerateKey env c)"
    using b(2) b(3) [of "[]"] by (simp add: generateECKeyPair_def) (simp add: attribute_defs)
  ultimately show ?thesis by blast
qed

theorem ec_params_roundtrip_witness:
  "\<exists>as a. newKeyObject sample_env (EcdsaPublicKey P256 1 2) True = Inr as \<and>
    find_attribute as attributeECParams = Some a \<and>
    generateECKeyPair sample_env [a] = or_general_error (env_ecdsa_GenerateKey sample_env P256)"
proof -
  obtain b where "marshalOID oidNamedCurveP256 = Some b"
    using marshalOID_named [of P256 oidNamedCurveP256] by auto
  then have "\<exists>as. newKeyObject sample_env (EcdsaPublicKey P256 1 2) True = Inr as"
    by (simp add: newKeyObject_def ecdsa_attributes_def sample_env_def)
  then obtain as where "newKeyObject sample_env (EcdsaPublicKey P256 1 2) True = Inr as" by blast
  with ec_params_roundtrip [OF this] show ?thesis by blast
qed

section \<open>Generating keys\<close>

text \<open>
  An RSA key is generated only from a template that gives a modulus size, of at least
  1024 bits, the last size given is the one used, and every public exponent in it is empty
  or ends in the 64 bits of 65537.
\<close>

lemma rsa_generation_guards:
  assumes "generateRSAKeyPair env tmpl w = (Inr key, w')"
  shows "\<exists>bits. last_ulong attributeModulusBits tmpl = Some bits \<and> 1024 \<le> bits \<and>
    env_rsa_GenerateKey env (sint bits) w = (Inr key, w') \<and>
    (\<forall>t \<in> set tmpl. a_typ t = attributePublicExponent \<longrightarrow>
       slice (a_bytes t) = [] \<or> big_Int64 (setBytes (slice (a_bytes t))) = 65537)"
proof -
  obtain bits where t: "rsa_template tmpl None = Inr (Some bits)" and b: "\<not> bits < 1024"
    and k: "or_general_error (env_rsa_GenerateKey env (sint bits)) w = (Inr key, w')"
    using assms by (auto simp: generateRSAKeyPair_def split: sum.splits option.splits if_splits)
  have "env_rsa_GenerateKey env (sint bits) w = (Inr key, w')"
    using k by (auto simp: or_general_error_def split: prod.splits sum.splits)
  then show ?thesis using rsa_template_Inr [OF t] b unfolding last_ulong_def
    by (intro exI [of _ bits]) (simp add: not_less)
qed

lemma rsa_generation_guards_witness:
  "\<exists>bits. last_ulong attributeModulusBits [ulong_attribute attributeModulusBits 2048] = Some bits \<and>
    1024 \<le> bits \<and>
    env_rsa_GenerateKey sample_env (sint bits) 0 =
      (Inr (OtherSigner (RsaPublicKey (2 ^ 1023) 65537) 0), 0) \<and>
    (\<forall>t \<in> set [ulong_attribute attributeModulusBits 2048]. a_typ t = attributePublicExponent \<longrightarrow>
       slice (a_bytes t) = [] \<or> big_Int64 (setBytes (slice (a_bytes t))) = 65537)"
  by (rule rsa_generation_guards)
    (simp add: generateRSAKeyPair_def or_general_error_def sample_env_def setUint64_def
      ulong_attribute_def empty_attribute_def)

lemma big_Int64_exponent: "big_Int64 n = 65537 \<longleftrightarrow> n mod 2 ^ 64 = 65537"
proof -
  have "big_Int64 n = 65537 \<longleftrightarrow> (of_nat n :: uint64) = 65537"
  proof
    assume "big_Int64 n = 65537"
    then have "sint (of_nat n :: uint64) = sint (65537 :: uint64)" by (simp add: big_Int64_def)
    then show "(of_nat n :: uint64) = 65537" by (simp only: signed_word_eqI)
  qed (simp add: big_Int64_def)
  also have "\<dots> \<longleftrightarrow> (of_nat n :: uint64) = of_nat 65537" by simp
  also have "\<dots> \<longleftrightarrow> n mod 2 ^ 64 = 65537"
    unfolding word_of_nat_eq_iff by (simp add: take_bit_eq_mod)
  finally show ?thesis .
qed

text \<open>A request for an RSA key pair of a size and with an exponent.\<close>

definition rsa_pair_template :: "uint64 \<Rightarrow> bytes \<Rightarrow> attribute list" where
  "rsa_pair_template bits e =
     [ulong_attribute attributeModulusBits bits, bytes_attribute attributePublicExponent (Some e)]"

abbreviation rsa_pair_gen :: mechanism where
  "rsa_pair_gen \<equiv> \<lparr>m_typ = ckmRSAKeyPairGen, m_params = ParamsBytes []\<rparr>"

lemma rsa_pair_template_accepted:
  assumes "e \<noteq> []"
  shows "rsa_template (rsa_pair_template bits e) None =
    (if setBytes e mod 2 ^ 64 = 65537 then Inr (Some bits) else Inl (Pkcs11 errAttributeValueInvalid))"
  unfolding rsa_pair_template_def big_Int64_exponent [symmetric]
  using assms by (simp add: setUint64_def) (simp add: attribute_defs)

text \<open>
  C37: The exponent of a template is compared by its low 64 bits only. Any other than 65537 in those
  bits is refused, but one that only ends in them, such as 2^64 + 65537, is accepted: if the
  library makes a key of that size, with its fixed exponent 65537, the request succeeds with this very
  key, and the public key object claims the exponent that was asked for instead of the
  key's own.
\<close>

theorem rsa_exponent_truncated:
  assumes "env_rsa_GenerateKey env (sint bits) w = (Inr key, w1)" and "1024 \<le> bits"
    and "signer_Public key = RsaPublicKey n 65537"
    and "env_MarshalPKIXPublicKey env (RsaPublicKey n 65537) = Inr spki"
    and "\<And>u. \<exists>i u'. env_rand_Int env maxUint64 u = (Inr i, u')"
    and "e \<noteq> []"
  shows "(setBytes e mod 2 ^ 64 \<noteq> 65537 \<longrightarrow>
      generateKeyPair env rsa_pair_gen (rsa_pair_template bits e) [] w =
        (Inl (Pkcs11 errAttributeValueInvalid), w)) \<and>
    (setBytes e mod 2 ^ 64 = 65537 \<longrightarrow> (\<exists>pub priv w'.
      generateKeyPair env rsa_pair_gen (rsa_pair_template bits e) [] w = (Inr (pub, priv), w') \<and>
      obj_pub pub = Some (RsaPublicKey n 65537) \<and> obj_priv priv = Some key \<and>
      obj_attributeValue pub attributePublicExponent =
        Some (bytes_attribute attributePublicExponent (Some e)))) \<and>
    setBytes [1, 0, 0, 0, 0, 0, 1, 0, 1] = 2 ^ 64 + 65537"
proof (intro conjI impI)
  note t = rsa_pair_template_accepted [OF assms(6), of bits]
  have "\<not> bits < 1024" using assms(2) by simp
  show "generateKeyPair env rsa_pair_gen (rsa_pair_template bits e) [] w =
      (Inl (Pkcs11 errAttributeValueInvalid), w)" if "setBytes e mod 2 ^ 64 \<noteq> 65537"
    using t that by (simp add: generateKeyPair_def generateRSAKeyPair_def act_bind_def)
  show "\<exists>pub priv w'.
      generateKeyPair env rsa_pair_gen (rsa_pair_template bits e) [] w = (Inr (pub, priv), w') \<and>
      obj_pub pub = Some (RsaPublicKey n 65537) \<and> obj_priv priv = Some key \<and>
      obj_attributeValue pub attributePublicExponent =
        Some (bytes_attribute attributePublicExponent (Some e))"
    if low: "setBytes e mod 2 ^ 64 = 65537"
  proof -
    have key: "generateRSAKeyPair env (rsa_pair_template bits e) w = (Inr key, w1)"
      using t low \<open>\<not> bits < 1024\<close> assms(1) by (simp add: generateRSAKeyPair_def or_general_error_def)
    obtain i u where i: "env_rand_Int env maxUint64 w1 = (Inr i, u)" using assms(5) by blast
    obtain j v where j: "env_rand_Int env maxUint64 u = (Inr j, v)" using assms(5) by blast
    have made: "\<exists>as. newKeyObject env (RsaPublicKey n 65537) p = Inr as" for p
      using assms(4) by (simp add: newKeyObject_def)
    obtain pas where pas: "newKeyObject env (RsaPublicKey n 65537) False = Inr pas" using made by blast
    obtain sas where sas: "newKeyObject env (RsaPublicKey n 65537) True = Inr sas" using made by blast
    have "generateKeyPair env rsa_pair_gen (rsa_pair_template bits e) [] w =
      (Inr (setAttributes \<lparr>obj_id = of_nat i, obj_attributes = pas, obj_pub = Some (RsaPublicKey n 65537),
          obj_priv = None\<rparr> (rsa_pair_template bits e),
        setAttributes \<lparr>obj_id = of_nat j, obj_attributes = sas, obj_pub = None, obj_priv = Some key\<rparr> []), v)"
      using key i j pas sas assms(3)
      by (simp add: generateKeyPair_def NewPublicKeyObject_def NewPrivateKeyObject_def newObjectID_def act_bind_def)
    moreover have "obj_attributeValue (setAttributes obj (rsa_pair_template bits e)) attributePublicExponent =
        Some (bytes_attribute attributePublicExponent (Some e))" for obj
      unfolding rsa_pair_template_def obj_attributeValue_def setAttributes_def by (simp add: attrs.find_upd)
    moreover have "obj_pub (setAttributes obj as) = obj_pub obj" "obj_priv (setAttributes obj as) = obj_priv obj"
      for obj as
      by (simp_all add: setAttributes_def)
    ultimately show ?thesis by simp
  qed
  show "setBytes [1, 0, 0, 0, 0, 0, 1, 0, 1] = 2 ^ 64 + 65537" by (simp add: setBytes_def)
qed

theorem rsa_exponent_truncated_witness:
  "(\<exists>pub priv w'. generateKeyPair sample_env rsa_pair_gen
      (rsa_pair_template 2048 [1, 0, 0, 0, 0, 0, 1, 0, 1]) [] 0 = (Inr (pub, priv), w') \<and>
    obj_pub pub = Some (RsaPublicKey (2 ^ 1023) 65537) \<and>
    obj_attributeValue pub attributePublicExponent =
      Some (bytes_attribute attributePublicExponent (Some [1, 0, 0, 0, 0, 0, 1, 0, 1]))) \<and>
    generateKeyPair sample_env rsa_pair_gen (rsa_pair_template 2048 [3]) [] 0 =
      (Inl (Pkcs11 errAttributeValueInvalid), 0)"
proof -
  let ?key = "OtherSigner (RsaPublicKey (2 ^ 1023) 65537) 0"
  have env: "env_rsa_GenerateKey sample_env (sint (2048 :: uint64)) 0 = (Inr ?key, 0)"
    "signer_Public ?key = RsaPublicKey (2 ^ 1023) 65537"
    "env_MarshalPKIXPublicKey sample_env (RsaPublicKey (2 ^ 1023) 65537) = Inr [1, 2]"
    "\<exists>i u'. env_rand_Int sample_env maxUint64 u = (Inr i, u')" for u
    by (simp_all add: sample_env_def)
  have b: "(1024 :: uint64) \<le> 2048" by simp
  have e: "[1, 0, 0, 0, 0, 0, 1, 0, 1 :: byte] \<noteq> []" "[3 :: byte] \<noteq> []"
    "setBytes [1, 0, 0, 0, 0, 0, 1, 0, 1] mod 2 ^ 64 = 65537" "setBytes [3] mod 2 ^ 64 \<noteq> 65537"
    by (simp_all add: setBytes_def)
  from rsa_exponent_truncated [OF env(1) b env(2,3,4) e(1)] rsa_exponent_truncated [OF env(1) b env(2,3,4) e(2)]
  show ?thesis using e(3,4) by blast
qed

lemma sample_generates:
  "\<exists>pub priv w'. generateKeyPair sample_env \<lparr>m_typ = ckmRSAKeyPairGen, m_params = ParamsBytes []\<rparr>
     [ulong_attribute attributeModulusBits 2048] privTmpl 0 = (Inr (pub, priv), w')"
proof -
  have "rsa_template [ulong_attribute attributeModulusBits 2048] None = Inr (Some 2048)"
    by (simp add: setUint64_def) (simp add: attribute_defs)
  then show ?thesis
    by (simp add: generateKeyPair_def generateRSAKeyPair_def or_general_error_def sample_env_def
        NewPublicKeyObject_def NewPrivateKeyObject_def newObjectID_def newKeyObject_def act_bind_def)
qed

text \<open>
  A generated pair is two halves of one key: the public object carries the public key of
  the private object's signer, only the private object can sign, and with well-typed
  templates both are well-formed objects.
\<close>

lemma generated_pair_belongs_together:
  assumes "generateKeyPair env m pubTmpl privTmpl w = (Inr (pub, priv), w')"
    and "\<forall>a \<in> set pubTmpl \<union> set privTmpl. typed_attribute a"
  shows "\<exists>key. obj_pub pub = Some (signer_Public key) \<and> obj_priv pub = None \<and>
    obj_pub priv = None \<and> obj_priv priv = Some key \<and> wf_object pub \<and> wf_object priv"
  using generateKeyPair_wf [OF assms] generateKeyPair_Inr [OF assms(1)] by metis

lemma generated_pair_belongs_together_witness:
  "\<exists>pub priv w'. generateKeyPair sample_env \<lparr>m_typ = ckmRSAKeyPairGen, m_params = ParamsBytes []\<rparr>
      [ulong_attribute attributeModulusBits 2048] [byte_attribute attributeToken 0] 0
      = (Inr (pub, priv), w') \<and>
    (\<exists>key. obj_pub pub = Some (signer_Public key) \<and> obj_priv pub = None \<and>
      obj_pub priv = None \<and> obj_priv priv = Some key \<and> wf_object pub \<and> wf_object priv)"
proof -
  let ?t = "[ulong_attribute attributeModulusBits 2048]"
  obtain pub priv w' where g: "generateKeyPair sample_env
      \<lparr>m_typ = ckmRSAKeyPairGen, m_params = ParamsBytes []\<rparr> ?t [byte_attribute attributeToken 0] 0
        = (Inr (pub, priv), w')"
    using sample_generates by blast
  have "\<forall>a \<in> set ?t \<union> set [byte_attribute attributeToken 0]. typed_attribute a"
    by (simp add: valueType_key)
  from generated_pair_belongs_together [OF g this] g show ?thesis by blast
qed

section \<open>Signatures\<close>

text \<open>
  C19: When the signer returns the DER encoding of a signature whose numbers fit the curve,
  \<^verbatim>\<open>CKM_ECDSA\<close> answers with twice the curve's width in bytes, and the two halves are the two
  numbers, big-endian and padded.
\<close>

theorem ecdsa_signature_fixed_width:
  fixes r s :: nat
  assumes "noParams m" and "signer_Public priv = EcdsaPublicKey c x y"
    and "env_Sign env priv data (HashOpts NoHash) w = (Inr (Some (marshalSig (int r) (int s))), w')"
    and "width = (curve_N_BitLen c + 7) div 8" and "width < 2 ^ 20"
    and "r < 256 ^ width" and "s < 256 ^ width"
  shows "\<exists>sg. signECDSA env priv m data w = (Inr (Some sg), w') \<and> length sg = 2 * width \<and>
    setBytes (take width sg) = r \<and> setBytes (drop width sg) = s"
proof -
  have "bitLen r \<le> 8 * width" "bitLen s \<le> 8 * width"
    using assms(6,7) by (simp_all add: bitLen_le power_mult)
  then obtain sg where raw: "raw_signature width (int r) (int s) = Inr (Some sg)"
    using raw_signature_cases [of width "int r" "int s"]
      fillBytes_bitLen [of r width] fillBytes_bitLen [of s width]
    by (fastforce simp: mult.commute not_less)
  have "unmarshalSig (marshalSig (int r) (int s)) = Some (int r, int s)"
    by (rule unmarshalSig_small) (use assms in simp_all)
  then have "signECDSA env priv m data w = (Inr (Some sg), w')"
    using assms(1-4) raw by (simp add: signECDSA_def)
  then show ?thesis using raw_signature_split [OF raw] by simp
qed

theorem ecdsa_signature_fixed_width_witness:
  "\<exists>sg. signECDSA sample_env (EcdsaPrivateKey P256 1 2 3)
      \<lparr>m_typ = ckmECDSA, m_params = ParamsBytes []\<rparr> [9] 0 = (Inr (Some sg), 0) \<and> length sg = 2 * 32 \<and>
    setBytes (take 32 sg) = 5 \<and> setBytes (drop 32 sg) = 6"
  by (rule ecdsa_signature_fixed_width [of _ _ P256 1 2]) (simp_all add: noParams_def sample_env_def)

text \<open>
  C32: \<^verbatim>\<open>CKM_RSA_PKCS\<close> hands the signer a hash and a digest exactly when the data is one of
  the four DigestInfo prefixes and that digest, in whatever order Go iterates over the
  prefixes; other data is refused without touching the key.
\<close>

theorem rsa_pkcs_splits_digest_info:
  assumes "noParams m"
  shows "(\<forall>h p d. (h, p) \<in> set hashPrefixes \<longrightarrow>
      signRSAPKCS env priv m (p @ d) = env_Sign env priv d (HashOpts h)) \<and>
    ((\<forall>(h, p) \<in> set hashPrefixes. \<not> has_prefix data p) \<longrightarrow>
      signRSAPKCS env priv m data = act_fail (Pkcs11 errArgumentsBad)) \<and>
    (\<forall>order. set order = set hashPrefixes \<longrightarrow>
      split_prefix order data = split_prefix hashPrefixes data)"
proof (intro conjI allI impI)
  fix h p d
  assume "(h, p) \<in> set hashPrefixes"
  then have "split_prefix hashPrefixes (p @ d) = Some (h, d)"
    using split_prefix_iff [OF refl] by blast
  then show "signRSAPKCS env priv m (p @ d) = env_Sign env priv d (HashOpts h)"
    using assms by (simp add: signRSAPKCS_def)
next
  assume "\<forall>(h, p) \<in> set hashPrefixes. \<not> has_prefix data p"
  then have "split_prefix hashPrefixes data = None" by (simp only: split_prefix_None)
  then show "signRSAPKCS env priv m data = act_fail (Pkcs11 errArgumentsBad)"
    using assms by (simp add: signRSAPKCS_def)
qed (rule split_prefix_order)

theorem rsa_pkcs_splits_digest_info_witness:
  "signRSAPKCS sample_env (OtherSigner (RsaPublicKey 4 3) 0)
      \<lparr>m_typ = ckmRSAPKCS, m_params = ParamsBytes []\<rparr>
      ([0x30, 0x31, 0x30, 0x0d, 6, 9, 0x60, 0x86, 0x48, 1, 0x65, 3, 4, 2, 1,
        5, 0, 4, 0x20] @ [1, 2, 3]) =
    env_Sign sample_env (OtherSigner (RsaPublicKey 4 3) 0) [1, 2, 3] (HashOpts SHA256)"
  by (rule rsa_pkcs_splits_digest_info [THEN conjunct1, rule_format])
    (simp_all add: noParams_def hashPrefixes_def)

text \<open>
  \<^verbatim>\<open>CKM_RSA_PKCS_PSS\<close> signs only with parameters whose mask generation function is of the
  hash they name, one of SHA-256, SHA-384 and SHA-512, and passes the salt length on as a
  signed number, so 0 and the largest lengths reach the signer as the special values of
  \<^verbatim>\<open>crypto/rsa\<close> (automatic, equal to the hash).
\<close>

lemma pss_parameters_checked:
  "signRSAPKCSPSS env priv \<lparr>m_typ = ckmRSAPKCSPSS, m_params = ParamsPSS p\<rparr> data =
     (case map_of [((ckmSHA256, ckgMGF1SHA256), SHA256), ((ckmSHA384, ckgMGF1SHA384), SHA384),
        ((ckmSHA512, ckgMGF1SHA512), SHA512)] (hashAlg p, mgf p) of
       Some h \<Rightarrow> env_Sign env priv data (PSSOpts h (sint (saltLen p)))
     | None \<Rightarrow> act_fail (Pkcs11 errMechanismParamInvalid)) \<and>
   sint (0 :: uint64) = 0 \<and> sint (0xffffffffffffffff :: uint64) = - 1"
  by (auto simp: signRSAPKCSPSS_def pss_hash_def)

section \<open>Derived secrets\<close>

text \<open>
  C22: The X9.63 key derivation is the hash stream of the counters from 1 on, in as many blocks
  as the length needs, cut to exactly the length asked for; it ends for every hash of a
  fixed, positive size.
\<close>

theorem x963_kdf_specification:
  assumes "\<And>b. length (h b) = sz" and "0 < sz" and "0 < outLen"
  shows "x963KDF h secret shared outLen = Inr (take (nat outLen)
      (concat (map (\<lambda>i. h (secret @ putUint32 (of_nat i) @ shared))
        [1..<1 + (nat outLen + sz - 1) div sz]))) \<and>
    (\<exists>out. x963KDF h secret shared outLen = Inr out \<and> length out = nat outLen)"
  by (intro conjI x963KDF_blocks [unfolded x963_blocks_def] x963KDF_length)
    (rule assms)+

theorem x963_kdf_specification_witness:
  "x963KDF (\<lambda>b. replicate 3 (hd b)) [5] [6] 4 = Inr (take (nat 4)
      (concat (map (\<lambda>i. replicate 3 (hd ([5 :: byte] @ putUint32 (of_nat i) @ [6])))
        [1..<1 + (nat 4 + 3 - 1) div 3]))) \<and>
    (\<exists>out. x963KDF (\<lambda>b. replicate 3 (hd b)) [5] [6] 4 = Inr out \<and> length out = nat 4)"
  by (rule x963_kdf_specification) simp_all

text \<open>
  A resized secret has the length asked for; made longer it keeps its value as a big-endian
  number, made shorter it keeps its leading bytes.
\<close>

lemma resize_secret_correct:
  assumes "resizeSecret secret n = Inr out" and "length secret < 2 ^ 64"
  shows "length out = unat n \<and> (length secret \<le> unat n \<longrightarrow> setBytes out = setBytes secret) \<and>
    (unat n < length secret \<longrightarrow> out = take (unat n) secret)"
  using assms by (rule resizeSecret_length)

lemma sint_positive:
  fixes v :: uint64
  assumes "0 < sint v"
  shows "nat (sint v) = unat v"
proof -
  have "\<not> bit (uint v) 63"
  proof
    assume "bit (uint v) 63"
    then have "signed_take_bit 63 (uint v) < 0" by (simp only: signed_take_bit_negative_iff)
    moreover have "0 < signed_take_bit 63 (uint v)" using assms by (simp add: sint_uint)
    ultimately show False by linarith
  qed
  then have "signed_take_bit 63 (uint v) = take_bit 63 (uint v)"
    by (rule signed_take_bit_eq_if_positive)
  moreover have "take_bit (Suc 63) (uint v) = take_bit 63 (uint v)"
    using \<open>\<not> bit (uint v) 63\<close> take_bit_Suc_from_most [of 63 "uint v"] by simp
  moreover have "uint v < 2 ^ 64" using unsigned_less [where w = v] by simp
  then have "take_bit (Suc 63) (uint v) = uint v" by (simp add: take_bit_int_eq_self_iff)
  ultimately have "sint v = uint v" by (simp add: sint_uint)
  then show ?thesis by simp
qed

lemma derive_secret_length:
  assumes "derive_secret env p secret n = Inr out" and "length secret < 2 ^ 64"
    and "\<And>h b. h \<noteq> NoHash \<Longrightarrow> length (env_hash_Sum env h b) = hash_Size h"
  shows "length out = unat n"
proof (cases "kdf p = ckdNull")
  case True
  then show ?thesis using assms resizeSecret_length by (simp add: derive_secret_def)
next
  case False
  then obtain h mid where h: "hashForKDF (kdf p) = Inr h"
    and mid: "x963KDF (env_hash_Sum env h) secret (sharedData p) (sint n) = Inr mid"
    and out: "resizeSecret mid n = Inr out"
    using assms(1) by (auto simp: derive_secret_def split: sum.splits)
  have pos: "0 < sint n" using mid by (simp add: x963KDF_def split: if_splits)
  have hash: "h \<noteq> NoHash" "0 < hash_Size h" using h by (auto simp: hashForKDF_def split: if_splits)
  have "length mid = nat (sint n)"
    using x963KDF_length [of "env_hash_Sum env h" "hash_Size h" "sint n" secret "sharedData p"]
      assms(3) [OF hash(1)] hash(2) pos mid by auto
  then have "length mid = unat n" using sint_positive [OF pos] by simp
  moreover have "unat n < 2 ^ 64" using unsigned_less [of n] by simp
  ultimately show ?thesis using resizeSecret_length [OF out] by simp
qed

lemma ecdhSharedSecret_Inr:
  "ecdhSharedSecret env c d q = Inr secret \<Longrightarrow>
     length q = 1 + 2 * length secret \<and> length secret = (curve_BitSize c + 7) div 8 \<and>
     env_IsOnCurve env c (setBytes (take (length secret) (drop 1 q)))
       (setBytes (drop (1 + length secret) q))"
  by (auto simp: ecdhSharedSecret_def Let_def dest!: fillBytes_SomeD split: if_splits option.splits)

lemma derive_guards_Inr:
  assumes "derive_guards m base = Inr (p, c, d)"
  shows "\<exists>x y a derive. m_params m = ParamsECDH1 p \<and> obj_priv base = Some (EcdsaPrivateKey c x y d) \<and>
    obj_attributeValue base attributeDerive = Some a \<and> setByte a = Some derive \<and> derive \<noteq> 0"
  using assms by (auto simp: derive_guards_def split: params.splits option.splits signer.splits if_splits)

text \<open>
  C21: A key is derived only with ECDH parameters, from an EC private key marked with
  \<^verbatim>\<open>CKA_DERIVE\<close>, with a peer point of the right size on the curve; what is derived is an
  object without keys whose \<^verbatim>\<open>CKA_VALUE\<close> is as long as its \<^verbatim>\<open>CKA_VALUE_LEN\<close> says.
\<close>

theorem derive_guards_and_result:
  assumes "deriveECDH env m base tmpl w = (Inr obj, w')"
    and "\<And>h b. h \<noteq> NoHash \<Longrightarrow> length (env_hash_Sum env h b) = hash_Size h"
    and "\<And>p. m_params m = ParamsECDH1 p \<Longrightarrow> length (publicData p) < 2 ^ 32"
  shows "\<exists>p c x y d a derive len secret n. m_params m = ParamsECDH1 p \<and>
    obj_priv base = Some (EcdsaPrivateKey c x y d) \<and>
    obj_attributeValue base attributeDerive = Some a \<and> setByte a = Some derive \<and> derive \<noteq> 0 \<and>
    len = (curve_BitSize c + 7) div 8 \<and> length (publicData p) = 1 + 2 * len \<and>
    env_IsOnCurve env c (setBytes (take len (drop 1 (publicData p))))
      (setBytes (drop (1 + len) (publicData p))) \<and>
    obj_pub obj = None \<and> obj_priv obj = None \<and>
    obj_attributeValue obj attributeValue = Some (bytes_attribute attributeValue (Some secret)) \<and>
    obj_attributeValue obj attributeValueLen = Some (ulong_attribute attributeValueLen n) \<and>
    length secret = unat n"
proof -
  obtain p c d where g: "derive_guards m base = Inr (p, c, d)"
    using assms(1) by (auto simp: deriveECDH_def split: sum.splits)
  obtain z where z: "ecdhSharedSecret env c d (publicData p) = Inr z"
    using assms(1) g by (auto simp: deriveECDH_def split: sum.splits)
  obtain cls keyType n where t: "derive_template tmpl
      (ckoSecretKey, ckkGenericSecret, of_nat (length z)) = (cls, keyType, n)"
    by (metis prod_cases3)
  obtain secret i where secret: "derive_secret env p z n = Inr secret"
    and obj: "obj = \<lparr>obj_id = i, obj_attributes = derived_attributes cls keyType secret n,
      obj_pub = None, obj_priv = None\<rparr>"
    using assms(1) g z t by (auto simp: deriveECDH_def elim!: act_bind_InrE)
  have guards: "\<exists>x y a derive. m_params m = ParamsECDH1 p \<and>
      obj_priv base = Some (EcdsaPrivateKey c x y d) \<and>
      obj_attributeValue base attributeDerive = Some a \<and> setByte a = Some derive \<and> derive \<noteq> 0"
    by (rule derive_guards_Inr [OF g])
  have "length z < 2 ^ 64" using ecdhSharedSecret_Inr [OF z] assms(3) guards by fastforce
  then have "length secret = unat n" using derive_secret_length [OF secret] assms(2) by blast
  moreover have "obj_attributeValue obj attributeValue = Some (bytes_attribute attributeValue (Some secret))"
    "obj_attributeValue obj attributeValueLen = Some (ulong_attribute attributeValueLen n)"
    by (simp_all add: obj obj_attributeValue_def derived_attributes_def)
  moreover have "obj_pub obj = None" "obj_priv obj = None" by (simp_all add: obj)
  ultimately show ?thesis using guards ecdhSharedSecret_Inr [OF z] by metis
qed

text \<open>The point that a public object publishes, as a peer sends it.\<close>

lemma elliptic_Marshal_Inr:
  assumes "elliptic_Marshal c x y = Inr q" and "len = (curve_BitSize c + 7) div 8"
  shows "length q = 1 + 2 * len \<and> q ! 0 = 4 \<and> setBytes (take len (drop 1 q)) = x \<and>
    setBytes (drop (1 + len) q) = y"
  using assms by (auto simp: elliptic_Marshal_def Let_def dest!: fillBytes_SomeD split: option.splits)

abbreviation sample_mech :: "uint64 \<Rightarrow> mechanism" where
  "sample_mech k \<equiv> \<lparr>m_typ = ckmECDH1Derive, m_params = ParamsECDH1
      \<lparr>kdf = k, sharedData = [], publicData = 4 # replicate 64 1\<rparr>\<rparr>"

abbreviation sample_base :: object where
  "sample_base \<equiv> SetDerive (zero_object\<lparr>obj_priv := Some (EcdsaPrivateKey P256 5 2 3)\<rparr>)"

lemma sample_guards: "derive_guards (sample_mech k) sample_base =
    Inr (\<lparr>kdf = k, sharedData = [], publicData = 4 # replicate 64 1\<rparr>, P256, 3)"
  by (simp add: derive_guards_def SetDerive_def zero_object_def obj_attributeValue_def setByte_def)
    (simp add: attribute_defs)

lemma sample_secret: "\<exists>z. ecdhSharedSecret sample_env P256 3 (4 # replicate 64 1) = Inr z \<and> length z = 32"
proof -
  have "setBytes (replicate 32 1) < 256 ^ 32" using setBytes_bound [of "replicate 32 1"] by simp
  then obtain z where "fillBytes (setBytes (replicate 32 1)) 32 = Some z"
    using fillBytes_Some_iff [of "setBytes (replicate 32 1)" 32] by auto
  then show ?thesis
    using fillBytes_SomeD by (auto simp: ecdhSharedSecret_def sample_env_def Let_def)
qed

theorem derive_guards_and_result_witness:
  "\<exists>obj w'. deriveECDH sample_env (sample_mech ckdSHA256KDF) sample_base [] 0 = (Inr obj, w') \<and>
    (\<exists>secret n. obj_attributeValue obj attributeValue = Some (bytes_attribute attributeValue (Some secret)) \<and>
      obj_attributeValue obj attributeValueLen = Some (ulong_attribute attributeValueLen n) \<and>
      length secret = unat n)"
proof -
  let ?p = "\<lparr>kdf = ckdSHA256KDF, sharedData = [], publicData = 4 # replicate 64 1\<rparr>"
  obtain z where z: "ecdhSharedSecret sample_env P256 3 (4 # replicate 64 1) = Inr z" "length z = 32"
    using sample_secret by blast
  have len: "length (env_hash_Sum sample_env h b) = hash_Size h" for h b by (simp add: sample_env_def)
  obtain out where out: "x963KDF (env_hash_Sum sample_env SHA256) z [] 32 = Inr out" "length out = 32"
    using x963KDF_length [of "env_hash_Sum sample_env SHA256" "hash_Size SHA256" 32 z "[]"] len by auto
  have id: "newObjectID sample_env 0 = (Inr 0, 1)"
    by (simp add: newObjectID_def act_bind_def sample_env_def)
  have "derive_secret sample_env ?p z 32 = Inr out"
    using out by (simp add: derive_secret_def hashForKDF_def resizeSecret_def)
  then have "\<exists>obj w'. deriveECDH sample_env (sample_mech ckdSHA256KDF) sample_base [] 0 = (Inr obj, w')"
    using z id by (simp add: deriveECDH_def sample_guards act_bind_def)
  then obtain obj w' where d: "deriveECDH sample_env (sample_mech ckdSHA256KDF) sample_base [] 0 = (Inr obj, w')"
    by blast
  from derive_guards_and_result [OF d] len show ?thesis using d by fastforce
qed

text \<open>
  What a public key publishes as its point is what a peer may derive with: the uncompressed
  point is accepted, and the secret is the x-coordinate of the scalar times that very point.
\<close>

lemma published_point_derives:
  assumes "elliptic_Marshal c x y = Inr q" and "env_IsOnCurve env c x y"
  shows "ecdhSharedSecret env c d q =
    (case fillBytes (fst (env_ScalarMult env c x y (bigBytes d))) ((curve_BitSize c + 7) div 8) of
       None \<Rightarrow> Inl RuntimePanic | Some secret \<Rightarrow> Inr secret)"
  using elliptic_Marshal_Inr [OF assms(1) refl] assms(2)
  by (simp add: ecdhSharedSecret_def Let_def)

lemma published_point_derives_witness:
  "\<exists>q. elliptic_Marshal P256 1 2 = Inr q \<and> ecdhSharedSecret sample_env P256 3 q =
    (case fillBytes (fst (env_ScalarMult sample_env P256 1 2 (bigBytes 3))) ((curve_BitSize P256 + 7) div 8) of
       None \<Rightarrow> Inl RuntimePanic | Some secret \<Rightarrow> Inr secret)"
proof -
  have "fillBytes 1 32 \<noteq> None" "fillBytes 2 32 \<noteq> None" unfolding fillBytes_Some_iff by simp_all
  then obtain q where q: "elliptic_Marshal P256 1 2 = Inr q"
    by (auto simp: elliptic_Marshal_def)
  have "env_IsOnCurve sample_env P256 1 2" by (simp add: sample_env_def)
  from published_point_derives [OF q this, of 3] q show ?thesis by blast
qed

text \<open>The mechanism of \<^verbatim>\<open>C_DeriveKey\<close> with a peer's point.\<close>

definition ecdh_with :: "uint64 \<Rightarrow> bytes \<Rightarrow> bytes \<Rightarrow> mechanism" where
  "ecdh_with k shared point = \<lparr>m_typ = ckmECDH1Derive,
     m_params = ParamsECDH1 \<lparr>kdf = k, sharedData = shared, publicData = point\<rparr>\<rparr>"

lemma SetDerive_permits: "\<exists>a. obj_attributeValue (SetDerive obj) attributeDerive = Some a \<and> setByte a = Some bTrue"
proof -
  have "\<exists>a. find_attribute (set_derive bs) attributeDerive = Some a \<and> setByte a = Some bTrue" for bs
    by (induction bs) (simp_all add: setByte_def, simp add: attribute_defs)
  then show ?thesis by (simp add: obj_attributeValue_def SetDerive_def)
qed

lemma derive_guards_permitted:
  "obj_priv obj = Some (EcdsaPrivateKey c x y d) \<Longrightarrow>
    derive_guards (ecdh_with k shared point) (SetDerive obj) =
      Inr (\<lparr>kdf = k, sharedData = shared, publicData = point\<rparr>, c, d)"
  using SetDerive_permits [of obj] by (auto simp: derive_guards_def ecdh_with_def SetDerive_def)

lemma sample_public_object:
  assumes "x < 256 ^ 32" and "y < 256 ^ 32"
  shows "\<exists>obj w'. NewPublicKeyObject sample_env (EcdsaPublicKey P256 x y) w = (Inr obj, w')"
proof -
  obtain q where "elliptic_Marshal P256 x y = Inr q"
    using assms fillBytes_Some_iff [of x 32] fillBytes_Some_iff [of y 32]
    by (auto simp: elliptic_Marshal_def)
  moreover obtain b where "marshalOID oidNamedCurveP256 = Some b"
    using marshalOID_named [of P256 oidNamedCurveP256] by auto
  ultimately show ?thesis
    by (simp add: NewPublicKeyObject_def newKeyObject_def ecdsa_attributes_def newObjectID_def
        act_bind_def sample_env_def Let_def)
qed

lemma public_object_point:
  assumes "NewPublicKeyObject env (EcdsaPublicKey c x y) w = (Inr obj, w')"
  shows "\<exists>q. elliptic_Marshal c x y = Inr q \<and> obj_attributeValue obj attributeECPoint =
    Some (bytes_attribute attributeECPoint (Some (marshalOctets q)))"
proof -
  obtain as where as: "newKeyObject env (EcdsaPublicKey c x y) False = Inr as" "obj_attributes obj = as"
    using assms by (auto simp: NewPublicKeyObject_def elim!: act_bind_InrE)
  obtain spki extra where split: "as = common_attributes False spki @ extra"
    and k: "ecdsa_attributes False c x y = Inr extra"
    using as(1) by (rule newKeyObject_Inr) blast
  have "find_attribute (common_attributes False spki) attributeECPoint = None"
    by (simp add: common_attributes_def)
  moreover obtain q where "elliptic_Marshal c x y = Inr q"
    "find_attribute extra attributeECPoint = Some (bytes_attribute attributeECPoint (Some (marshalOctets q)))"
    using k by (auto simp: ecdsa_attributes_def Let_def split: option.splits sum.splits)
  ultimately show ?thesis
    by (auto simp: obj_attributeValue_def as(2) split find_attribute_append)
qed

text \<open>
  C39: Two parties that derive from each other's published points get the same key: each takes the
  point out of the other's \<^verbatim>\<open>CKA_EC_POINT\<close>, and then both derivations succeed or fail alike, with
  the same attributes, whatever function, shared data and template they agree on. The curve's
  multiplication must give both the same x-coordinate, which is what a Diffie-Hellman exchange
  rests on.
\<close>

theorem both_sides_derive_same_key:
  assumes "NewPublicKeyObject env (EcdsaPublicKey c xa ya) u = (Inr pub_a, u')"
    and "NewPublicKeyObject env (EcdsaPublicKey c xb yb) v = (Inr pub_b, v')"
    and "obj_priv a = Some (EcdsaPrivateKey c xa ya da)" and "obj_priv b = Some (EcdsaPrivateKey c xb yb db)"
    and "env_IsOnCurve env c xa ya" and "env_IsOnCurve env c xb yb"
    and "fst (env_ScalarMult env c xb yb (bigBytes da)) = fst (env_ScalarMult env c xa ya (bigBytes db))"
  shows "\<exists>qa qb. elliptic_Marshal c xa ya = Inr qa \<and> elliptic_Marshal c xb yb = Inr qb \<and>
    obj_attributeValue pub_a attributeECPoint = Some (bytes_attribute attributeECPoint (Some (marshalOctets qa))) \<and>
    obj_attributeValue pub_b attributeECPoint = Some (bytes_attribute attributeECPoint (Some (marshalOctets qb))) \<and>
    deriveECDH env (ecdh_with k shared qb) (SetDerive a) tmpl w =
      deriveECDH env (ecdh_with k shared qa) (SetDerive b) tmpl w \<and>
    (\<forall>w1 w2 w1' w2' obj1 obj2.
      deriveECDH env (ecdh_with k shared qb) (SetDerive a) tmpl w1 = (Inr obj1, w1') \<and>
      deriveECDH env (ecdh_with k shared qa) (SetDerive b) tmpl w2 = (Inr obj2, w2') \<longrightarrow>
      obj_attributes obj1 = obj_attributes obj2)"
proof -
  obtain qa where qa: "elliptic_Marshal c xa ya = Inr qa"
    "obj_attributeValue pub_a attributeECPoint = Some (bytes_attribute attributeECPoint (Some (marshalOctets qa)))"
    using public_object_point [OF assms(1)] by blast
  obtain qb where qb: "elliptic_Marshal c xb yb = Inr qb"
    "obj_attributeValue pub_b attributeECPoint = Some (bytes_attribute attributeECPoint (Some (marshalOctets qb)))"
    using public_object_point [OF assms(2)] by blast
  have secret: "ecdhSharedSecret env c da qb = ecdhSharedSecret env c db qa"
    using published_point_derives [OF qa(1) assms(5)] published_point_derives [OF qb(1) assms(6)] assms(7)
    by simp
  have same: "derive_secret env \<lparr>kdf = k, sharedData = shared, publicData = qb\<rparr> z n =
      derive_secret env \<lparr>kdf = k, sharedData = shared, publicData = qa\<rparr> z n" for z n
    by (simp add: derive_secret_def cong: sum.case_cong)
  have eq: "deriveECDH env (ecdh_with k shared qb) (SetDerive a) tmpl w =
      deriveECDH env (ecdh_with k shared qa) (SetDerive b) tmpl w" for w
    unfolding deriveECDH_def derive_guards_permitted [OF assms(3)] derive_guards_permitted [OF assms(4)]
    by (simp add: secret same split: sum.split prod.split)
  have "obj_attributes obj1 = obj_attributes obj2"
    if "deriveECDH env m base tmpl w1 = (Inr obj1, w1')" "deriveECDH env m base tmpl w2 = (Inr obj2, w2')"
    for m base w1 w2 obj1 obj2 w1' w2'
    using that by (auto simp: deriveECDH_def elim!: act_bind_InrE split: sum.splits prod.splits)
  then show ?thesis using qa qb eq by metis
qed

theorem both_sides_derive_same_key_witness:
  "\<exists>qa qb obj w'.
    deriveECDH sample_env (ecdh_with ckdNull [] qb)
      (SetDerive (zero_object\<lparr>obj_priv := Some (EcdsaPrivateKey P256 1 2 3)\<rparr>)) [] 0 = (Inr obj, w') \<and>
    deriveECDH sample_env (ecdh_with ckdNull [] qa)
      (SetDerive (zero_object\<lparr>obj_priv := Some (EcdsaPrivateKey P256 1 4 5)\<rparr>)) [] 0 = (Inr obj, w')"
proof -
  let ?a = "zero_object\<lparr>obj_priv := Some (EcdsaPrivateKey P256 1 2 3)\<rparr>"
  let ?b = "zero_object\<lparr>obj_priv := Some (EcdsaPrivateKey P256 1 4 5)\<rparr>"
  obtain pub_a u where a: "NewPublicKeyObject sample_env (EcdsaPublicKey P256 1 2) 0 = (Inr pub_a, u)"
    using sample_public_object [of 1 2 0] by auto
  obtain pub_b v where b: "NewPublicKeyObject sample_env (EcdsaPublicKey P256 1 4) 0 = (Inr pub_b, v)"
    using sample_public_object [of 1 4 0] by auto
  have "obj_priv ?a = Some (EcdsaPrivateKey P256 1 2 3)" "obj_priv ?b = Some (EcdsaPrivateKey P256 1 4 5)"
    "env_IsOnCurve sample_env P256 x y" "fst (env_ScalarMult sample_env P256 1 y d) = 1" for x y d
    by (simp_all add: sample_env_def)
  note both_sides_derive_same_key [OF a b this(1,2,3,3), unfolded this(4), OF refl, of ckdNull "[]" "[]" 0]
  then obtain qa qb where q: "elliptic_Marshal P256 1 4 = Inr qb"
    "deriveECDH sample_env (ecdh_with ckdNull [] qb) (SetDerive ?a) [] 0 =
      deriveECDH sample_env (ecdh_with ckdNull [] qa) (SetDerive ?b) [] 0"
    by blast
  obtain z where z: "fillBytes 1 32 = Some z" using fillBytes_Some_iff [of 1 32] by auto
  have "ecdhSharedSecret sample_env P256 3 qb = Inr z"
    using published_point_derives [OF q(1), of sample_env 3] z by (simp add: sample_env_def)
  then have "\<exists>obj w'. deriveECDH sample_env (ecdh_with ckdNull [] qb) (SetDerive ?a) [] 0 = (Inr obj, w')"
    using derive_guards_permitted [of ?a P256 1 2 3 ckdNull "[]" qb]
    by (simp add: deriveECDH_def derive_secret_def resizeSecret_def newObjectID_def act_bind_def sample_env_def)
  then show ?thesis using q(2) by metis
qed

text \<open>
  C36: With \<^verbatim>\<open>CKD_NULL\<close> the length of the secret is the client's \<^verbatim>\<open>CKA_VALUE_LEN\<close>, unchecked: a
  length beyond the address space makes \<^verbatim>\<open>make\<close> panic, which no handler recovers from.
\<close>

theorem derive_length_unchecked:
  assumes "derive_guards m base = Inr (p, c, d)" and "kdf p = ckdNull"
    and "ecdhSharedSecret env c d (publicData p) = Inr secret" and "length secret < 2 ^ 48"
    and "max_alloc < unat n"
  shows "deriveECDH env m base [ulong_attribute attributeValueLen n] w = (Inl RuntimePanic, w)"
proof -
  have "derive_template [ulong_attribute attributeValueLen n]
      (ckoSecretKey, ckkGenericSecret, of_nat (length secret)) = (ckoSecretKey, ckkGenericSecret, n)"
    by (simp add: setUint64_def) (simp add: attribute_defs)
  moreover have "unat (of_nat (length secret) :: uint64) = length secret"
    using assms(4) by (simp add: unat_of_nat take_bit_nat_eq_self_iff)
  then have "of_nat (length secret) \<noteq> n" using assms(4,5) unfolding max_alloc_def by auto
  then have "derive_secret env p secret n = Inl RuntimePanic"
    using assms(2,5) by (simp add: derive_secret_def resizeSecret_def)
  ultimately show ?thesis using assms(1,3) by (simp add: deriveECDH_def)
qed

theorem derive_length_unchecked_witness:
  "deriveECDH sample_env (sample_mech ckdNull) sample_base
      [ulong_attribute attributeValueLen 0xffffffffffffffff] 0 = (Inl RuntimePanic, 0)"
proof -
  let ?p = "\<lparr>kdf = ckdNull, sharedData = [], publicData = 4 # replicate 64 1\<rparr>"
  obtain z where z: "ecdhSharedSecret sample_env P256 3 (publicData ?p) = Inr z" "length z = 32"
    using sample_secret by auto
  show ?thesis
    by (rule derive_length_unchecked [OF sample_guards _ z(1)])
      (use z(2) in \<open>simp_all add: max_alloc_def\<close>)
qed

end
