(* ===== verification/SessionProperties.thy ===== *)
theory SessionProperties
  imports Requests System KeyProperties
begin

text \<open>
  What the operations of a session guarantee: handles, searches, attribute values,
  multi-part signatures, token initialisation and generated keys, stated over the
  handlers as they answer encoded requests.
\<close>

section \<open>Sample states\<close>

definition sample_slot :: slot where
  "sample_slot = \<lparr>slot_ID = 1, Description = ''d'', Label = [], slot_Manufacturer = ''m'', Model = [],
     Serial = [], HardwareVersion = \<lparr>Major = 0, Minor = 1\<rparr>, FirmwareVersion = \<lparr>Major = 0, Minor = 1\<rparr>,
     Objects = [SetID zero_object 5, SetID zero_object 6], GetObjects = None, Mechanisms = None,
     MechanismInfo = None, Initialized = False\<rparr>"

definition sample_session :: session where
  "sample_session = fresh_session 1 (Objects sample_slot)"

definition sample_state :: "nat state" where
  "sample_state = \<lparr>world = 0, server = \<lparr>Manufacturer = [], Library = [],
     LibraryVersion = \<lparr>Major = 0, Minor = 0\<rparr>, Slots = [sample_slot]\<rparr>,
     conn = \<lparr>lastSessionID = 1, sessions = [(1, sample_session)]\<rparr>\<rparr>"

lemma sample_lookup [simp]: "lookup_session (conn sample_state) 1 = Some sample_session"
  by (simp add: lookup_session_def sample_state_def)

lemma sample_slot_index [simp]: "slot_index (Slots (server sample_state)) 1 = Some 0"
  by (simp add: sample_state_def sample_slot_def)

lemma sample_slots [simp]: "Slots (server sample_state) = [sample_slot]"
  by (simp add: sample_state_def)

section \<open>Session handles\<close>

lemma get_put_session [simp]:
  "lookup_session (conn st) i = Some s \<Longrightarrow> get_session i st = (Inr s, st)"
  "conn (snd (put_session i s st)) = update_session i s (conn st)"
  "put_session i s st = (Inr (), st\<lparr>conn := update_session i s (conn st)\<rparr>)"
  by (simp_all add: get_session_def handler_session_lookup put_session_def)

text \<open>
  C23: Opening a session on a slot with static objects succeeds while fewer than 2^64 sessions
  are open: the search for a handle ends, the handle is unused, the session starts with the
  slot's objects, and no other session and no slot changes.
\<close>

theorem open_session_fresh:
  assumes "slot_index (Slots (server st)) slotID = Some k"
    and "GetObjects (Slots (server st) ! k) = None" and "length (sessions (conn st)) < 2 ^ 64"
  shows "\<exists>i st'. newSession env slotID st = (Inr i, st') \<and> lookup_session (conn st) i = None \<and>
    lookup_session (conn st') =
      (lookup_session (conn st))(i \<mapsto> fresh_session slotID (Objects (Slots (server st) ! k))) \<and>
    server st' = server st"
proof -
  let ?s = "fresh_session slotID (Objects (Slots (server st) ! k))"
  obtain i h where add: "add_session ?s (conn st) = Some (i, h)"
    using add_session_ends [OF assms(3)] by (metis surj_pair)
  have "handler_slot (server st) slotID = Inr k" using assms(1) by (simp only: handler_slot_Inr)
  then have "newSession env slotID st = (Inr i, st\<lparr>conn := h\<rparr>)"
    using assms(2) add by (simp add: newSession_def slot_objects_def act_bind_def)
  then show ?thesis using sess.add_unused [OF add] sess.add_map [OF add] by simp
qed

theorem open_session_fresh_witness:
  "\<exists>i st'. newSession sample_env 1 sample_state = (Inr i, st') \<and>
    lookup_session (conn sample_state) i = None \<and>
    lookup_session (conn st') = (lookup_session (conn sample_state))
      (i \<mapsto> fresh_session 1 (Objects (Slots (server sample_state) ! 0))) \<and>
    server st' = server sample_state"
  by (rule open_session_fresh) (simp_all add: sample_state_def sample_slot_def)

text \<open>
  Handles count up until the 64-bit counter wraps, so a handle that was closed is not
  given out again before that.
\<close>

lemma session_ids_count_up:
  assumes "ids_below_last h" and "lastSessionID h \<noteq> - 1"
  shows "\<exists>h'. add_session s h = Some (lastSessionID h + 1, h') \<and>
    lastSessionID h' = lastSessionID h + 1 \<and> lastSessionID h < lastSessionID h' \<and>
    ids_below_last h' \<and> ids_below_last (remove_session i h')"
proof -
  obtain h' where h': "add_session s h = Some (lastSessionID h + 1, h')"
    "lastSessionID h' = lastSessionID h + 1" "lastSessionID h < lastSessionID h'" "ids_below_last h'"
    using add_session_counts [OF assms] by blast
  have "lastSessionID (remove_session i h') = lastSessionID h'" by (simp add: remove_session_def)
  then have "ids_below_last (remove_session i h')"
    using h'(4) by (auto simp: ids_below_last_def sess.remove_map)
  then show ?thesis using h' by blast
qed

text \<open>
  Closing a session removes that session and no other, reports a handle that is not open,
  and makes the handle invalid for every later request.
\<close>

lemma close_session_closes_one:
  "lookup_session (conn (snd (closeSession i st))) = (lookup_session (conn st))(i := None) \<and>
   (fst (closeSession i st) = Inr () \<longleftrightarrow> lookup_session (conn st) i \<noteq> None) \<and>
   server (snd (closeSession i st)) = server st \<and>
   get_session i (snd (closeSession i st)) =
     (Inl (Pkcs11 errSessionHandleInvalid), snd (closeSession i st)) \<and>
   fst (closeSession i (snd (closeSession i st))) = Inl (Pkcs11 errSessionHandleInvalid)"
proof -
  have l: "lookup_session (conn (snd (closeSession i st))) = (lookup_session (conn st))(i := None)"
  proof (cases "sessions (conn st) = []")
    case True
    then show ?thesis by (simp add: closeSession_def lookup_session_def)
  next
    case False
    then show ?thesis by (simp add: closeSession_def Let_def sess.remove_map)
  qed
  moreover have "fst (closeSession i st') = (if lookup_session (conn st') i = None
      then Inl (Pkcs11 errSessionHandleInvalid) else Inr ())" for st' :: "'a state"
    by (auto simp: closeSession_def Let_def lookup_session_def)
  moreover have "server (snd (closeSession i st)) = server st"
    by (simp add: closeSession_def Let_def)
  ultimately show ?thesis by (simp add: get_session_def handler_session_lookup)
qed

section \<open>Searching\<close>

text \<open>A list in pages of these sizes, and what is left of it after them.\<close>

fun pages :: "nat list \<Rightarrow> 'a list \<Rightarrow> 'a list list" where
  "pages [] xs = []"
| "pages (n # ns) xs = take n xs # pages ns (drop n xs)"

lemma pages_concat: "concat (pages ns xs) = take (sum_list ns) xs"
  by (induction ns xs rule: pages.induct) (simp_all add: take_add)

text \<open>A client that calls \<^verbatim>\<open>C_FindObjects\<close> again and again, with these sizes of its buffer.\<close>

fun fetch :: "uint64 \<Rightarrow> uint32 list \<Rightarrow> ('w state, body list) act" where
  "fetch i [] = act_return []"
| "fetch i (n # ns) =
     act_bind (handleFindObjects (find_request i n)) (\<lambda>resp.
       act_bind (fetch i ns) (\<lambda>resps. act_return (resp # resps)))"

definition page_response :: "uint64 list \<Rightarrow> body" where
  "page_response ids = writeUlongArray (body_of callFindObjects [] []) (Some ids) (of_nat (length ids))"

lemma fetch_pages:
  assumes "lookup_session (conn st) i = Some s"
  shows "\<exists>st'. fetch i ns st = (Inr (map page_response (pages (map unat ns) (findMatches s))), st') \<and>
    lookup_session (conn st') i = Some (s\<lparr>findMatches := drop (sum_list (map unat ns)) (findMatches s)\<rparr>)"
  using assms
proof (induction ns arbitrary: st s)
  case (Cons n ns)
  let ?s = "s\<lparr>findMatches := drop (unat n) (findMatches s)\<rparr>"
  have page: "session_findNext s (unat n) = (take (unat n) (findMatches s), ?s)"
    by (simp add: session_findNext_def Let_def)
  let ?st = "st\<lparr>conn := update_session i ?s (conn st)\<rparr>"
  have "lookup_session (conn ?st) i = Some ?s" by (simp add: sess.put_map)
  from Cons.IH [OF this] show ?case using Cons.prems
    by (auto simp: handleFindObjects_request act_bind_def get_session_def handler_session_lookup
        put_session_def page page_response_def add.commute)
qed (use assms in simp)

text \<open>
  C12: A search on a session that has no results pending gives exactly the handles of the objects
  that match every attribute of the template, in the session's order: the answers to
  \<^verbatim>\<open>C_FindObjects\<close> are the consecutive pages of that list, each as long as the client's buffer
  allows, so buffers that are large enough together get all of it, and what they do not get
  is what stays pending.
\<close>

theorem search_is_complete:
  assumes "lookup_session (conn st) i = Some s" and "findMatches s = []" and "sendable tmpl"
    and "ids = map obj_id (filter (\<lambda>obj. \<forall>a \<in> set tmpl. matches obj a) (s_objects s))"
    and "ps = pages (map unat ns) ids"
  shows "\<exists>st'. act_bind (handleFindObjectsInit (find_init_request i tmpl)) (\<lambda>_. fetch i ns) st =
      (Inr (map page_response ps), st') \<and>
    lookup_session (conn st') i = Some (s\<lparr>findMatches := drop (sum_list (map unat ns)) ids\<rparr>) \<and>
    concat ps = take (sum_list (map unat ns)) ids \<and>
    (length ids \<le> sum_list (map unat ns) \<longrightarrow> concat ps = ids)"
proof -
  let ?s = "s\<lparr>findMatches := ids\<rparr>"
  let ?st = "st\<lparr>conn := update_session i ?s (conn st)\<rparr>"
  have "session_find s tmpl = ?s" using assms(2,4) by (simp add: session_find_def find_in_filter)
  then have init: "handleFindObjectsInit (find_init_request i tmpl) st =
      (Inr (body_of callFindObjectsInit [] []), ?st)"
    using assms(1,3) by (simp add: handleFindObjectsInit_request act_bind_def get_session_def
        handler_session_lookup put_session_def)
  have "lookup_session (conn ?st) i = Some ?s" by (simp add: sess.put_map)
  from fetch_pages [OF this, of ns] show ?thesis
    using init assms(5) by (auto simp: act_bind_def pages_concat)
qed

theorem search_is_complete_witness:
  "\<exists>st'. act_bind (handleFindObjectsInit (find_init_request 1 [])) (\<lambda>_. fetch 1 [1, 5, 2]) sample_state =
      (Inr [page_response [5], page_response [6], page_response []], st')"
proof -
  have "map obj_id (filter (\<lambda>obj. \<forall>a \<in> set []. matches obj a) (s_objects sample_session)) = [5, 6]"
    "findMatches sample_session = []" "sendable []"
    by (simp_all add: sample_session_def fresh_session_def sample_slot_def SetID_def sendable_def)
  then show ?thesis
    using search_is_complete [OF sample_lookup _ _ refl refl, of "[]" "[1, 5, 2]"] by auto
qed

text \<open>
  C34: \<^verbatim>\<open>C_FindObjectsFinal\<close> does not end a search: matches that were not fetched are returned
  by the next search of the session, before its own.
\<close>

theorem unfetched_matches_leak:
  assumes "lookup_session (conn st) i = Some s" and "sendable t1" and "sendable t2"
    and "ids = findMatches s @
      map obj_id (filter (\<lambda>obj. \<forall>a \<in> set t1. matches obj a) (s_objects s)) @
      map obj_id (filter (\<lambda>obj. \<forall>a \<in> set t2. matches obj a) (s_objects s))"
    and "length ids \<le> unat n"
  shows "\<exists>st'. act_bind (handleFindObjectsInit (find_init_request i t1)) (\<lambda>_.
      act_bind (handleFindObjectsFinal (find_final_request i)) (\<lambda>_.
        act_bind (handleFindObjectsInit (find_init_request i t2)) (\<lambda>_.
          handleFindObjects (find_request i n)))) st =
    (Inr (writeUlongArray (body_of callFindObjects [] []) (Some ids) (of_nat (length ids))), st')"
  using assms
  by (simp add: handleFindObjectsInit_request handleFindObjectsFinal_request
      handleFindObjects_request act_bind_def sess.put_map session_find_def find_in_filter
      session_findNext_def)

theorem unfetched_matches_leak_witness:
  "\<exists>st'. act_bind (handleFindObjectsInit (find_init_request 1 [])) (\<lambda>_.
      act_bind (handleFindObjectsFinal (find_final_request 1)) (\<lambda>_.
        act_bind (handleFindObjectsInit (find_init_request 1
            [byte_attribute attributeToken 1])) (\<lambda>_.
          handleFindObjects (find_request 1 10)))) sample_state =
    (Inr (writeUlongArray (body_of callFindObjects [] []) (Some [5, 6])
      (of_nat (length [5, 6 :: uint64]))), st')"
proof (rule unfetched_matches_leak [OF sample_lookup])
  have "valueType attributeToken = AttributeTypeByte" by (simp add: valueType_unat)
  then show "sendable [byte_attribute attributeToken 1]"
    by (simp add: sendable_def wire_attribute_def) (simp add: attribute_defs)
qed (simp_all add: sendable_def sample_session_def fresh_session_def sample_slot_def matches_def
    SetID_def zero_object_def)

section \<open>Lists that are asked for twice\<close>

text \<open>
  What a client that asks for the length first, and then with a buffer of that length, relies on:
  \<open>ask\<close> is the call with the given size of buffer, which is never filled in part.
\<close>

definition two_calls :: "(uint32 \<Rightarrow> 's \<Rightarrow> body result \<times> 's) \<Rightarrow> 's \<Rightarrow> body \<Rightarrow> uint64 list \<Rightarrow> bool" where
  "two_calls ask st resp xs \<longleftrightarrow>
     (\<exists>n. unat n = length xs \<and> ask 0 st = (Inr (writeUlongArray resp None n), st) \<and>
       (\<forall>m. 0 < m \<longrightarrow> ask m st =
         (if m < n then Inl (Pkcs11 errBufferTooSmall) else Inr (writeUlongArray resp (Some xs) 0), st)))"

lemma get_slot_listed:
  "i \<in> slot_ID ` set (Slots (server st)) \<Longrightarrow>
     \<exists>s \<in> set (Slots (server st)). slot_ID s = i \<and> get_slot i st = (Inr s, st)"
  "i \<notin> slot_ID ` set (Slots (server st)) \<Longrightarrow> get_slot i st = (Inl (Pkcs11 errSlotIDInvalid), st)"
  using slot_index_None [of "Slots (server st)" i] slot_index_Some [of "Slots (server st)" i]
  by (auto simp: get_slot_def handler_slot_def split: option.splits)

text \<open>
  C40: A client that asks for the number of slots and then, with a buffer of that size, for the
  slots gets all of them; a smaller buffer is refused, never filled in part. The slots it
  gets are exactly those that later calls know, and each lists its mechanisms the same way.
  Neither call changes anything.
\<close>

theorem lists_in_two_calls:
  assumes "length (Slots (server st)) < 2 ^ 32"
    and "\<forall>s \<in> set (Slots (server st)). length (slot_mechanisms s) < 2 ^ 32"
  shows "two_calls (\<lambda>n. handleGetSlotList (slot_list_request p n)) st
      (body_of callGetSlotList [] []) (map slot_ID (Slots (server st))) \<and>
    (if i \<in> set (map slot_ID (Slots (server st)))
     then \<exists>s \<in> set (Slots (server st)). slot_ID s = i \<and>
       two_calls (\<lambda>n. handleGetMechanismList (mechanism_list_request i n)) st
         (body_of callGetMechanismList [] []) (slot_mechanisms s)
     else \<forall>n. handleGetMechanismList (mechanism_list_request i n) st =
       (Inl (Pkcs11 errSlotIDInvalid), st))"
proof -
  have width: "unat (of_nat n :: uint32) = n" if "n < 2 ^ 32" for n
    using that by (simp add: unat_of_nat take_bit_nat_eq_self_iff)
  have array: "writeUlongArray b (Some xs) n = writeUlongArray b (Some xs) 0" for b xs n
    by (simp add: writeUlongArray_def)
  have slots: "two_calls (\<lambda>n. handleGetSlotList (slot_list_request p n)) st
      (body_of callGetSlotList [] []) (map slot_ID (Slots (server st)))"
    unfolding two_calls_def
    by (rule exI [of _ "of_nat (length (Slots (server st)))"])
      (auto simp: handleGetSlotList_request width [OF assms(1)] word_less_nat_alt Let_def)
  have mechs: "two_calls (\<lambda>n. handleGetMechanismList (mechanism_list_request i n)) st
      (body_of callGetMechanismList [] []) (slot_mechanisms s)"
    if "get_slot i st = (Inr s, st)" "s \<in> set (Slots (server st))" for s
    unfolding two_calls_def
    by (rule exI [of _ "of_nat (length (slot_mechanisms s))"])
      (use that(2) assms(2) array in \<open>auto simp: handleGetMechanismList_request act_bind_def that(1)
        width Let_def\<close>)
  show ?thesis
  proof (cases "i \<in> set (map slot_ID (Slots (server st)))")
    case True
    then show ?thesis using slots mechs get_slot_listed(1) [of i st] by auto
  next
    case False
    then show ?thesis using slots get_slot_listed(2) [of i st]
      by (auto simp: handleGetMechanismList_request act_bind_def)
  qed
qed

theorem lists_in_two_calls_witness:
  "two_calls (\<lambda>n. handleGetSlotList (slot_list_request 1 n)) sample_state
      (body_of callGetSlotList [] []) [1] \<and>
    two_calls (\<lambda>n. handleGetMechanismList (mechanism_list_request 1 n)) sample_state
      (body_of callGetMechanismList [] []) (slot_mechanisms sample_slot) \<and>
    handleGetMechanismList (mechanism_list_request 2 0) sample_state =
      (Inl (Pkcs11 errSlotIDInvalid), sample_state)"
proof -
  have m: "\<forall>s \<in> set (Slots (server sample_state)). length (slot_mechanisms s) < 2 ^ 32"
    "length (Slots (server sample_state)) < 2 ^ 32" "slot_ID sample_slot = 1"
    by (simp_all add: sample_slot_def slot_mechanisms_def)
  show ?thesis
    using lists_in_two_calls [OF m(2,1), of 1 1] lists_in_two_calls [OF m(2,1), of 1 2] m(3)
    by simp
qed

section \<open>Attributes\<close>

text \<open>
  \<^verbatim>\<open>C_GetAttributeValue\<close> answers every entry of the template in its order, with the object's
  first attribute of the type or an empty one, and reports
  \<^verbatim>\<open>CKR_ATTRIBUTE_TYPE_INVALID\<close> exactly when some type is missing; an unknown handle is an
  error.
\<close>

lemma attribute_values_in_template_order:
  "session_attributeValue s objectID tmpl =
     (case List.find (\<lambda>obj. obj_id obj = objectID) (s_objects s) of
        None \<Rightarrow> Inl (Pkcs11 errObjectHandleInvalid)
      | Some obj \<Rightarrow> Inr
          (map (\<lambda>t. case obj_attributeValue obj (t_typ t) of
              None \<Rightarrow> empty_attribute (t_typ t) | Some a \<Rightarrow> a) tmpl,
           list_all (\<lambda>t. t_typ t \<in> a_typ ` set (obj_attributes obj)) tmpl))"
proof -
  have "object_in objs objectID = List.find (\<lambda>obj. obj_id obj = objectID) objs" for objs
    by (induction objs) auto
  then show ?thesis
    by (auto simp: session_attributeValue_def session_object_def template_values_map list_all_iff
        obj_attributeValue_def find_attribute_None split: option.splits)
qed

section \<open>Signing in parts\<close>

text \<open>A client's calls of \<^verbatim>\<open>C_SignUpdate\<close>, one after the other.\<close>

fun sign_updates :: "uint64 \<Rightarrow> bytes list \<Rightarrow> ('w state, unit) act" where
  "sign_updates i [] = act_return ()"
| "sign_updates i (d # ds) =
     act_bind (handleSignUpdate (sign_update_request i d)) (\<lambda>_. sign_updates i ds)"

lemma sign_updates_data:
  assumes "lookup_session (conn st) i = Some s" and "\<forall>d \<in> set ds. length d < 0xffffffff"
  shows "\<exists>st'. sign_updates i ds st = (Inr (), st') \<and> world st' = world st \<and>
    lookup_session (conn st') i = Some (s\<lparr>signData := signData s @ concat ds\<rparr>)"
  using assms
proof (induction ds arbitrary: st s)
  case (Cons d ds)
  let ?s = "s\<lparr>signData := signData s @ d\<rparr>"
  let ?st = "st\<lparr>conn := update_session i ?s (conn st)\<rparr>"
  have "handleSignUpdate (sign_update_request i d) st = (Inr (body_of callSignUpdate [] []), ?st)"
    using Cons.prems by (simp add: handleSignUpdate_request act_bind_def)
  moreover have "\<exists>st'. sign_updates i ds ?st = (Inr (), st') \<and> world st' = world ?st \<and>
      lookup_session (conn st') i = Some (?s\<lparr>signData := signData ?s @ concat ds\<rparr>)"
    by (rule Cons.IH) (use Cons.prems in \<open>simp_all add: sess.put_map\<close>)
  ultimately show ?case by simp
qed simp

text \<open>
  C20: A signature in parts is a signature of the concatenated parts, with the key and the
  mechanism of the session, after whatever data the session still holds.
\<close>

theorem parts_are_concatenated:
  assumes "lookup_session (conn st) i = Some s" and "\<forall>d \<in> set ds. length d < 0xffffffff"
    and "sign env (signObject s) (signMechanism s) (signData s @ concat ds) (world st) = (Inr sg, w)"
  shows "\<exists>st'. act_bind (sign_updates i ds) (\<lambda>_. handleSignFinal env (sign_final_request i n)) st =
    (Inr (write_signature (body_of callSignFinal [] []) sg), st') \<and>
    lookup_session (conn st') i = Some (s\<lparr>signData := signData s @ concat ds\<rparr>)"
proof -
  obtain t where t: "sign_updates i ds st = (Inr (), t)" "world t = world st"
    "lookup_session (conn t) i = Some (s\<lparr>signData := signData s @ concat ds\<rparr>)"
    using sign_updates_data [OF assms(1,2)] by blast
  then show ?thesis using assms(3)
    by (simp add: handleSignFinal_request act_bind_def on_world_def)
qed

definition rsa_session :: session where
  "rsa_session = sample_session\<lparr>
     signObject := zero_object\<lparr>obj_priv := Some (OtherSigner (RsaPublicKey 4 3) 0)\<rparr>,
     signMechanism := \<lparr>m_typ = ckmRSAPKCSPSS,
       m_params = ParamsPSS \<lparr>hashAlg = ckmSHA256, mgf = ckgMGF1SHA256, saltLen = 32\<rparr>\<rparr>\<rparr>"

definition rsa_state :: "nat state" where
  "rsa_state = sample_state\<lparr>conn := \<lparr>lastSessionID = 1, sessions = [(1, rsa_session)]\<rparr>\<rparr>"

lemma rsa_lookup [simp]: "lookup_session (conn rsa_state) 1 = Some rsa_session"
  by (simp add: lookup_session_def rsa_state_def)

lemma rsa_sign [simp]: "sign sample_env (signObject rsa_session) (signMechanism rsa_session) d w =
    (Inr (Some (marshalSig 5 6)), w)"
  by (simp add: sign_def rsa_session_def signRSAPKCSPSS_def pss_hash_def) (simp add: sample_env_def)

theorem parts_are_concatenated_witness:
  "\<exists>st'. act_bind (sign_updates 1 [[1], [2, 3]])
      (\<lambda>_. handleSignFinal sample_env (sign_final_request 1 0)) rsa_state =
    (Inr (write_signature (body_of callSignFinal [] []) (Some (marshalSig 5 6))), st') \<and>
    lookup_session (conn st') 1 = Some (rsa_session\<lparr>signData := signData rsa_session @ concat [[1], [2, 3]]\<rparr>)"
  by (rule parts_are_concatenated) simp_all

text \<open>
  C35: The data of a signature in parts outlives it: neither \<^verbatim>\<open>C_SignFinal\<close> nor a new
  \<^verbatim>\<open>C_SignInit\<close> clears it, so the next signature in parts covers the first one's data too.
\<close>

theorem next_signature_covers_old_data:
  assumes "lookup_session (conn st) i = Some s" and "signData s = []" and "mech_bytes m e"
    and "session_object s keyID = Inr obj" and "supports obj m = Inr ()"
    and "length d < 0xffffffff" and "length d' < 0xffffffff"
    and "sign env (signObject s) (signMechanism s) d (world st) = (Inr sg, w)"
    and "sign env obj m (d @ d') w = (Inr sg', w')"
  shows "\<exists>st'. act_bind (sign_updates i [d]) (\<lambda>_.
      act_bind (handleSignFinal env (sign_final_request i n)) (\<lambda>_.
        act_bind (handleSignInit (sign_init_request i e keyID)) (\<lambda>_.
          act_bind (sign_updates i [d']) (\<lambda>_. handleSignFinal env (sign_final_request i n))))) st =
    (Inr (write_signature (body_of callSignFinal [] []) sg'), st')"
proof -
  have "session_object (s\<lparr>signData := d\<rparr>) keyID = Inr obj"
    using assms(4) by (simp add: session_object_def)
  then show ?thesis using assms
    by (simp add: handleSignUpdate_request handleSignFinal_request handleSignInit_request
        act_bind_def on_world_def sess.put_map)
qed

definition rsa_state2 :: "nat state" where
  "rsa_state2 = sample_state\<lparr>conn := \<lparr>lastSessionID = 1,
     sessions = [(1, rsa_session\<lparr>s_objects := [SetID (signObject rsa_session) 9]\<rparr>)]\<rparr>\<rparr>"

theorem next_signature_covers_old_data_witness:
  "\<exists>st'. act_bind (sign_updates 1 [[1]]) (\<lambda>_.
      act_bind (handleSignFinal sample_env (sign_final_request 1 0)) (\<lambda>_.
        act_bind (handleSignInit (sign_init_request 1 (enc_mechanism_params (signMechanism rsa_session)) 9)) (\<lambda>_.
          act_bind (sign_updates 1 [[2]]) (\<lambda>_. handleSignFinal sample_env (sign_final_request 1 0)))))
      rsa_state2 =
    (Inr (write_signature (body_of callSignFinal [] []) (Some (marshalSig 5 6))), st')"
proof (rule next_signature_covers_old_data [where sg = "Some (marshalSig 5 6)" and w = 0
      and w' = 0 and obj = "SetID (signObject rsa_session) 9"])
  show "lookup_session (conn rsa_state2) 1 = Some (rsa_session\<lparr>s_objects := [SetID (signObject rsa_session) 9]\<rparr>)"
    by (simp add: rsa_state2_def lookup_session_def)
  show "mech_bytes (signMechanism rsa_session) (enc_mechanism_params (signMechanism rsa_session))"
    by (rule mech_bytes_params)
      (simp add: rsa_session_def params_match_def mechanismHasNoParameters_def)
  show "sign sample_env (SetID (signObject rsa_session) 9) (signMechanism rsa_session) ([1] @ [2]) 0 =
      (Inr (Some (marshalSig 5 6)), 0)"
    by (simp add: sign_def rsa_session_def SetID_def signRSAPKCSPSS_def pss_hash_def)
      (simp add: sample_env_def)
  show "sign sample_env (signObject (rsa_session\<lparr>s_objects := [SetID (signObject rsa_session) 9]\<rparr>))
      (signMechanism (rsa_session\<lparr>s_objects := [SetID (signObject rsa_session) 9]\<rparr>)) [1] (world rsa_state2) =
      (Inr (Some (marshalSig 5 6)), 0)"
    by (simp add: rsa_state2_def sample_state_def)
qed (simp_all add: rsa_session_def sample_session_def fresh_session_def session_object_def SetID_def
    supports_def)

section \<open>Tokens\<close>

text \<open>
  A token is initialized once: \<^verbatim>\<open>C_InitToken\<close> stores the label without its padding and
  marks the slot, and every later attempt fails and changes nothing, whatever label it
  brings; other slots are not touched.
\<close>

lemma init_token_once:
  assumes "slot_index (Slots (server st)) i = Some k" and "\<not> Initialized (Slots (server st) ! k)"
  shows "\<exists>st'. init_token i label st = (Inr (), st') \<and>
    Slots (server st') ! k = (Slots (server st) ! k)
      \<lparr>Label := trim_right label [CHR '' '', CHR 0x00], Initialized := True\<rparr> \<and>
    (\<forall>j. j \<noteq> k \<longrightarrow> Slots (server st') ! j = Slots (server st) ! j) \<and>
    init_token i label' st' = (Inl (Pkcs11 errCryptokiAlreadyInitialized), st')"
proof -
  have k: "k < length (Slots (server st))" using slot_index_Some [OF assms(1)] by simp
  let ?f = "\<lambda>s. s\<lparr>Label := trim_right label [CHR '' '', CHR 0x00], Initialized := True\<rparr>"
  let ?st = "st\<lparr>server := update_slot k ?f (server st)\<rparr>"
  have one: "init_token i label st = (Inr (), ?st)"
    using assms by (simp add: init_token_def handler_slot_def)
  have slots: "Slots (server ?st) = (Slots (server st))[k := ?f (Slots (server st) ! k)]"
    by (simp add: update_slot_def)
  have "map slot_ID (Slots (server ?st)) = map slot_ID (Slots (server st))"
    by (simp add: update_slot_IDs)
  then have "slot_index (Slots (server ?st)) i = Some k" using slot_index_cong assms(1) by metis
  then have "init_token i label' ?st = (Inl (Pkcs11 errCryptokiAlreadyInitialized), ?st)"
    using slots k by (simp add: init_token_def handler_slot_def)
  then show ?thesis using one slots k by auto
qed

lemma init_token_once_witness:
  "\<exists>st'. init_token 1 ''tok  '' sample_state = (Inr (), st') \<and>
    Slots (server st') ! 0 = (Slots (server sample_state) ! 0)
      \<lparr>Label := trim_right ''tok  '' [CHR '' '', CHR 0x00], Initialized := True\<rparr> \<and>
    (\<forall>j. j \<noteq> 0 \<longrightarrow> Slots (server st') ! j = Slots (server sample_state) ! j) \<and>
    init_token 1 ''other'' st' = (Inl (Pkcs11 errCryptokiAlreadyInitialized), st')"
  by (rule init_token_once) (simp_all add: sample_slot_def)

lemma persist_tokens_result:
  assumes "slot_index (Slots (server st)) i = Some k"
  shows "\<exists>st'. persist_tokens i objs st = (Inr (), st') \<and> world st' = world st \<and> conn st' = conn st \<and>
    slot_index (Slots (server st')) i = Some k \<and>
    GetObjects (Slots (server st') ! k) = GetObjects (Slots (server st) ! k) \<and>
    Objects (Slots (server st') ! k) = Objects (Slots (server st) ! k) @ filter is_token objs"
  using assms
proof (induction objs arbitrary: st)
  case (Cons obj objs)
  show ?case
  proof (cases "is_token obj")
    case True
    let ?st = "st\<lparr>server := update_slot k (\<lambda>s. s\<lparr>Objects := Objects s @ [obj]\<rparr>) (server st)\<rparr>"
    have k: "k < length (Slots (server st))" using slot_index_Some [OF Cons.prems] by simp
    have "map slot_ID (Slots (server ?st)) = map slot_ID (Slots (server st))"
      by (simp add: update_slot_IDs)
    from slot_index_cong [OF this] have "slot_index (Slots (server ?st)) i = Some k"
      using Cons.prems by (simp only:)
    from Cons.IH [OF this] obtain st' where "persist_tokens i objs ?st = (Inr (), st')"
      "world st' = world ?st" "conn st' = conn ?st" "slot_index (Slots (server st')) i = Some k"
      "GetObjects (Slots (server st') ! k) = GetObjects (Slots (server ?st) ! k)"
      "Objects (Slots (server st') ! k) = Objects (Slots (server ?st) ! k) @ filter is_token objs"
      by blast
    moreover have "persistObject i obj st = (Inr (), ?st)"
      using Cons.prems by (simp add: persistObject_def handler_slot_def)
    ultimately show ?thesis using True k by (simp add: update_slot_def)
  next
    case False
    then show ?thesis using Cons by simp
  qed
qed simp

text \<open>Token objects, as the loop of \<^verbatim>\<open>handleGenerateKeyPair\<close> tells them from the others.\<close>

lemma is_token_iff: "is_token obj \<longleftrightarrow>
    (\<exists>a b. obj_attributeValue obj attributeToken = Some a \<and> setByte a = Some b \<and> b \<noteq> 0)"
  by (auto simp: is_token_def split: option.splits)

text \<open>
  C15: A generated pair is added to its session, and those of the two objects whose
  \<^verbatim>\<open>CKA_TOKEN\<close> is set are appended to the token of the session's slot. Unless the
  slot has a \<^verbatim>\<open>GetObjects\<close> callback, every session opened later starts with them.
\<close>

theorem generated_tokens_persist:
  assumes "lookup_session (conn st) i = Some s" and "mech_bytes m e" and "sendable pubTmpl"
    and "sendable privTmpl" and "slot_index (Slots (server st)) (s_slotID s) = Some k"
    and "generateKeyPair env m pubTmpl privTmpl (world st) = (Inr (pub, priv), w)"
  shows "\<exists>st'. handleGenerateKeyPair env (generate_request i e pubTmpl privTmpl) st =
      (Inr (writeUlong (writeUlong (body_of callGenerateKeyPair [] []) (obj_id pub)) (obj_id priv)), st') \<and>
    lookup_session (conn st') i = Some (s\<lparr>s_objects := s_objects s @ [pub, priv]\<rparr>) \<and>
    Objects (Slots (server st') ! k) =
      Objects (Slots (server st) ! k) @ filter (\<lambda>obj. \<exists>a b. obj_attributeValue obj attributeToken = Some a \<and>
          setByte a = Some b \<and> b \<noteq> 0) [pub, priv] \<and>
    (GetObjects (Slots (server st) ! k) = None \<longrightarrow>
      slot_objects env k st' = (Inr (Objects (Slots (server st') ! k)), st'))"
proof -
  let ?st = "st\<lparr>world := w, conn := update_session i (s\<lparr>s_objects := s_objects s @ [pub, priv]\<rparr>) (conn st)\<rparr>"
  have "slot_index (Slots (server ?st)) (s_slotID s) = Some k" using assms(5) by simp
  from persist_tokens_result [OF this, of "[pub, priv]"] obtain st' where
    p: "persist_tokens (s_slotID s) [pub, priv] ?st = (Inr (), st')" "conn st' = conn ?st"
    "GetObjects (Slots (server st') ! k) = GetObjects (Slots (server ?st) ! k)"
    "Objects (Slots (server st') ! k) = Objects (Slots (server ?st) ! k) @ filter is_token [pub, priv]"
    by blast
  have g: "on_world (generateKeyPair env m pubTmpl privTmpl) st = (Inr (pub, priv), st\<lparr>world := w\<rparr>)"
    using assms(6) by (simp add: on_world_def)
  have "handleGenerateKeyPair env (generate_request i e pubTmpl privTmpl) st =
      (Inr (writeUlong (writeUlong (body_of callGenerateKeyPair [] []) (obj_id pub)) (obj_id priv)), st')"
    unfolding handleGenerateKeyPair_request [OF assms(2-4)]
    using p(1) by (simp add: act_bind_def assms(1) g del: persist_tokens.simps)
  moreover have "lookup_session (conn st') i = Some (s\<lparr>s_objects := s_objects s @ [pub, priv]\<rparr>)"
    unfolding p(2) by (simp add: sess.put_map)
  moreover have "slot_objects env k st' = (Inr (Objects (Slots (server st') ! k)), st')"
    if "GetObjects (Slots (server st) ! k) = None"
    using that p(3) by (simp add: slot_objects_def)
  ultimately show ?thesis using p(4)
    by (intro exI [of _ st'] conjI) (simp_all only: is_token_iff [symmetric], simp_all)
qed

theorem generated_tokens_persist_witness:
  "\<exists>pub priv st'. handleGenerateKeyPair sample_env (generate_request 1
      (enc_mechanism_marked ckmRSAKeyPairGen) [ulong_attribute attributeModulusBits 2048] []) sample_state =
      (Inr (writeUlong (writeUlong (body_of callGenerateKeyPair [] []) (obj_id pub)) (obj_id priv)), st') \<and>
    lookup_session (conn st') 1 =
      Some (sample_session\<lparr>s_objects := s_objects sample_session @ [pub, priv]\<rparr>) \<and>
    Objects (Slots (server st') ! 0) =
      Objects (Slots (server sample_state) ! 0) @ filter (\<lambda>obj. \<exists>a b.
        obj_attributeValue obj attributeToken = Some a \<and> setByte a = Some b \<and> b \<noteq> 0) [pub, priv]"
proof -
  let ?m = "\<lparr>m_typ = ckmRSAKeyPairGen, m_params = ParamsBytes []\<rparr>"
  have "world sample_state = 0" by (simp add: sample_state_def)
  then obtain pub priv w where "generateKeyPair sample_env ?m
      [ulong_attribute attributeModulusBits 2048] [] (world sample_state) = (Inr (pub, priv), w)"
    using sample_generates [of "[]"] by fastforce
  moreover have "mech_bytes ?m (enc_mechanism_marked ckmRSAKeyPairGen)"
    by (rule mech_bytes_marked) (simp add: mechanismHasNoParameters_def)
  moreover have "sendable [ulong_attribute attributeModulusBits 2048]"
    by (simp add: sendable_def wire_attribute_def valueType_key) (simp add: attribute_defs)
  moreover have "sendable []" by (simp add: sendable_def)
  moreover have "slot_index (Slots (server sample_state)) (s_slotID sample_session) = Some 0"
    by (simp add: sample_session_def fresh_session_def sample_slot_def)
  ultimately show ?thesis using generated_tokens_persist [OF sample_lookup] by blast
qed

end
