(* ===== verification/Robustness.thy ===== *)
theory Robustness
  imports System SessionProperties
begin

text \<open>
  What a client can do to the server with any request: which requests can make it panic or
  loop. \<open>calm\<close> actions end with a result or an ordinary error; every handler is calm when
  the code outside the repository is, except for one length in key derivation.
\<close>

section \<open>Calm actions\<close>

definition calm :: "('s, 'a) act \<Rightarrow> 's \<Rightarrow> bool" where
  "calm m s \<longleftrightarrow> (\<forall>e s'. m s = (Inl e, s') \<longrightarrow> \<not> is_crash e)"

named_theorems calm_intros "rules for actions that are calm"

lemma is_crash_simps [simp]:
  "\<not> is_crash (Pkcs11 c)" "\<not> is_crash ErrUnexpectedEOF" "\<not> is_crash (ErrInvalidSignature s t)"
  "\<not> is_crash (ErrTrailingElements s)" "\<not> is_crash (ErrTrailingData n)" "\<not> is_crash (ErrHandshake b)"
  "\<not> is_crash ErrKeyNeitherRSANorECDSA" "\<not> is_crash ErrNotSigner" "\<not> is_crash ErrUnsupportedCurve"
  "\<not> is_crash ErrUnsupportedPublicKey" "\<not> is_crash (ErrEncodingKeyInfo e)" "\<not> is_crash ErrPSSParams"
  "\<not> is_crash ErrNotECDSAPublicKey" "\<not> is_crash (ErrSignatureTooLarge m n)" "\<not> is_crash ErrAsn1"
  "\<not> is_crash (ErrCallFailed k e)" "is_crash RuntimePanic" "is_crash NonTermination"
  by (simp_all add: is_crash_def)

lemma calm_return [simp, calm_intros]: "calm (act_return x) s"
  by (simp add: calm_def)

lemma calm_fail [simp, calm_intros]: "\<not> is_crash e \<Longrightarrow> calm (act_fail e) s"
  by (simp add: calm_def)

lemma calm_lift [calm_intros]: "(\<And>e. r = Inl e \<Longrightarrow> \<not> is_crash e) \<Longrightarrow> calm (act_lift r) s"
  by (simp add: calm_def)

lemma calm_bind [calm_intros]:
  assumes "calm m s" and "\<And>x t. m s = (Inr x, t) \<Longrightarrow> calm (f x) t"
  shows "calm (act_bind m f) s"
  using assms by (auto simp: calm_def elim: act_bind_InlE)

lemma calm_if [calm_intros]: "(b \<Longrightarrow> calm m s) \<Longrightarrow> (\<not> b \<Longrightarrow> calm n s) \<Longrightarrow> calm (if b then m else n) s"
  by simp

lemma calm_on_world [calm_intros]: "calm m (world st) \<Longrightarrow> calm (on_world m) st"
  by (auto simp: calm_def on_world_def split: prod.splits)

lemma calm_get_slot [calm_intros]: "calm (get_slot i) st"
  by (auto simp: calm_def get_slot_def handler_slot_def split: option.splits)

lemma calm_get_session [calm_intros]: "calm (get_session i) st"
  by (auto simp: calm_def get_session_def handler_session_def split: option.splits if_splits)

lemma calm_put_session [calm_intros]: "calm (put_session i s) st"
  by (simp add: calm_def put_session_def)

section \<open>Reading requests\<close>

definition body_calm :: "body \<Rightarrow> bool" where
  "body_calm b \<longleftrightarrow> (\<forall>e. b_error b = Some e \<longrightarrow> \<not> is_crash e)"

lemma decode_calm: "body_calm b \<Longrightarrow> body_calm (snd (decode sg f d b))"
  by (auto simp: body_calm_def decode_def sig_def split: prod.splits bool.splits option.splits if_splits)

lemma readers_calm [simp]:
  assumes "body_calm b"
  shows "body_calm (snd (readByte b))" "body_calm (snd (readAttributeArray b))"
    "body_calm (snd (readByteArray b))" "body_calm (snd (readZeroString b))"
    "body_calm (snd (readUlong b))" "body_calm (snd (readUlongBuffer b))"
    "body_calm (snd (readByteBuffer b))" "body_calm (snd (readMechanism b))"
    "body_calm (snd (readAttributeBuffer b))"
  using assms
  by (simp_all add: decode_calm readByte_def readAttributeArray_def readByteArray_def
      readZeroString_def readUlong_def readUlongBuffer_def readByteBuffer_def readMechanism_def
      readAttributeBuffer_def)

lemma calm_checked [calm_intros]:
  assumes "body_calm req" and "calm m st"
  shows "calm (checked req m) st"
  using assms by (auto simp: checked_def body_calm_def err_def split: option.splits)

section \<open>What is expected of the environment\<close>

text \<open>
  The functions of the standard library and the callbacks return, as long as what they are
  asked for is within the machine's capacity \<open>B\<close>: \<^verbatim>\<open>rsa.SignPSS\<close> makes a slice of the salt's length, which
  must be a number of bytes or a special value of \<^verbatim>\<open>PSSOptions\<close> (0 and -1), and
  \<^verbatim>\<open>rsa.GenerateKey\<close> makes one of the key's size. Beyond that they may panic: nothing is assumed.
\<close>

fun opts_within :: "nat \<Rightarrow> sign_opts \<Rightarrow> bool" where
  "opts_within B (HashOpts h) \<longleftrightarrow> True"
| "opts_within B (PSSOpts h n) \<longleftrightarrow> - 1 \<le> n \<and> n \<le> int B"

definition env_calm :: "nat \<Rightarrow> 'w env \<Rightarrow> bool" where
  "env_calm B env \<longleftrightarrow>
     (\<forall>n w. 0 < n \<longrightarrow> calm (env_rand_Int env n) w) \<and>
     (\<forall>s d opts w. opts_within B opts \<longrightarrow> calm (env_Sign env s d opts) w) \<and>
     (\<forall>n w. 0 \<le> n \<and> n \<le> int B \<longrightarrow> calm (env_rsa_GenerateKey env n) w) \<and>
     (\<forall>c w. calm (env_ecdsa_GenerateKey env c) w) \<and>
     (\<forall>cb w. calm (env_GetObjects env cb) w) \<and> (\<forall>cb m w. calm (env_MechanismInfo env cb m) w)"

text \<open>
  A curve's points and a generated key's coordinates are numbers of the field; a generated
  key is of the kind asked for; a digest has its hash's length.
\<close>

definition env_arithmetic :: "'w env \<Rightarrow> bool" where
  "env_arithmetic env \<longleftrightarrow>
     (\<forall>n w k w'. env_rsa_GenerateKey env n w = (Inr k, w') \<longrightarrow>
        (\<exists>m e. signer_Public k = RsaPublicKey m e)) \<and>
     (\<forall>c w k w'. env_ecdsa_GenerateKey env c w = (Inr k, w') \<longrightarrow>
        (\<exists>x y. signer_Public k = EcdsaPublicKey c x y \<and>
          x < 256 ^ ((curve_BitSize c + 7) div 8) \<and> y < 256 ^ ((curve_BitSize c + 7) div 8))) \<and>
     (\<forall>c x y d. env_IsOnCurve env c x y \<longrightarrow>
        fst (env_ScalarMult env c x y d) < 256 ^ ((curve_BitSize c + 7) div 8)) \<and>
     (\<forall>h b. h \<noteq> NoHash \<longrightarrow> length (env_hash_Sum env h b) = hash_Size h)"

lemma env_calm_intros [calm_intros]:
  assumes "env_calm B env"
  shows "0 < n \<Longrightarrow> calm (env_rand_Int env n) w" "opts_within B opts \<Longrightarrow> calm (env_Sign env s d opts) w"
    "0 \<le> k \<Longrightarrow> k \<le> int B \<Longrightarrow> calm (env_rsa_GenerateKey env k) w" "calm (env_ecdsa_GenerateKey env c) w"
    "calm (env_GetObjects env cb) w" "calm (env_MechanismInfo env cb m) w"
  using assms by (simp_all add: env_calm_def)

lemma fillBytes_fits: "n < 256 ^ len \<Longrightarrow> \<exists>b. fillBytes n len = Some b"
  using fillBytes_Some_iff by blast

section \<open>Operations\<close>

lemma newObjectID_calm [calm_intros]: "env_calm B env \<Longrightarrow> calm (newObjectID env) w"
  unfolding newObjectID_def by (intro calm_intros) (auto simp: maxUint64_def)

definition key_fits :: "public_key \<Rightarrow> bool" where
  "key_fits pub = (case pub of EcdsaPublicKey c x y \<Rightarrow>
     x < 256 ^ ((curve_BitSize c + 7) div 8) \<and> y < 256 ^ ((curve_BitSize c + 7) div 8) | _ \<Rightarrow> True)"

lemma newKeyObject_calm:
  assumes "newKeyObject env pub p = Inl e" and "key_fits pub"
  shows "\<not> is_crash e"
proof (cases pub)
  case (EcdsaPublicKey c x y)
  obtain xb yb where "fillBytes x ((curve_BitSize c + 7) div 8) = Some xb"
    "fillBytes y ((curve_BitSize c + 7) div 8) = Some yb"
    using assms(2) EcdsaPublicKey fillBytes_fits by (auto simp: key_fits_def) blast
  then show ?thesis using assms(1) EcdsaPublicKey
    by (auto simp: newKeyObject_def ecdsa_attributes_def elliptic_Marshal_def Let_def map_sum_def
        split: sum.splits option.splits if_splits)
qed (use assms(1) in \<open>auto simp: newKeyObject_def Let_def split: sum.splits\<close>)

lemma newKeyObject_private_calm: "newKeyObject env pub True = Inl e \<Longrightarrow> \<not> is_crash e"
  by (auto simp: newKeyObject_def ecdsa_attributes_def Let_def map_sum_def
      split: sum.splits option.splits public_key.splits)

lemma NewPublicKeyObject_calm [calm_intros]:
  "env_calm B env \<Longrightarrow> key_fits pub \<Longrightarrow> calm (NewPublicKeyObject env pub) w"
  unfolding NewPublicKeyObject_def by (intro calm_intros) (auto dest: newKeyObject_calm)

lemma NewPrivateKeyObject_calm [calm_intros]:
  "env_calm B env \<Longrightarrow> calm (NewPrivateKeyObject env (Some k)) w"
  unfolding NewPrivateKeyObject_def option.case
  by (intro calm_intros) (auto dest: newKeyObject_private_calm)

lemma or_general_error_calm: "calm m w \<Longrightarrow> calm (or_general_error m) w"
  by (auto simp: calm_def or_general_error_def split: prod.splits sum.splits)

lemma rsa_template_calm: "rsa_template ts bits = Inl e \<Longrightarrow> \<not> is_crash e"
  by (induction ts bits rule: rsa_template.induct) (auto split: if_splits)

text \<open>The size of an RSA key is one that the template names.\<close>

definition sizes_within :: "nat \<Rightarrow> attribute list \<Rightarrow> bool" where
  "sizes_within B tmpl \<longleftrightarrow>
     (\<forall>t \<in> set tmpl. \<forall>n. a_typ t = attributeModulusBits \<and> setUint64 t = Some n \<longrightarrow> unat n \<le> B)"

lemma rsa_template_size:
  "rsa_template ts bits = Inr (Some n) \<Longrightarrow> bits = Some n \<or>
    (\<exists>t \<in> set ts. a_typ t = attributeModulusBits \<and> setUint64 t = Some n)"
proof (induction ts arbitrary: bits)
  case (Cons t ts)
  then show ?case by (force split: if_splits option.splits)
qed simp

lemma sint_within: "unat (n :: uint64) \<le> B \<Longrightarrow> B \<le> max_alloc \<Longrightarrow> 0 \<le> sint n \<and> sint n \<le> int B"
proof -
  assume n: "unat n \<le> B" "B \<le> max_alloc"
  then have "unat n < 2 ^ 63" by (simp add: max_alloc_def)
  then have "int (unat n) < 2 ^ 63" by (metis of_nat_less_iff of_nat_numeral of_nat_power)
  then have u: "uint n = int (unat n)" and less: "uint n < 2 ^ 63" by simp_all
  have "sint n = signed_take_bit 63 (uint n)" by (simp add: sint_uint)
  also have "\<dots> = uint n" by (rule signed_take_bit_int_eq_self) (use less in \<open>simp_all add: order_trans [OF _ uint_nonnegative]\<close>)
  finally have "sint n = int (unat n)" using u by (rule trans)
  then show ?thesis using n(1) by linarith
qed

lemma generateRSAKeyPair_calm:
  assumes "env_calm B env" and "sizes_within B tmpl" and "B \<le> max_alloc"
  shows "calm (generateRSAKeyPair env tmpl) w"
proof -
  have "calm (env_rsa_GenerateKey env (sint n)) w" if "rsa_template tmpl None = Inr (Some n)" for n
  proof -
    have "unat n \<le> B" using rsa_template_size [OF that] assms(2) by (auto simp: sizes_within_def)
    then show ?thesis using sint_within assms(3) env_calm_intros(3) [OF assms(1)] by blast
  qed
  then show ?thesis
    by (auto simp: generateRSAKeyPair_def rsa_template_calm intro!: or_general_error_calm
        split: sum.splits option.splits)
qed

lemma generateECKeyPair_calm: "env_calm B env \<Longrightarrow> calm (generateECKeyPair env tmpl) w"
  by (auto simp: generateECKeyPair_def Let_def intro!: or_general_error_calm calm_intros split: option.splits)

lemma generated_key_fits:
  assumes "env_arithmetic env"
    and "(if m_typ m = ckmRSAKeyPairGen then generateRSAKeyPair env tmpl
      else if m_typ m = ckmECKeyPairGen then generateECKeyPair env tmpl
      else act_fail (Pkcs11 errMechanismInvalid)) w = (Inr key, w')"
  shows "key_fits (signer_Public key)"
proof -
  have g: "\<exists>u. m u = (Inr k, w')" if "or_general_error m u = (Inr k, w')" for m :: "('a, signer) act" and u k
    using that by (auto simp: or_general_error_def split: prod.splits sum.splits)
  consider n where "env_rsa_GenerateKey env n w = (Inr key, w')"
    | c where "env_ecdsa_GenerateKey env c w = (Inr key, w')"
    using assms(2)
    by (auto simp: generateRSAKeyPair_def generateECKeyPair_def or_general_error_def Let_def
        split: if_splits sum.splits option.splits prod.splits)
  then show ?thesis
    using assms(1) unfolding env_arithmetic_def key_fits_def by cases fastforce+
qed

lemma generateKeyPair_calm [calm_intros]:
  assumes "env_calm B env" and "env_arithmetic env"
    and "m_typ m = ckmRSAKeyPairGen \<Longrightarrow> sizes_within B pubTmpl" and "B \<le> max_alloc"
  shows "calm (generateKeyPair env m pubTmpl privTmpl) w"
  unfolding generateKeyPair_def
proof (intro calm_bind)
  show "calm (if m_typ m = ckmRSAKeyPairGen then generateRSAKeyPair env pubTmpl
      else if m_typ m = ckmECKeyPairGen then generateECKeyPair env pubTmpl
      else act_fail (Pkcs11 errMechanismInvalid)) w"
    using generateRSAKeyPair_calm [OF assms(1,3,4)] generateECKeyPair_calm [OF assms(1)] by simp
qed (auto intro!: calm_intros assms(1) dest: generated_key_fits [OF assms(2)])

text \<open>A mechanism whose salt, if it has one, is within the capacity.\<close>

definition salt_within :: "nat \<Rightarrow> mechanism \<Rightarrow> bool" where
  "salt_within B m \<longleftrightarrow> (\<forall>p h. m_params m = ParamsPSS p \<longrightarrow> opts_within B (PSSOpts h (sint (saltLen p))))"

lemma sign_calm [calm_intros]:
  assumes env: "env_calm B env" and salt: "salt_within B m"
  shows "calm (sign env obj m data) w"
proof -
  have raw: "\<not> is_crash e" if "raw_signature n r s = Inl e" for n r s e
    using that raw_signature_no_panic [of n r s] by (auto simp: raw_signature_cases split: if_splits)
  have hash: "calm (env_Sign env k d (HashOpts h)) u" for k d h u
    by (rule env_calm_intros(2) [OF env]) simp
  have pss: "calm (env_Sign env k d (PSSOpts h (sint (saltLen p)))) u" if "m_params m = ParamsPSS p" for k d h p u
    using that salt unfolding salt_within_def by (blast intro: env_calm_intros(2) [OF env])
  have "calm (signECDSA env k m data) w" for k
    unfolding signECDSA_def
    by (auto intro!: calm_bind calm_fail calm_return calm_lift calm_if hash raw split: option.splits public_key.splits)
  moreover have "calm (signRSAPKCS env k m data) w" for k
    unfolding signRSAPKCS_def by (auto intro!: hash split: option.splits)
  moreover have "calm (signRSAPKCSPSS env k m data) w" for k
    unfolding signRSAPKCSPSS_def by (auto intro!: pss split: option.splits params.splits)
  ultimately show ?thesis by (auto simp: sign_def split: option.splits)
qed

lemma newSession_calm:
  assumes "env_calm B env" and "length (sessions (conn st)) < 2 ^ 64"
  shows "calm (newSession env i) st"
proof -
  have f: "add_session s h \<noteq> None" if "sessions h = sessions (conn st)" for s h
    using next_free_ends [OF assms(2), of "lastSessionID h + 1"] that
    by (auto simp: add_session_def)
  have w: "calm (on_world (env_GetObjects env cb)) st" for cb
    using assms(1) by (intro calm_intros)
  have o: "calm (slot_objects env k) st" for k
    using w by (auto simp: slot_objects_def Let_def calm_def split: option.splits)
  have "calm (\<lambda>st. act_bind (slot_objects env k) (\<lambda>objs st.
      case add_session (fresh_session i objs) (conn st) of
        None \<Rightarrow> (Inl NonTermination, st) | Some (j, h) \<Rightarrow> (Inr j, st\<lparr>conn := h\<rparr>)) st) st" for k
  proof (intro calm_bind o)
    fix objs t assume "slot_objects env k st = (Inr objs, t)"
    then have "conn t = conn st" using slot_objects_offered by blast
    then show "calm (\<lambda>st. case add_session (fresh_session i objs) (conn st) of
        None \<Rightarrow> (Inl NonTermination, st) | Some (j, h) \<Rightarrow> (Inr j, st\<lparr>conn := h\<rparr>)) t"
      using f [of "conn t" "fresh_session i objs"] by (auto simp: calm_def split: option.splits prod.splits)
  qed
  then show ?thesis
    unfolding calm_def newSession_def by (auto simp: handler_slot_def split: option.splits sum.splits)
qed

lemma closeSession_calm [calm_intros]: "calm (closeSession i) st"
  by (auto simp: calm_def closeSession_def Let_def split: if_splits)

lemma init_token_calm [calm_intros]: "calm (init_token i l) st"
  by (auto simp: calm_def init_token_def handler_slot_def split: sum.splits option.splits if_splits)

lemma persist_tokens_calm [calm_intros]: "calm (persist_tokens i objs) st"
proof (induction objs arbitrary: st)
  case (Cons obj objs)
  have "calm (persistObject i obj) st"
    by (auto simp: calm_def persistObject_def handler_slot_def split: option.splits sum.splits)
  then show ?case using Cons.IH by (auto intro: calm_bind)
qed simp

lemma slot_mechanismInfo_calm [calm_intros]: "env_calm B env \<Longrightarrow> calm (slot_mechanismInfo env s m) w"
  by (auto simp: slot_mechanismInfo_def default_mechanismInfo_def intro: calm_intros
      split: option.splits)

lemma session_object_calm: "session_object s i = Inl e \<Longrightarrow> \<not> is_crash e"
  by (auto simp: session_object_def split: option.splits)

lemma supports_calm: "supports obj m = Inl e \<Longrightarrow> \<not> is_crash e"
  by (auto simp: supports_def split: option.splits public_key.splits if_splits)

lemma session_attributeValue_calm: "session_attributeValue s i ts = Inl e \<Longrightarrow> \<not> is_crash e"
  by (auto simp: session_attributeValue_def session_object_def split: option.splits sum.splits)

section \<open>Deriving a key\<close>

text \<open>
  The length that a template asks for. With \<^verbatim>\<open>CKD_NULL\<close> it is given to \<^verbatim>\<open>make\<close>; with a hash the loop of the
  derivation appends that many bytes.
\<close>

definition lengths_within :: "nat \<Rightarrow> attribute list \<Rightarrow> bool" where
  "lengths_within B tmpl \<longleftrightarrow>
     (\<forall>t \<in> set tmpl. \<forall>n. a_typ t = attributeValueLen \<and> setUint64 t = Some n \<longrightarrow> unat n \<le> B)"

lemma derive_template_len:
  "derive_template ts (cl, kt, len) = (cl', kt', len') \<Longrightarrow>
    len' = len \<or> (\<exists>t \<in> set ts. a_typ t = attributeValueLen \<and> setUint64 t = Some len')"
proof (induction ts arbitrary: cl kt len)
  case (Cons t ts)
  then show ?case by (auto split: option.splits if_splits)
qed simp

lemma ecdhSharedSecret_calm:
  assumes "ecdhSharedSecret env c d public = Inl e" and "env_arithmetic env"
  shows "\<not> is_crash e"
proof -
  have fit: "\<exists>b. fillBytes (fst (env_ScalarMult env c x y k)) ((curve_BitSize c + 7) div 8) = Some b"
    if "env_IsOnCurve env c x y" for x y k
    using assms(2) that unfolding env_arithmetic_def by (blast intro: fillBytes_fits)
  have "ecdhSharedSecret env c d public \<noteq> Inl RuntimePanic \<and>
      ecdhSharedSecret env c d public \<noteq> Inl NonTermination"
    unfolding ecdhSharedSecret_def Let_def by (auto dest!: fit [where k = "bigBytes d"] split: option.splits)
  then show ?thesis using assms(1) by (auto simp: is_crash_def)
qed

lemma derive_guards_calm: "derive_guards m base = Inl e \<Longrightarrow> \<not> is_crash e"
  by (auto simp: derive_guards_def split: params.splits option.splits signer.splits if_splits)

lemma resizeSecret_calm:
  "resizeSecret secret n = Inl e \<Longrightarrow> unat n \<le> max_alloc \<or> length secret = unat n \<Longrightarrow> \<not> is_crash e"
  by (auto simp: resizeSecret_def split: if_splits)

lemma derive_secret_calm:
  assumes "derive_secret env p secret n = Inl e" and "env_arithmetic env"
    and "kdf p = ckdNull \<Longrightarrow> unat n \<le> max_alloc \<or> of_nat (length secret) = n"
  shows "\<not> is_crash e"
proof (cases "kdf p = ckdNull")
  case True
  then show ?thesis using assms(1,3)
    by (auto simp: derive_secret_def resizeSecret_def split: if_splits)
next
  case False
  show ?thesis
  proof (cases "hashForKDF (kdf p)")
    case (Inl f)
    then show ?thesis using assms(1) False
      by (auto simp: derive_secret_def hashForKDF_def split: if_splits)
  next
    case (Inr h)
    then have h: "h \<noteq> NoHash" "0 < hash_Size h"
      by (auto simp: hashForKDF_def split: if_splits)
    then have len: "length (env_hash_Sum env h b) = hash_Size h" for b
      using assms(2) by (simp add: env_arithmetic_def)
    show ?thesis
    proof (cases "0 < sint n")
      case True
      obtain out where out: "x963KDF (env_hash_Sum env h) secret (sharedData p) (sint n) = Inr out"
        "length out = nat (sint n)" using x963KDF_length [of "env_hash_Sum env h" "hash_Size h", OF len h(2) True] by blast
      then show ?thesis using assms(1) False Inr sint_positive [OF True]
        by (auto simp: derive_secret_def resizeSecret_def)
    next
      case neg: False
      then show ?thesis using assms(1) False Inr by (auto simp: derive_secret_def x963KDF_def)
    qed
  qed
qed

lemma deriveECDH_calm:
  assumes "env_calm B env" and "env_arithmetic env" and "B \<le> max_alloc"
    and "\<And>p. m_params m = ParamsECDH1 p \<Longrightarrow> lengths_within B tmpl"
  shows "calm (deriveECDH env m base tmpl) w"
proof (cases "derive_guards m base")
  case (Inl e)
  then show ?thesis by (simp add: deriveECDH_def derive_guards_calm)
next
  case (Inr g)
  obtain p c d where g: "g = (p, c, d)" by (cases g)
  have p: "m_params m = ParamsECDH1 p" using Inr derive_guards_Inr unfolding g by blast
  show ?thesis
  proof (cases "ecdhSharedSecret env c d (publicData p)")
    case (Inl e)
    then show ?thesis using ecdhSharedSecret_calm [OF _ assms(2)] \<open>derive_guards m base = Inr g\<close>
      by (simp add: deriveECDH_def g)
  next
    case secret: (Inr secret)
    obtain cl kt n where t: "derive_template tmpl
        (ckoSecretKey, ckkGenericSecret, of_nat (length secret)) = (cl, kt, n)"
      by (cases "derive_template tmpl (ckoSecretKey, ckkGenericSecret, of_nat (length secret))")
    have "unat n \<le> max_alloc \<or> of_nat (length secret) = n"
      using derive_template_len [OF t] assms(3) assms(4) [OF p] unfolding lengths_within_def by force
    then have "\<not> is_crash e" if "derive_secret env p secret n = Inl e" for e
      using derive_secret_calm [OF that assms(2)] by blast
    then show ?thesis
      by (auto simp: deriveECDH_def Inr g secret t intro!: calm_bind calm_lift newObjectID_calm assms(1))
  qed
qed

section \<open>The handlers\<close>

text \<open>The mechanism and the first template of a request, as the handlers read them.\<close>

definition request_mechanism :: "body \<Rightarrow> mechanism" where
  "request_mechanism req = fst (readMechanism (snd (readUlong req)))"

definition generate_template :: "body \<Rightarrow> attribute list" where
  "generate_template req = fst (readAttributeArray (snd (readMechanism (snd (readUlong req)))))"

definition derive_attributes :: "body \<Rightarrow> attribute list" where
  "derive_attributes req =
     fst (readAttributeArray (snd (readUlong (snd (readMechanism (snd (readUlong req)))))))"

text \<open>
  A request within the capacity: the code checks none of the three numbers that a client
  names, the length of a derived key, the size of an RSA key and the length of a salt.
\<close>

definition harmless :: "nat \<Rightarrow> body \<Rightarrow> bool" where
  "harmless B req \<longleftrightarrow>
     (b_call req = callDeriveKey \<longrightarrow> (\<forall>p. m_params (request_mechanism req) = ParamsECDH1 p \<longrightarrow>
        lengths_within B (derive_attributes req))) \<and>
     (b_call req = callGenerateKeyPair \<longrightarrow> m_typ (request_mechanism req) = ckmRSAKeyPairGen \<longrightarrow>
        sizes_within B (generate_template req)) \<and>
     (b_call req = callSignInit \<longrightarrow> salt_within B (request_mechanism req))"

text \<open>The salts of the mechanisms that sessions sign with.\<close>

definition salts_ok :: "nat \<Rightarrow> handler \<Rightarrow> bool" where
  "salts_ok B h \<longleftrightarrow> (\<forall>i s. lookup_session h i = Some s \<longrightarrow> salt_within B (signMechanism s))"

lemma calm_in_session:
  assumes "\<And>s. lookup_session (conn st) i = Some s \<Longrightarrow> calm (f s) st"
  shows "calm (act_bind (get_session i) f) st"
proof (rule calm_bind)
  fix s t assume "get_session i st = (Inr s, t)"
  then show "calm (f s) t" using assms get_sessionD [of i st s t] by simp
qed (rule calm_get_session)

lemma handlers_calm:
  assumes "body_calm req"
  shows "calm (handleInitialize req) st" "calm (handleGetInfo req) st"
    "calm (handleGetTokenInfo req) st" "calm (handleGetSlotInfo req) st"
    "calm (handleGetMechanismList req) st" "calm (handleGenerateRandom req) st"
    "calm (handleSeedRandom req) st" "calm (handleGetSlotList req) st"
    "calm (handleLogin req) st" "calm (handleLogout req) st" "calm (handleGetSessionInfo req) st"
    "calm (handleFindObjectsFinal req) st" "calm (handleInitToken req) st"
    "calm (handleCloseSession req) st" "calm (handleFindObjectsInit req) st"
    "calm (handleFindObjects req) st" "calm (handleSignUpdate req) st"
    "calm (handleGetAttributeValue req) st" "calm (handleSignInit req) st"
proof -
  note u = handler_unfold
  show "calm (handleInitialize req) st" unfolding handleInitialize_def u
    by (intro calm_intros) (simp_all add: assms)
  show "calm (handleGetInfo req) st" unfolding handleGetInfo_def u
    by (intro calm_checked assms) (simp add: calm_def)
  show "calm (handleGetTokenInfo req) st" unfolding handleGetTokenInfo_def u
    by (intro calm_intros) (simp_all add: assms)
  show "calm (handleGetSlotInfo req) st" unfolding handleGetSlotInfo_def u
    by (intro calm_intros) (simp_all add: assms)
  show "calm (handleGetMechanismList req) st" unfolding handleGetMechanismList_def u
    by (intro calm_intros) (simp_all add: assms)
  show "calm (handleGenerateRandom req) st" "calm (handleSeedRandom req) st"
    by (simp_all add: handleGenerateRandom_def handleSeedRandom_def)
  show "calm (handleGetSlotList req) st" unfolding handleGetSlotList_def u
    by (intro calm_checked) (simp_all add: assms calm_def)
  show "calm (handleLogin req) st" unfolding handleLogin_def u
    by (intro calm_intros) (simp_all add: assms)
  show "calm (handleLogout req) st" unfolding handleLogout_def u
    by (intro calm_intros) (simp_all add: assms)
  show "calm (handleGetSessionInfo req) st" unfolding handleGetSessionInfo_def u
    by (intro calm_intros) (simp_all add: assms)
  show "calm (handleFindObjectsFinal req) st" unfolding handleFindObjectsFinal_def u
    by (intro calm_intros) (simp_all add: assms)
  show "calm (handleInitToken req) st" unfolding handleInitToken_def u
    by (intro calm_intros) (simp_all add: assms)
  show "calm (handleCloseSession req) st" unfolding handleCloseSession_def u
    by (intro calm_intros) (simp_all add: assms)
  show "calm (handleFindObjectsInit req) st" unfolding handleFindObjectsInit_def u
    by (intro calm_intros) (simp_all add: assms)
  show "calm (handleFindObjects req) st" unfolding handleFindObjects_def u
    by (intro calm_intros) (simp_all add: assms)
  show "calm (handleSignUpdate req) st" unfolding handleSignUpdate_def u
    by (intro calm_intros) (simp_all add: assms)
  show "calm (handleGetAttributeValue req) st" unfolding handleGetAttributeValue_def u
    by (intro calm_intros) (auto simp: assms dest: session_attributeValue_calm)
  show "calm (handleSignInit req) st" unfolding handleSignInit_def u
    by (intro calm_intros) (auto simp: assms dest: session_object_calm supports_calm)
qed

lemma env_handlers_calm:
  assumes "body_calm req" and "env_calm B env" and "B \<le> max_alloc"
  shows "calm (handleGetMechanismInfo env req) st"
    "salts_ok B (conn st) \<Longrightarrow> calm (handleSign env req) st"
    "salts_ok B (conn st) \<Longrightarrow> calm (handleSignFinal env req) st"
    "env_arithmetic env \<Longrightarrow>
      (m_typ (request_mechanism req) = ckmRSAKeyPairGen \<Longrightarrow> sizes_within B (generate_template req)) \<Longrightarrow>
      calm (handleGenerateKeyPair env req) st"
    "length (sessions (conn st)) < 2 ^ 64 \<Longrightarrow> calm (handleOpenSession env req) st"
    "env_arithmetic env \<Longrightarrow>
      (\<And>p. m_params (request_mechanism req) = ParamsECDH1 p \<Longrightarrow> lengths_within B (derive_attributes req)) \<Longrightarrow>
      calm (handleDeriveKey env req) st"
proof -
  note u = handler_unfold
  show "calm (handleGetMechanismInfo env req) st" unfolding handleGetMechanismInfo_def u
    by (intro calm_intros) (simp_all add: assms(1), rule assms(2))
  show "calm (handleSign env req) st" if "salts_ok B (conn st)" unfolding handleSign_def u
    by (intro calm_checked calm_in_session calm_bind calm_on_world sign_calm [OF assms(2)] calm_return)
      (use that in \<open>simp_all add: assms(1) salts_ok_def\<close>)
  show "calm (handleSignFinal env req) st" if "salts_ok B (conn st)" unfolding handleSignFinal_def u
    by (intro calm_checked calm_in_session calm_bind calm_on_world sign_calm [OF assms(2)] calm_return)
      (use that in \<open>simp_all add: assms(1) salts_ok_def\<close>)
  show "calm (handleGenerateKeyPair env req) st" if "env_arithmetic env"
    "m_typ (request_mechanism req) = ckmRSAKeyPairGen \<Longrightarrow> sizes_within B (generate_template req)"
    unfolding handleGenerateKeyPair_def u
    by (intro calm_checked calm_bind calm_get_session calm_on_world calm_put_session persist_tokens_calm
        calm_return generateKeyPair_calm [OF assms(2) that(1) _ assms(3)])
      (use that(2) in \<open>simp_all add: assms(1) request_mechanism_def generate_template_def\<close>)
  show "calm (handleOpenSession env req) st" if "length (sessions (conn st)) < 2 ^ 64"
    using newSession_calm [OF assms(2) that] unfolding handleOpenSession_def u
    by (intro calm_checked calm_if calm_bind calm_fail calm_return) (simp_all add: assms(1))
  show "calm (handleDeriveKey env req) st"
    if "env_arithmetic env"
      "\<And>p. m_params (request_mechanism req) = ParamsECDH1 p \<Longrightarrow> lengths_within B (derive_attributes req)"
  proof -
    have "calm (session_derive env (request_mechanism req) obj (derive_attributes req)) w" for obj w
      using deriveECDH_calm [OF assms(2) that(1) assms(3) that(2)] by (simp add: session_derive_def)
    then show ?thesis
      unfolding handleDeriveKey_def u
      by (intro calm_checked calm_bind calm_get_session calm_lift calm_on_world calm_put_session calm_return)
        (auto simp: assms(1) request_mechanism_def derive_attributes_def dest: session_object_calm)
  qed
qed

text \<open>A request within the capacity is calm, if those before it were.\<close>

lemma run_handler_calm:
  assumes "env_calm B env" and "env_arithmetic env" and "B \<le> max_alloc" and "body_calm req"
    and "length (sessions (conn st)) < 2 ^ 64" and "salts_ok B (conn st)" and "harmless B req"
  shows "calm (run_handler env req) st"
proof (cases "map_of (handlers env) (b_call req)")
  case (Some h)
  note env = env_handlers_calm [OF assms(4,1,3)]
  from Some have "(b_call req, h) \<in> set (handlers env)" by (rule map_of_SomeD)
  then have "calm (h req) st"
    using assms(7) unfolding handlers_def list.set insert_iff prod.inject empty_iff harmless_def
    by (elim disjE conjE FalseE) (simp_all only: handlers_calm [OF assms(4)] env(1) env(2,3) [OF assms(6)]
        env(4) [OF assms(2)] env(5) [OF assms(5)] env(6) [OF assms(2)] calm_return not_False_eq_True simp_thms)
  then show ?thesis by (simp add: calm_def run_handler_def Some)
qed (simp add: calm_def run_handler_def)

text \<open>So it is answered, or ends the connection with an error.\<close>

lemma respond_calm:
  assumes "env_calm B env" and "env_arithmetic env" and "B \<le> max_alloc" and "b_error req = None"
    and "length (sessions (conn st)) < 2 ^ 64" and "salts_ok B (conn st)" and "harmless B req"
  shows "(\<exists>resp. fst (respond env req st) = Inr resp) \<or>
    (\<exists>e. fst (respond env req st) = Inl (ErrCallFailed (b_call req) e) \<and> errors_As e = None)"
proof -
  have "body_calm req" using assms(4) by (simp add: body_calm_def)
  then have "calm (run_handler env req) st" using run_handler_calm [OF assms(1-3)] assms(5-7) by blast
  then show ?thesis
    by (auto simp: respond_def calm_def split: prod.splits sum.splits option.splits)
qed

text \<open>
  An environment that does return, but only what it documents: its \<^verbatim>\<open>SignPSS\<close> and its key
  generation panic beyond the capacity, as those of the standard library do.
\<close>

definition calm_env :: "nat env" where
  "calm_env = sample_env\<lparr>
     env_Sign := (\<lambda>s d opts w. (if opts_within 4096 opts then Inr (Some (marshalSig 5 6)) else Inl RuntimePanic, w)),
     env_rsa_GenerateKey := (\<lambda>n w. (if 0 \<le> n \<and> n \<le> 4096
        then Inr (OtherSigner (RsaPublicKey (2 ^ 1023) 65537) 0) else Inl RuntimePanic, w)),
     env_ecdsa_GenerateKey := (\<lambda>c w. (Inr (EcdsaPrivateKey c 0 0 3), w)),
     env_ScalarMult := (\<lambda>c x y d. (0, 0))\<rparr>"

lemma calm_env_ok: "env_calm 4096 calm_env" "env_arithmetic calm_env" "4096 \<le> max_alloc"
proof -
  show "env_calm 4096 calm_env" by (simp add: env_calm_def calm_env_def sample_env_def calm_def)
  show "env_arithmetic calm_env"
    by (auto simp: env_arithmetic_def calm_env_def sample_env_def)
qed (simp add: max_alloc_def)

end
