(* ===== verification/Connection.thy ===== *)
theory Connection
  imports Robustness
begin

text \<open>
  A whole connection, whatever bytes its peer sends: which requests its input holds, how many
  sessions they can open, and the ways in which \<^verbatim>\<open>Handle\<close> returns.
\<close>

section \<open>The requests in an input\<close>

function requests_in :: "bytes \<Rightarrow> body list" where
  "requests_in b =
     (case readRequest b of
        (Inl e, r) \<Rightarrow> []
      | (Inr (callID, req), r) \<Rightarrow> req # requests_in r)"
  by pat_completeness auto

termination
proof (relation "measure length", goal_cases)
  case (2 b x r y callID req)
  then show ?case using readRequest_shorter [of b "(callID, req)" r] by simp
qed simp

declare requests_in.simps [simp del]

lemma readRequest_error:
  "readRequest b = (Inl e, r) \<Longrightarrow> e \<in> {ErrReadHeader, ErrReadBody, ErrMalformedBody}"
  by (auto simp: readRequest_def Let_def split: prod.splits option.splits if_splits)

lemma readRequest_no_error: "readRequest b = (Inr (callID, req), r) \<Longrightarrow> b_error req = None"
  by (auto simp: readRequest_def Let_def split: prod.splits option.splits if_splits)

section \<open>What a request does to the sessions\<close>

text \<open>
  An action that leaves no more sessions than there were, and none that signs with a salt
  beyond the capacity if there was none.
\<close>

definition quiet :: "nat \<Rightarrow> ('w state, 'a) act \<Rightarrow> 'w state \<Rightarrow> bool" where
  "quiet B m st \<longleftrightarrow> length (sessions (conn (snd (m st)))) \<le> length (sessions (conn st)) \<and>
     (salts_ok B (conn st) \<longrightarrow> salts_ok B (conn (snd (m st))))"

named_theorems quiet_intros "rules for actions that open no session"

lemma quiet_same: "conn (snd (m st)) = conn st \<Longrightarrow> quiet B m st"
  by (simp add: quiet_def)

lemma quiet_pure [quiet_intros]:
  "quiet B (act_return x) st" "quiet B (act_fail e) st" "quiet B (act_lift r) st"
  "quiet B (get_slot i) st" "quiet B (get_session i) st" "quiet B (init_token i l) st"
  by (auto intro!: quiet_same simp: act_lift_def get_slot_def get_session_def init_token_def
      split: sum.splits option.splits)

lemma quiet_on_world [quiet_intros]: "quiet B (on_world m) st"
  by (auto intro!: quiet_same simp: on_world_def split: prod.splits)

lemma quiet_bind [quiet_intros]:
  assumes "quiet B m st" and "\<And>x t. m st = (Inr x, t) \<Longrightarrow> quiet B (f x) t"
  shows "quiet B (act_bind m f) st"
proof (cases "m st")
  case (Pair r t)
  show ?thesis
  proof (cases r)
    case (Inr x)
    then have "quiet B (f x) t" using assms(2) Pair by simp
    then show ?thesis using assms(1) Pair Inr by (simp add: quiet_def)
  qed (use assms(1) Pair in \<open>simp add: quiet_def\<close>)
qed

lemma quiet_checked [quiet_intros]: "quiet B m st \<Longrightarrow> quiet B (checked req m) st"
  by (simp add: checked_def quiet_pure split: option.split)

lemma quiet_if [quiet_intros]:
  "(b \<Longrightarrow> quiet B m st) \<Longrightarrow> (\<not> b \<Longrightarrow> quiet B n st) \<Longrightarrow> quiet B (if b then m else n) st"
  by simp

lemma update_length:
  "length (AList.update i s al) = (if map_of al i = None then Suc (length al) else length al)"
  by (induction al) auto

lemma salts_ok_put: "salts_ok B h \<Longrightarrow> salt_within B (signMechanism s) \<Longrightarrow> salts_ok B (update_session i s h)"
  by (simp add: salts_ok_def sess.put_map)

lemma quiet_put_mechanism:
  assumes "lookup_session (conn st) i \<noteq> None" and "salt_within B (signMechanism s)"
  shows "quiet B (put_session i s) st"
proof -
  have "length (sessions (update_session i s (conn st))) = length (sessions (conn st))"
    using assms(1) by (simp add: update_session_def lookup_session_def update_length)
  then show ?thesis using salts_ok_put assms(2) by (simp add: quiet_def put_session_def)
qed

text \<open>Replacing a session by one that signs with the same mechanism.\<close>

lemma quiet_put_session:
  assumes "lookup_session (conn st) i = Some s" and "signMechanism s' = signMechanism s"
  shows "quiet B (put_session i s') st"
proof (cases "salts_ok B (conn st)")
  case True
  then have "salt_within B (signMechanism s')" using assms unfolding salts_ok_def by metis
  then show ?thesis using quiet_put_mechanism assms(1) by fastforce
next
  case False
  then show ?thesis using assms(1)
    by (simp add: quiet_def put_session_def update_session_def lookup_session_def update_length)
qed

lemma same_mechanism [simp]:
  "signMechanism (session_find s tmpl) = signMechanism s"
  "signMechanism (snd (session_findNext s n)) = signMechanism s"
  by (simp_all add: session_find_def session_findNext_def Let_def)

lemma quiet_closeSession [quiet_intros]: "quiet B (closeSession i) st"
proof -
  have "salts_ok B h \<Longrightarrow> salts_ok B (remove_session i h)" for h
    by (simp add: salts_ok_def sess.remove_map)
  then show ?thesis
    by (auto simp: quiet_def closeSession_def Let_def) (auto simp: remove_session_def intro: length_delete_le)
qed

lemma quiet_persist [quiet_intros]: "quiet B (persist_tokens i objs) st"
proof (induction objs arbitrary: st)
  case (Cons obj objs)
  have "quiet B (persistObject i obj) st"
    by (auto intro!: quiet_same simp: persistObject_def split: sum.splits)
  then show ?case using Cons.IH by (auto intro: quiet_bind)
qed (simp add: quiet_def)

text \<open>An action on a session that goes on to replace it.\<close>

lemma quiet_in_session [quiet_intros]:
  assumes "\<And>s. lookup_session (conn st) i = Some s \<Longrightarrow> quiet B (f s) st"
  shows "quiet B (act_bind (get_session i) f) st"
proof (rule quiet_bind)
  fix s t assume "get_session i st = (Inr s, t)"
  then show "quiet B (f s) t" using assms get_sessionD [of i st s t] by simp
qed (rule quiet_pure)

lemma reading_quiet: "snd (h req st) = st \<Longrightarrow> quiet B (h req) st"
  by (simp add: quiet_def)

lemma handlers_quiet:
  "quiet B (handleGetMechanismInfo env req) st" "quiet B (handleInitToken req) st"
  "quiet B (handleCloseSession req) st" "quiet B (handleFindObjectsInit req) st"
  "quiet B (handleFindObjects req) st"
  "salt_within B (request_mechanism req) \<Longrightarrow> quiet B (handleSignInit req) st" "quiet B (handleSign env req) st"
  "quiet B (handleSignUpdate req) st" "quiet B (handleSignFinal env req) st"
  "quiet B (handleGenerateKeyPair env req) st" "quiet B (handleDeriveKey env req) st"
proof -
  note u = handler_unfold
  show "quiet B (handleGetMechanismInfo env req) st" unfolding handleGetMechanismInfo_def u
    by (intro quiet_intros)
  show "quiet B (handleInitToken req) st" unfolding handleInitToken_def u
    by (intro quiet_intros)
  show "quiet B (handleCloseSession req) st" unfolding handleCloseSession_def u
    by (intro quiet_intros)
  show "quiet B (handleFindObjectsInit req) st" unfolding handleFindObjectsInit_def u
    by (intro quiet_checked quiet_in_session quiet_bind quiet_put_session quiet_pure) simp_all
  show "quiet B (handleFindObjects req) st" unfolding handleFindObjects_def u
    by (intro quiet_checked quiet_in_session quiet_bind quiet_put_session quiet_pure) simp_all
  show "quiet B (handleSignUpdate req) st" unfolding handleSignUpdate_def u
    by (intro quiet_checked quiet_in_session quiet_bind quiet_put_session quiet_pure) simp_all
  show "quiet B (handleSign env req) st" unfolding handleSign_def u
    by (intro quiet_intros)
  show "quiet B (handleSignFinal env req) st" unfolding handleSignFinal_def u
    by (intro quiet_intros)
  show "quiet B (handleSignInit req) st" if "salt_within B (request_mechanism req)"
    unfolding handleSignInit_def u
    by (intro quiet_checked quiet_in_session)
      (use that in \<open>auto intro!: quiet_bind quiet_pure quiet_put_mechanism simp: act_lift_def request_mechanism_def\<close>)
  show "quiet B (handleGenerateKeyPair env req) st" unfolding handleGenerateKeyPair_def u
    by (intro quiet_checked quiet_in_session)
      (auto intro!: quiet_bind quiet_pure quiet_put_session quiet_on_world quiet_persist
        simp del: persist_tokens.simps dest!: on_worldD)
  show "quiet B (handleDeriveKey env req) st" unfolding handleDeriveKey_def u
    by (intro quiet_checked quiet_in_session)
      (auto intro!: quiet_bind quiet_pure quiet_put_session quiet_on_world simp: act_lift_def dest!: on_worldD)
qed

text \<open>A request opens one session at most, which has no mechanism yet.\<close>

definition opens_one :: "nat \<Rightarrow> ('w state, 'a) act \<Rightarrow> 'w state \<Rightarrow> bool" where
  "opens_one B m st \<longleftrightarrow> length (sessions (conn (snd (m st)))) \<le> Suc (length (sessions (conn st))) \<and>
     (salts_ok B (conn st) \<longrightarrow> salts_ok B (conn (snd (m st))))"

lemma quiet_opens_one: "quiet B m st \<Longrightarrow> opens_one B m st"
  by (auto simp: quiet_def opens_one_def)

lemma newSession_adds_one: "opens_one B (newSession env i) st"
proof (cases "handler_slot (server st) i")
  case (Inr k)
  obtain r t where o: "slot_objects env k st = (r, t)" by fastforce
  then have t: "conn t = conn st"
    by (auto simp: slot_objects_def Let_def on_world_def split: option.splits prod.splits)
  have add: "length (sessions h) = Suc (length (sessions (conn st)))"
    if "add_session s (conn st) = Some (j, h)" for s j h
    using that by (auto simp: add_session_def update_length dest!: next_free_SomeD split: option.splits)
  have salts: "salts_ok B h" if "add_session (fresh_session i objs) (conn st) = Some (j, h)"
    "salts_ok B (conn st)" for objs j h
    using that(2) by (simp add: salts_ok_def sess.add_map [OF that(1)])
      (simp add: fresh_session_def salt_within_def zero_mechanism_def)
  show ?thesis
    by (cases r) (auto simp: opens_one_def newSession_def Inr o t add salts split: option.split)
qed (simp add: opens_one_def newSession_def)

lemma bind_return_state: "snd (act_bind m (\<lambda>x. act_return (f x)) st) = snd (m st)"
  by (cases "m st"; cases "fst (m st)") auto

lemma open_session_adds_one: "opens_one B (handleOpenSession env req) st"
  using newSession_adds_one [of B env _ st]
  unfolding handleOpenSession_def handler_unfold
  by (simp add: opens_one_def checked_def bind_return_state split: option.split)

lemma run_handler_sessions:
  assumes "harmless B req"
  shows "opens_one B (run_handler env req) st"
proof (cases "map_of (handlers env) (b_call req)")
  case (Some h)
  then have h: "(b_call req, h) \<in> set (handlers env)" by (rule map_of_SomeD)
  have sign: "b_call req = callSignInit \<Longrightarrow> quiet B (handleSignInit req) st"
    using assms handlers_quiet(6) by (auto simp: harmless_def)
  from h have "h = handleOpenSession env \<or> quiet B (h req) st"
    unfolding handlers_def
    by (auto simp: handlers_quiet reading_steps quiet_pure intro: reading_quiet sign)
  then have "opens_one B (h req) st"
    using open_session_adds_one [of B env req st] quiet_opens_one [of B "h req" st] by (elim disjE) simp_all
  then show ?thesis by (simp add: run_handler_def Some)
qed (simp add: run_handler_def opens_one_def)

lemma respond_sessions:
  assumes "respond env req st = (r, st')" and "harmless B req"
  shows "length (sessions (conn st')) \<le> Suc (length (sessions (conn st)))"
    and "salts_ok B (conn st) \<Longrightarrow> salts_ok B (conn st')"
  using run_handler_sessions [OF assms(2), of env st] assms(1) unfolding respond_def opens_one_def
  by (auto split: prod.splits sum.splits option.splits if_splits)

section \<open>How a connection ends\<close>

text \<open>
  Without an error, because the peer could not be written to, because what it sent is not a
  request, or because a handler's error is not a PKCS #11 code.
\<close>

inductive ordinary_end :: "go_error option \<Rightarrow> bool" where
  finalized: "ordinary_end None"
| negotiating: "e = ErrReadVersion \<or> e = ErrWriteVersion \<Longrightarrow> ordinary_end (Some (ErrNegotiate e))"
| reading: "e \<in> {ErrReadHeader, ErrReadBody, ErrMalformedBody} \<Longrightarrow> ordinary_end (Some (ErrReadRequest e))"
| writing: "ordinary_end (Some ErrWriteResponse)"
| failed: "errors_As e = None \<Longrightarrow> ordinary_end (Some (ErrCallFailed c e))"

lemma serve_ends:
  assumes "env_calm B env" and "env_arithmetic env" and "B \<le> max_alloc"
    and "length (sessions (conn st)) + length (io_in c) < 2 ^ 64" and "salts_ok B (conn st)"
    and "list_all (harmless B) (requests_in (io_in c))"
  shows "ordinary_end (fst (serve env st c))"
  using assms
proof (induction env st c rule: serve.induct)
  case (1 env st c)
  obtain x r where Pair: "readRequest (io_in c) = (x, r)" by fastforce
  show ?case
  proof (cases x)
    case (Inl e)
    then show ?thesis using Pair readRequest_error
      by (subst serve.simps) (auto intro!: ordinary_end.reading)
  next
    case (Inr y)
    obtain callID req where y: "y = (callID, req)" by fastforce
    note shorter = readRequest_shorter [OF Pair [unfolded Inr y]]
    have reqs: "requests_in (io_in c) = req # requests_in r"
      by (subst requests_in.simps) (simp add: Pair Inr y)
    obtain res st' where res: "respond env req st = (res, st')" by fastforce
    have req: "harmless B req" "b_error req = None"
      using "1.prems"(6) reqs readRequest_no_error [OF Pair [unfolded Inr y]] by simp_all
    show ?thesis
    proof (cases res)
      case (Inl e)
      have "ordinary_end (Some e)"
        using respond_calm [OF "1.prems"(1-3) req(2) _ "1.prems"(5) req(1)] "1.prems"(4)
        by (auto simp: res Inl intro: ordinary_end.failed)
      then show ?thesis by (subst serve.simps) (simp add: Pair Inr y res \<open>res = Inl e\<close>)
    next
      case resp: (Inr resp)
      show ?thesis
      proof (cases "conn_write (writeResponse callID resp) (c\<lparr>io_in := r\<rparr>)")
        case None
        then show ?thesis
          by (subst serve.simps) (simp add: Pair Inr y res resp ordinary_end.writing)
      next
        case (Some c')
        show ?thesis
        proof (cases "b_call req = callFinalize")
          case True
          then show ?thesis using Some
            by (subst serve.simps) (simp add: Pair Inr y res resp ordinary_end.finalized)
        next
          case False
          have c': "io_in c' = r" using conn_write_input [OF Some] by simp
          have "ordinary_end (fst (serve env st' c'))"
          proof (rule "1.IH" [OF Pair [symmetric] Inr y [symmetric] res [symmetric] resp Some False])
            show "length (sessions (conn st')) + length (io_in c') < 2 ^ 64"
              using "1.prems"(4) respond_sessions(1) [OF res req(1)] shorter c' by simp
            show "salts_ok B (conn st')" using respond_sessions(2) [OF res req(1)] "1.prems"(5) by blast
            show "list_all (harmless B) (requests_in (io_in c'))"
              using "1.prems"(6) reqs c' by simp
          qed (use "1.prems" in blast)+
          then show ?thesis using Some False
            by (subst serve.simps) (simp add: Pair Inr y res resp)
        qed
      qed
    qed
  qed
qed

text \<open>
  C5: Whatever bytes a peer sends, \<^verbatim>\<open>Handle\<close> returns, without a panic or an endless loop: when the
  peer finalizes, when what it sends ends or is no request, when it cannot be written to,
  or when a handler fails with an error that is not a PKCS #11 code. The numbers that a client
  names and the code does not bound must be within what the machine can handle, the
  capacity \<open>B\<close>: the length of a derived key, the size of an RSA key and the length of a PSS salt.
  Of the code outside the repository it is assumed that it returns what it documents for
  numbers within the capacity, and nothing for others.
\<close>

theorem connections_end_ordinarily:
  assumes "env_calm B env" and "env_arithmetic env" and "B \<le> max_alloc" and "length (io_in c) < 2 ^ 64"
    and "list_all (harmless B) (requests_in (tl (io_in c)))"
  shows "ordinary_end (fst (Handle env w H c))"
proof (cases "negotiateProtocolVersion c")
  case (Pair r c')
  show ?thesis
  proof (cases r)
    case (Inl e)
    then have "e = ErrReadVersion \<or> e = ErrWriteVersion"
      using Pair by (auto simp: negotiateProtocolVersion_def split: option.splits prod.splits)
    then show ?thesis using Pair Inl by (simp add: Handle_def ordinary_end.negotiating)
  next
    case (Inr u)
    then have "io_in c' = tl (io_in c)" "io_in c \<noteq> []"
      using Pair by (auto simp: negotiateProtocolVersion_def buffer_byte_def
        drop_Suc dest!: conn_write_input split: list.splits option.splits prod.splits if_splits)
    moreover have "salts_ok B new_handler" by (simp add: salts_ok_def new_handler_def lookup_session_def)
    ultimately show ?thesis using Pair Inr assms
        serve_ends [OF assms(1-3), of "\<lparr>world = w, server = H, conn = new_handler\<rparr>" c']
      by (simp add: Handle_def new_handler_def split: unit.split)
  qed
qed

theorem connections_end_ordinarily_witness:
  "ordinary_end (fst (Handle calm_env 0 (server sample_state)
     \<lparr>io_in = 7 # frame 1 [] (find_init_request 1 []) @ [9, 9], io_out = [], writes_left = Some 1\<rparr>))"
proof -
  have f: "frame_ok [] (find_init_request 1 [])"
    "b_call (find_init_request 1 []) \<notin> {callDeriveKey, callGenerateKeyPair, callSignInit}"
    "length (7 # frame 1 [] (find_init_request 1 []) @ [9, 9]) < 2 ^ 64"
    by (simp_all add: find_init_request_def body_of_def frame_ok_def frame_def enc_attributes_def)
  have "fst (readRequest [9, 9]) = Inl ErrReadHeader" by code_simp
  then obtain r where "readRequest [9, 9] = (Inl ErrReadHeader, r)" by (metis prod.collapse)
  then have "requests_in [9, 9] = []" by (subst requests_in.simps) simp
  then have "\<exists>req. requests_in (frame 1 [] (find_init_request 1 []) @ [9, 9]) = [req] \<and>
      b_call req = b_call (find_init_request 1 [])"
    using readRequest_frame [OF f(1), of 1 "[9, 9]"] by (subst requests_in.simps) simp
  then have "list_all (harmless 4096) (requests_in (frame 1 [] (find_init_request 1 []) @ [9, 9]))"
    using f(2) by (auto simp: harmless_def)
  then show ?thesis
    using connections_end_ordinarily [OF calm_env_ok, of "\<lparr>io_in = 7 # frame 1 [] (find_init_request 1 []) @ [9, 9],
      io_out = [], writes_left = Some 1\<rparr>"] f(3) by simp
qed

end
