(* ===== verification/Client.thy ===== *)
theory Client
  imports Connection
begin

text \<open>
  The server as a client sees it: what it writes for a sequence of requests, how it ends on
  \<^verbatim>\<open>C_Finalize\<close>, and a client's whole session from opening it to a signature.
\<close>

section \<open>Sequences of requests\<close>

text \<open>What the server writes for a sequence of requests that are all answered.\<close>

fun answers :: "'w env \<Rightarrow> (uint32 \<times> bytes \<times> body) list \<Rightarrow> 'w state \<Rightarrow> bytes option \<times> 'w state" where
  "answers env [] st = (Some [], st)"
| "answers env ((callID, options, req) # rs) st =
     (case respond env req st of
        (Inl e, st) \<Rightarrow> (None, st)
      | (Inr resp, st) \<Rightarrow>
          (case answers env rs st of
             (None, st) \<Rightarrow> (None, st)
           | (Some out, st) \<Rightarrow> (Some (frame callID [] resp @ out), st)))"

fun request_frame :: "uint32 \<times> bytes \<times> body \<Rightarrow> bytes" where
  "request_frame (callID, options, req) = frame callID options req"

fun ordinary :: "uint32 \<times> bytes \<times> body \<Rightarrow> bool" where
  "ordinary (callID, options, req) \<longleftrightarrow>
     frame_ok options req \<and> b_error req = None \<and> b_call req \<noteq> callFinalize"

lemma serve_answers:
  assumes "answers env rs st = (Some out, st')" and "list_all ordinary rs"
    and "io_in c = concat (map request_frame rs) @ rest" and "writes_left c = None"
  shows "serve env st c = serve env st' (c\<lparr>io_in := rest, io_out := io_out c @ out\<rparr>)"
  using assms
proof (induction rs arbitrary: st out c)
  case Nil
  then show ?case by (cases c) auto
next
  case (Cons r rs)
  obtain callID options req where r: "r = (callID, options, req)" by (cases r) auto
  obtain resp st1 where resp: "respond env req st = (Inr resp, st1)"
    using Cons.prems(1) r by (auto split: prod.splits sum.splits option.splits)
  obtain out1 where out1: "answers env rs st1 = (Some out1, st')"
    "out = frame callID [] resp @ out1"
    using Cons.prems(1) r resp by (auto split: prod.splits option.splits)
  let ?rest = "concat (map request_frame rs) @ rest"
  let ?c = "c\<lparr>io_in := ?rest, io_out := io_out c @ frame callID [] resp\<rparr>"
  have "serve env st c = serve env st1 ?c"
    using serve_frame [of c callID options req ?rest env st] Cons.prems r resp
    by (simp add: conn_write_def)
  also have "\<dots> = serve env st' (?c\<lparr>io_in := rest, io_out := io_out ?c @ out1\<rparr>)"
    by (rule Cons.IH [OF out1(1)]) (use Cons.prems in simp_all)
  finally show ?case by (simp add: out1(2))
qed

text \<open>
  A client that finalizes: the version byte, the requests with their answers, \<^verbatim>\<open>C_Finalize\<close>.
\<close>

lemma Handle_finalize:
  assumes "answers env rs \<lparr>world = w, server = H, conn = new_handler\<rparr> = (Some out, st)"
    and "list_all ordinary rs" and "frame_ok options fin" and "b_error fin = None"
    and "b_call fin = callFinalize"
    and "io_in c = version # concat (map request_frame rs) @ frame callID options fin @ rest"
    and "io_out c = []" and "writes_left c = None"
  shows "Handle env w H c =
    (None, st, c\<lparr>io_in := rest, io_out := 0 # out @ frame callID [] fin\<rparr>)"
proof -
  let ?c = "\<lambda>b out. c\<lparr>io_in := b, io_out := out\<rparr>"
  let ?in = "concat (map request_frame rs) @ frame callID options fin @ rest"
  let ?st = "\<lparr>world = w, server = H, conn = new_handler\<rparr>"
  have "negotiateProtocolVersion c = (Inr (), ?c ?in [0])"
    using assms(6-8) by (simp add: negotiateProtocolVersion_def buffer_byte_def conn_write_def protocolVersion_def)
  then have "Handle env w H c = serve env ?st (?c ?in [0])"
    by (simp add: Handle_def split: unit.split)
  also have "\<dots> = serve env st (?c (frame callID options fin @ rest) (0 # out))"
    using serve_answers [OF assms(1,2), of "?c ?in [0]" "frame callID options fin @ rest"] assms(8) by simp
  also have "respond env fin st = (Inr fin, st)"
    using assms(5) by (simp add: respond_def run_handler_def handlers_def)
  then have "serve env st (?c (frame callID options fin @ rest) (0 # out)) =
      (None, st, ?c rest (0 # out @ frame callID [] fin))"
    using serve_frame [of "?c (frame callID options fin @ rest) (0 # out)" callID options fin rest env st]
      assms(3-5,8) by (simp add: conn_write_def)
  finally show ?thesis .
qed

section \<open>A session from opening to signature\<close>

text \<open>
  A client opens a session on slot \<open>i\<close>, searches for a key with a template, ends the search,
  begins a signature with the handle \<open>key\<close> it found and signs \<open>d\<close>.
\<close>

definition client_requests ::
  "uint64 \<Rightarrow> attribute list \<Rightarrow> uint32 \<Rightarrow> bytes \<Rightarrow> uint64 \<Rightarrow> bytes \<Rightarrow> (uint32 \<times> bytes \<times> body) list" where
  "client_requests i tmpl n e key d =
     [(1, [], open_request i 4), (2, [], find_init_request 1 tmpl), (3, [], find_request 1 n),
      (4, [], find_final_request 1), (5, [], sign_init_request 1 e key), (6, [], sign_request 1 d 256)]"

definition client_responses :: "uint64 \<Rightarrow> bytes option \<Rightarrow> (uint32 \<times> body) list" where
  "client_responses key sg =
     [(1, writeUlong (body_of callOpenSession [] []) 1), (2, body_of callFindObjectsInit [] []),
      (3, writeUlongArray (body_of callFindObjects [] []) (Some [key]) 1),
      (4, body_of callFindObjectsFinal [] []), (5, body_of callSignInit [] []),
      (6, write_signature (body_of callSign [] []) sg)]"

lemma session_calls:
  "map_of (handlers env) callOpenSession = Some (handleOpenSession env)"
  "map_of (handlers env) callFindObjectsInit = Some handleFindObjectsInit"
  "map_of (handlers env) callFindObjects = Some handleFindObjects"
  "map_of (handlers env) callFindObjectsFinal = Some handleFindObjectsFinal"
  "map_of (handlers env) callSignInit = Some handleSignInit"
  "map_of (handlers env) callSign = Some (handleSign env)"
  by (simp_all add: handlers_def)

lemma request_calls:
  "b_call (open_request i f) = callOpenSession" "b_call (find_init_request i t) = callFindObjectsInit"
  "b_call (find_request i n) = callFindObjects" "b_call (find_final_request i) = callFindObjectsFinal"
  "b_call (sign_init_request i e k) = callSignInit" "b_call (sign_request i d n) = callSign"
  by (simp_all add: open_request_def find_init_request_def find_request_def find_final_request_def
      sign_init_request_def sign_request_def body_of_fields)

lemma respond_calls:
  "handleOpenSession env (open_request i f) st = (Inr resp, st') \<Longrightarrow>
    respond env (open_request i f) st = (Inr resp, st')"
  "handleFindObjectsInit (find_init_request i t) st = (Inr resp, st') \<Longrightarrow>
    respond env (find_init_request i t) st = (Inr resp, st')"
  "handleFindObjects (find_request i n) st = (Inr resp, st') \<Longrightarrow>
    respond env (find_request i n) st = (Inr resp, st')"
  "handleFindObjectsFinal (find_final_request i) st = (Inr resp, st') \<Longrightarrow>
    respond env (find_final_request i) st = (Inr resp, st')"
  "handleSignInit (sign_init_request i e k) st = (Inr resp, st') \<Longrightarrow>
    respond env (sign_init_request i e k) st = (Inr resp, st')"
  "handleSign env (sign_request i d n) st = (Inr resp, st') \<Longrightarrow>
    respond env (sign_request i d n) st = (Inr resp, st')"
  by (simp_all add: respond_def run_handler_def request_calls session_calls)

lemma opened_session:
  assumes "slot_index (Slots H) i = Some k" and "GetObjects (Slots H ! k) = None"
  shows "\<exists>h. handleOpenSession env (open_request i 4) \<lparr>world = w, server = H, conn = new_handler\<rparr> =
      (Inr (writeUlong (body_of callOpenSession [] []) 1), \<lparr>world = w, server = H, conn = h\<rparr>) \<and>
    lookup_session h 1 = Some (fresh_session i (Objects (Slots H ! k)))"
proof -
  have "next_free ([] :: (uint64 \<times> session) list) 1 = Some 1" by (subst next_free.simps) simp
  then obtain h where add: "add_session (fresh_session i (Objects (Slots H ! k))) new_handler = Some (1, h)"
    by (simp add: add_session_def new_handler_def)
  then have "lookup_session h 1 = Some (fresh_session i (Objects (Slots H ! k)))"
    by (simp add: sess.add_map [OF add])
  then show ?thesis using assms add
    by (simp add: handleOpenSession_request newSession_def handler_slot_def slot_objects_def act_bind_def Let_def)
qed

lemma client_session_answers:
  assumes "slot_index (Slots H) i = Some k" and "GetObjects (Slots H ! k) = None"
    and "filter (\<lambda>obj. \<forall>a \<in> set tmpl. matches obj a) (Objects (Slots H ! k)) = [obj]"
    and "object_in (Objects (Slots H ! k)) (obj_id obj) = Some obj"
    and "supports obj m = Inr ()" and "mech_bytes m e" and "sendable tmpl" and "0 < n"
    and "length d < 0xffffffff" and "sign env obj m d w = (Inr sg, w')"
  shows "\<exists>h. answers env (client_requests i tmpl n e (obj_id obj) d)
      \<lparr>world = w, server = H, conn = new_handler\<rparr> =
    (Some (concat (map (\<lambda>(callID, resp). frame callID [] resp) (client_responses (obj_id obj) sg))),
     \<lparr>world = w', server = H, conn = h\<rparr>)"
proof -
  let ?s = "fresh_session i (Objects (Slots H ! k))"
  let ?st = "\<lambda>w h. \<lparr>world = w, server = H, conn = h\<rparr>"
  let ?put = "\<lambda>s h. update_session 1 s h"
  obtain h where o: "handleOpenSession env (open_request i 4) (?st w new_handler) =
      (Inr (writeUlong (body_of callOpenSession [] []) 1), ?st w h)"
    and h: "lookup_session h 1 = Some ?s"
    using opened_session [OF assms(1,2), of env w] by blast
  let ?h1 = "?put (?s\<lparr>findMatches := [obj_id obj]\<rparr>) h"
  have 1: "handleFindObjectsInit (find_init_request 1 tmpl) (?st w h) =
      (Inr (body_of callFindObjectsInit [] []), ?st w ?h1)"
    using assms(3,7) h
    by (simp add: handleFindObjectsInit_request act_bind_def get_session_def handler_session_lookup
        put_session_def session_find_def find_in_filter fresh_session_def)
  have l1: "lookup_session ?h1 1 = Some (?s\<lparr>findMatches := [obj_id obj]\<rparr>)" by (simp add: sess.put_map)
  let ?h2 = "?put (?s\<lparr>findMatches := []\<rparr>) ?h1"
  have "Suc 0 \<le> unat n" using assms(8) by (simp add: word_less_nat_alt)
  then have 2: "handleFindObjects (find_request 1 n) (?st w ?h1) =
      (Inr (writeUlongArray (body_of callFindObjects [] []) (Some [obj_id obj]) 1), ?st w ?h2)"
    using l1 by (simp add: handleFindObjects_request act_bind_def get_session_def handler_session_lookup
        put_session_def session_findNext_def)
  have l2: "lookup_session ?h2 1 = Some (?s\<lparr>findMatches := []\<rparr>)" by (simp add: sess.put_map)
  have 3: "handleFindObjectsFinal (find_final_request 1) (?st w ?h2) =
      (Inr (body_of callFindObjectsFinal [] []), ?st w ?h2)"
    by (simp add: handleFindObjectsFinal_request)
  let ?s3 = "?s\<lparr>findMatches := [], signMechanism := m, signObject := obj\<rparr>"
  let ?h3 = "?put ?s3 ?h2"
  have 4: "handleSignInit (sign_init_request 1 e (obj_id obj)) (?st w ?h2) =
      (Inr (body_of callSignInit [] []), ?st w ?h3)"
    using l2 assms(4-6) by (simp add: handleSignInit_request act_bind_def get_session_def
        handler_session_lookup put_session_def session_object_def fresh_session_def)
  have l3: "lookup_session ?h3 1 = Some ?s3" by (simp add: sess.put_map)
  have 5: "handleSign env (sign_request 1 d 256) (?st w ?h3) =
      (Inr (write_signature (body_of callSign [] []) sg), ?st w' ?h3)"
    using l3 assms(9,10) by (simp add: handleSign_request act_bind_def get_session_def
        handler_session_lookup on_world_def)
  note respond_calls(1) [OF o] respond_calls(2) [OF 1] respond_calls(3) [OF 2] respond_calls(4) [OF 3]
    respond_calls(5) [OF 4] respond_calls(6) [OF 5]
  then show ?thesis by (simp add: client_requests_def client_responses_def)
qed

lemma client_requests_ordinary:
  assumes "length (enc_attributes tmpl) < 2 ^ 31" and "length e < 2 ^ 31" and "length d < 2 ^ 31"
  shows "list_all ordinary (client_requests i tmpl n e key d)"
proof -
  have "length (enc_data d) \<le> 5 + length d"
    by (simp add: enc_data_def enc_content_def addByteArray_def addUint32_def addByte_def)
  then show ?thesis using assms
    by (simp add: client_requests_def frame_ok_def open_request_def find_init_request_def find_request_def
        find_final_request_def sign_init_request_def sign_request_def body_of_fields)
qed

text \<open>
  C14: A client that opens a session, searches with a template that one object of the slot matches,
  and signs with the handle it was given, gets the signature of its data by that key under the
  mechanism it named, if the key supports it: \<^verbatim>\<open>Handle\<close> answers version, session handle, key
  handle and signature, each in its frame, ends without an error, and leaves the slots as
  they were.
\<close>

theorem client_signs_with_found_key:
  assumes "slot_index (Slots H) i = Some k" and "GetObjects (Slots H ! k) = None"
    and "filter (\<lambda>obj. \<forall>a \<in> set tmpl. matches obj a) (Objects (Slots H ! k)) = [obj]"
    and "object_in (Objects (Slots H ! k)) (obj_id obj) = Some obj"
    and "supports obj m = Inr ()" and "mech_bytes m e" and "sendable tmpl" and "0 < n"
    and "sign env obj m d w = (Inr sg, w')"
    and "length (enc_attributes tmpl) < 2 ^ 31" and "length e < 2 ^ 31" and "length d < 2 ^ 31"
    and "io_in c = version # concat (map request_frame (client_requests i tmpl n e (obj_id obj) d)) @
      frame 7 [] (body_of callFinalize [] []) @ rest"
    and "io_out c = []" and "writes_left c = None"
  shows "\<exists>h. Handle env w H c = (None, \<lparr>world = w', server = H, conn = h\<rparr>,
    c\<lparr>io_in := rest, io_out := 0 #
      concat (map (\<lambda>(callID, resp). frame callID [] resp) (client_responses (obj_id obj) sg)) @
      frame 7 [] (body_of callFinalize [] [])\<rparr>)"
proof -
  have "length d < 0xffffffff" using assms(12) by simp
  from client_session_answers [OF assms(1-8) this assms(9)]
  obtain h where a: "answers env (client_requests i tmpl n e (obj_id obj) d)
      \<lparr>world = w, server = H, conn = new_handler\<rparr> =
    (Some (concat (map (\<lambda>(callID, resp). frame callID [] resp) (client_responses (obj_id obj) sg))),
     \<lparr>world = w', server = H, conn = h\<rparr>)" by blast
  have "Handle env w H c = (None, \<lparr>world = w', server = H, conn = h\<rparr>,
    c\<lparr>io_in := rest, io_out := 0 #
      concat (map (\<lambda>(callID, resp). frame callID [] resp) (client_responses (obj_id obj) sg)) @
      frame 7 [] (body_of callFinalize [] [])\<rparr>)"
    by (rule Handle_finalize [OF a client_requests_ordinary [OF assms(10-12)] _ _ _ assms(13-15)])
      (simp_all add: frame_ok_def body_of_fields)
  then show ?thesis by blast
qed

text \<open>A slot with one RSA key, and a client that sends no template and signs one byte.\<close>

abbreviation rsa_key :: object where
  "rsa_key \<equiv> SetID (signObject rsa_session) 9"

definition rsa_handler :: Handler where
  "rsa_handler = (server sample_state)\<lparr>Slots := [sample_slot\<lparr>Objects := [rsa_key]\<rparr>]\<rparr>"

definition rsa_client :: connection where
  "rsa_client = \<lparr>io_in = 0 # concat (map request_frame (client_requests 1 [] 1
       (enc_mechanism_params (signMechanism rsa_session)) 9 [7])) @ frame 7 [] (body_of callFinalize [] []) @ [],
     io_out = [], writes_left = None\<rparr>"

theorem client_signs_with_found_key_witness:
  "\<exists>h. Handle sample_env 0 rsa_handler rsa_client =
    (None, \<lparr>world = 0, server = rsa_handler, conn = h\<rparr>, rsa_client\<lparr>io_in := [], io_out := 0 #
      concat (map (\<lambda>(callID, resp). frame callID [] resp) (client_responses 9 (Some (marshalSig 5 6)))) @
      frame 7 [] (body_of callFinalize [] [])\<rparr>)"
proof -
  have id: "obj_id rsa_key = 9" by (simp add: SetID_def)
  have m: "mech_bytes (signMechanism rsa_session) (enc_mechanism_params (signMechanism rsa_session))"
    by (rule mech_bytes_params)
      (simp add: rsa_session_def params_match_def mechanismHasNoParameters_def)
  have e: "length (enc_mechanism_params (signMechanism rsa_session)) < 2 ^ 31"
    by (simp add: rsa_session_def enc_mechanism_params_def enc_params_def)
  have "sign sample_env rsa_key (signMechanism rsa_session) [7] 0 = (Inr (Some (marshalSig 5 6)), 0)"
    by (simp add: sign_def rsa_session_def SetID_def signRSAPKCSPSS_def pss_hash_def)
      (simp add: sample_env_def)
  moreover have "slot_index (Slots rsa_handler) 1 = Some 0" "GetObjects (Slots rsa_handler ! 0) = None"
    "filter (\<lambda>obj. \<forall>a \<in> set []. matches obj a) (Objects (Slots rsa_handler ! 0)) = [rsa_key]"
    "object_in (Objects (Slots rsa_handler ! 0)) (obj_id rsa_key) = Some rsa_key"
    "supports rsa_key (signMechanism rsa_session) = Inr ()"
    by (simp_all add: rsa_handler_def sample_slot_def SetID_def supports_def rsa_session_def)
  ultimately show ?thesis
    using client_signs_with_found_key [of rsa_handler 1 0 "[]" rsa_key "signMechanism rsa_session"
      "enc_mechanism_params (signMechanism rsa_session)" 1 sample_env "[7]" 0 "Some (marshalSig 5 6)" 0
      rsa_client 0 "[]"] m e
    by (simp add: id sendable_def rsa_client_def enc_attributes_def)
qed

end
