(* ===== verification/Responses.thy ===== *)
theory Responses
  imports Robustness
begin

text \<open>
  The types of responses. A body carries a signature, a string that says which fields its
  bytes hold; the client checks it against the one of the call. Every response of the server
  has the signature of its call, and its bytes are exactly such fields.
\<close>

section \<open>Bodies that match their signature\<close>

text \<open>The rest of the bytes after the fields of a signature.\<close>

definition after :: "'a reader \<Rightarrow> bytes \<Rightarrow> bytes option" where
  "after rd b = (case rd b of (Some _, b') \<Rightarrow> Some b' | (None, _) \<Rightarrow> None)"

definition read_string :: "bytes reader" where
  "read_string = rd_bind buffer_uint32 (\<lambda>n b.
     if length b < unat n then (None, b) else (Some (take (unat n) b), drop (unat n) b))"

definition read_version :: "Version reader" where
  "read_version = rd_bind buffer_byte (\<lambda>x. rd_bind buffer_byte (\<lambda>y. rd_return \<lparr>Major = x, Minor = y\<rparr>))"

definition read_ulongs :: "(uint64 list option \<times> uint32) reader" where
  "read_ulongs = rd_bind buffer_byte (\<lambda>hasContent. rd_bind buffer_uint32 (\<lambda>n.
     if hasContent = 0 then rd_return (None, n)
     else rd_bind (rd_repeat (unat n) buffer_uint64) (\<lambda>v. rd_return (Some v, n))))"

definition read_attributes :: "attribute list reader" where
  "read_attributes = rd_bind buffer_uint32 (\<lambda>length. rd_repeat (unat length) buffer_attribute)"

definition field_after :: "char \<Rightarrow> bytes \<Rightarrow> bytes option" where
  "field_after c =
     (if c = CHR ''u'' then after buffer_uint64
      else if c = CHR ''s'' then after read_string
      else if c = CHR ''v'' then after read_version
      else (\<lambda>_. None))"

definition array_after :: "char \<Rightarrow> bytes \<Rightarrow> bytes option" where
  "array_after c =
     (if c = CHR ''u'' then after read_ulongs
      else if c = CHR ''y'' then after buffer_content
      else if c = CHR ''A'' then after read_attributes
      else (\<lambda>_. None))"

fun parse_fields :: "string \<Rightarrow> bytes \<Rightarrow> bytes option" where
  "parse_fields [] b = Some b"
| "parse_fields (c # s) b =
     (if c = CHR ''a''
      then (case s of [] \<Rightarrow> None | d # s \<Rightarrow> Option.bind (array_after d b) (parse_fields s))
      else Option.bind (field_after c b) (parse_fields s))"

definition fits :: "string \<Rightarrow> bytes \<Rightarrow> bool" where
  "fits s b \<longleftrightarrow> (\<forall>rest. parse_fields s (b @ rest) = Some rest)"

declare parse_fields.simps(2) [simp del]

lemma parse_array [simp]:
  "parse_fields (CHR ''a'' # d # s) b = Option.bind (array_after d b) (parse_fields s)"
  by (simp add: parse_fields.simps(2))

lemma parse_field [simp]:
  "c \<noteq> CHR ''a'' \<Longrightarrow> parse_fields (c # s) b = Option.bind (field_after c b) (parse_fields s)"
  by (simp add: parse_fields.simps(2))

lemma parse_fields_append: "parse_fields s b = Some b' \<Longrightarrow> parse_fields (s @ t) b = parse_fields t b'"
proof (induction s b rule: parse_fields.induct)
  case (2 c s b)
  show ?case
  proof (cases "c = CHR ''a''")
    case True
    then obtain d s' where s: "s = d # s'"
      using "2.prems" by (cases s) (simp_all add: parse_fields.simps(2))
    then obtain b1 where "array_after d b = Some b1" "parse_fields s' b1 = Some b'"
      using "2.prems" True by (auto simp: bind_eq_Some_conv)
    then show ?thesis using "2.IH"(1) [OF True s] True s by simp
  next
    case False
    then obtain b1 where "field_after c b = Some b1" "parse_fields s b1 = Some b'"
      using "2.prems" by (auto simp: bind_eq_Some_conv)
    then show ?thesis using "2.IH"(2) [OF False] False by simp
  qed
qed simp

lemma fits_Nil [simp]: "fits [] []"
  by (simp add: fits_def)

lemma fits_append: "fits s b \<Longrightarrow> fits t c \<Longrightarrow> fits (s @ t) (b @ c)"
  unfolding fits_def by (metis append.assoc parse_fields_append)

lemma afterI: "rd (b @ rest) = (Some x, rest) \<Longrightarrow> after rd (b @ rest) = Some rest"
  by (simp add: after_def)

lemma fits_fields:
  "fits ''u'' (addUint64 [] n)" "fits ''s'' (enc_string c)" "fits ''v'' (enc_version v)"
  by (simp_all add: fits_def field_after_def after_def addUint64_def read_string_def read_version_def
      enc_string_def enc_version_def addUint32_def codec_simps rd_bind_def rd_return_def min_def)

lemma fits_arrays:
  "case fst u of None \<Rightarrow> True | Some xs \<Rightarrow> length xs < 2 ^ 32 \<Longrightarrow> fits ''au'' (enc_ulongs u)"
  "case fst c of None \<Rightarrow> True | Some v \<Rightarrow> length v < 0xffffffff \<and> snd c = 0 \<Longrightarrow>
     fits ''ay'' (enc_content c)"
  "length as < 0x100000000 \<Longrightarrow> \<forall>a \<in> set as. wire_attribute a \<Longrightarrow> fits ''aA'' (enc_attributes as)"
  subgoal
  proof -
    assume u: "case fst u of None \<Rightarrow> True | Some xs \<Rightarrow> length xs < 2 ^ 32"
    have "\<exists>x. read_ulongs (enc_ulongs u @ rest) = (Some x, rest)" for rest
    proof (cases "fst u")
      case None
      then show ?thesis by (simp add: read_ulongs_def enc_ulongs_def addByte_def addUint32_def codec_simps)
    next
      case (Some xs)
      then have "unat (of_nat (length xs) :: uint32) = length xs"
        using u by (simp add: unat_of_nat take_bit_nat_eq_self_iff)
      then show ?thesis using Some uint64_codec.repeat_dec_enc [of xs]
        by (simp add: read_ulongs_def enc_ulongs_def addByte_def addUint32_def codec_simps)
    qed
    then have "after read_ulongs (enc_ulongs u @ rest) = Some rest" for rest
      using afterI by metis
    then show ?thesis by (simp add: fits_def array_after_def)
  qed
  subgoal
    using content_pair.dec_enc by (simp add: fits_def array_after_def after_def)
  subgoal
    using attributes_pair.dec_enc by (simp add: fits_def array_after_def after_def read_attributes_def)
  done

section \<open>Typed responses\<close>

definition typed_response :: "call \<Rightarrow> string \<Rightarrow> body \<Rightarrow> bool" where
  "typed_response c s r \<longleftrightarrow> b_call r = c \<and> b_error r = None \<and> signature r = s \<and> fits s (b_buffer r)"

named_theorems typed_intros "responses that are typed"

lemma typed_new [typed_intros]: "b_call req = c \<Longrightarrow> typed_response c [] (newResponse req)"
  by (simp add: typed_response_def newResponse_def)

lemma typed_new_iff [simp]: "typed_response c [] (newResponse req) \<longleftrightarrow> b_call req = c"
  by (auto simp: typed_response_def newResponse_def)

lemma typed_write:
  assumes "field_writer wr sg enc" and "typed_response c s r" and "fits sg (enc x)"
  shows "typed_response c (s @ sg) (wr r x)"
  using assms(2,3) field_writer.appends [OF assms(1)]
  by (auto simp: typed_response_def intro: fits_append)

lemma typed_writers:
  "typed_response c s r \<Longrightarrow> typed_response c (s @ ''u'') (writeUlong r n)"
  "typed_response c s r \<Longrightarrow> typed_response c (s @ ''s'') (writeString r l k)"
  "typed_response c s r \<Longrightarrow> typed_response c (s @ ''v'') (writeVersion r v)"
  "typed_response c s r \<Longrightarrow> typed_response c (s @ ''au'') (writeUlongArray r None k)"
  "typed_response c s r \<Longrightarrow> length xs < 2 ^ 32 \<Longrightarrow> typed_response c (s @ ''au'') (writeUlongArray r (Some xs) k)"
  "typed_response c s r \<Longrightarrow> length as < 0x100000000 \<Longrightarrow> \<forall>a \<in> set as. wire_attribute a \<Longrightarrow>
     typed_response c (s @ ''aA'') (writeAttributeArray r as)"
proof -
  show "typed_response c s r \<Longrightarrow> typed_response c (s @ ''u'') (writeUlong r n)"
    by (rule typed_write [OF ulong_pair.field_writer_axioms _ fits_fields(1)])
  show "typed_response c s r \<Longrightarrow> typed_response c (s @ ''s'') (writeString r l k)"
    using typed_write [OF string_writer.field_writer_axioms _ fits_fields(2), of c s r "(l, k)"] by simp
  show "typed_response c s r \<Longrightarrow> typed_response c (s @ ''v'') (writeVersion r v)"
    by (rule typed_write [OF version_writer.field_writer_axioms _ fits_fields(3)])
  show "typed_response c s r \<Longrightarrow> typed_response c (s @ ''au'') (writeUlongArray r None k)"
    using typed_write [OF ulongs_writer.field_writer_axioms _ fits_arrays(1), of c s r "(None, k)"] by simp
  show "typed_response c s r \<Longrightarrow> length xs < 2 ^ 32 \<Longrightarrow> typed_response c (s @ ''au'') (writeUlongArray r (Some xs) k)"
    using typed_write [OF ulongs_writer.field_writer_axioms _ fits_arrays(1), of c s r "(Some xs, k)"] by simp
  show "typed_response c s r \<Longrightarrow> length as < 0x100000000 \<Longrightarrow> \<forall>a \<in> set as. wire_attribute a \<Longrightarrow>
     typed_response c (s @ ''aA'') (writeAttributeArray r as)"
    using typed_write [OF attributes_pair.field_writer_axioms _ fits_arrays(3)] by blast
qed

lemma typed_signature:
  assumes "typed_response c s r" and "case sg of None \<Rightarrow> True | Some v \<Rightarrow> length v < 0xffffffff"
  shows "typed_response c (s @ ''ay'') (write_signature r sg)"
proof -
  have "write_signature r sg = (\<lambda>b c. writeByteArray b (fst c) (snd c)) r (sg, if sg = None then of_nat (length (slice sg)) else 0)"
    by (cases sg) (simp_all add: write_signature_def writeByteArray_def)
  also have "typed_response c (s @ ''ay'') \<dots>"
    by (rule typed_write [OF content_pair.field_writer_axioms assms(1) fits_arrays(2)])
      (use assms(2) in \<open>auto split: option.splits\<close>)
  finally show ?thesis by simp
qed

text \<open>With the signature as an equation, so that the rules apply to any form of it.\<close>

lemma typed_writers_eq [typed_intros]:
  "typed_response c s r \<Longrightarrow> s' = s @ ''u'' \<Longrightarrow> typed_response c s' (writeUlong r n)"
  "typed_response c s r \<Longrightarrow> s' = s @ ''s'' \<Longrightarrow> typed_response c s' (writeString r l k)"
  "typed_response c s r \<Longrightarrow> s' = s @ ''v'' \<Longrightarrow> typed_response c s' (writeVersion r v)"
  "typed_response c s r \<Longrightarrow> s' = s @ ''au'' \<Longrightarrow> typed_response c s' (writeUlongArray r None k)"
  "typed_response c s r \<Longrightarrow> s' = s @ ''au'' \<Longrightarrow> length xs < 2 ^ 32 \<Longrightarrow>
     typed_response c s' (writeUlongArray r (Some xs) k)"
  "typed_response c s r \<Longrightarrow> s' = s @ ''aA'' \<Longrightarrow> length as < 0x100000000 \<Longrightarrow>
     \<forall>a \<in> set as. wire_attribute a \<Longrightarrow> typed_response c s' (writeAttributeArray r as)"
  "typed_response c s r \<Longrightarrow> s' = s @ ''ay'' \<Longrightarrow>
     case sg of None \<Rightarrow> True | Some v \<Rightarrow> length v < 0xffffffff \<Longrightarrow>
     typed_response c s' (write_signature r sg)"
  by (simp_all add: typed_writers typed_signature)

definition yields :: "('a \<Rightarrow> bool) \<Rightarrow> ('s, 'a) act \<Rightarrow> 's \<Rightarrow> bool" where
  "yields P m st \<longleftrightarrow> (\<forall>x st'. m st = (Inr x, st') \<longrightarrow> P x)"

named_theorems yields_intros "actions whose results have a property"

lemma yields_return [yields_intros]: "P x \<Longrightarrow> yields P (act_return x) st"
  by (simp add: yields_def)

lemma yields_fail [yields_intros]: "yields P (act_fail e) st"
  by (simp add: yields_def)

lemma yields_state [yields_intros]: "P (f st) \<Longrightarrow> yields P (\<lambda>st. (Inr (f st), st)) st"
  by (simp add: yields_def)

lemma yields_bind [yields_intros]:
  "(\<And>x t. m st = (Inr x, t) \<Longrightarrow> yields P (f x) t) \<Longrightarrow> yields P (act_bind m f) st"
  by (auto simp: yields_def act_bind_def split: prod.splits sum.splits)

lemma yields_checked [yields_intros]: "yields P m st \<Longrightarrow> yields P (checked req m) st"
  by (simp add: yields_def checked_def split: option.split)

lemma yields_if [yields_intros]:
  "(b \<Longrightarrow> yields P m st) \<Longrightarrow> (\<not> b \<Longrightarrow> yields P n st) \<Longrightarrow> yields P (if b then m else n) st"
  by simp

lemmas keeps_call [simp] = ulong_field.keeps_call byte_field.keeps_call byteArray_field.keeps_call
  zeroString_field.keeps_call ulongBuffer_field.keeps_call byteBuffer_field.keeps_call
  mechanism_field.keeps_call attributeArray_field.keeps_call attributeBuffer_field.keeps_call

section \<open>The handlers\<close>

lemma simple_responses:
  "yields (typed_response (b_call req) []) (handleInitialize req) st"
  "yields (typed_response (b_call req) ''vsusv'') (handleGetInfo req) st"
  "yields (typed_response (b_call req) ''ssssuuuuuuuuuuuvvs'') (handleGetTokenInfo req) st"
  "yields (typed_response (b_call req) ''ssuvv'') (handleGetSlotInfo req) st"
  "yields (typed_response (b_call req) ''uuu'') (handleGetMechanismInfo env req) st"
  "yields (typed_response (b_call req) []) (handleInitToken req) st"
  "yields (typed_response (b_call req) []) (handleGenerateRandom req) st"
  "yields (typed_response (b_call req) []) (handleSeedRandom req) st"
  "yields (typed_response (b_call req) ''u'') (handleOpenSession env req) st"
  "yields (typed_response (b_call req) []) (handleCloseSession req) st"
  "yields (typed_response (b_call req) []) (handleLogin req) st"
  "yields (typed_response (b_call req) []) (handleLogout req) st"
  "yields (typed_response (b_call req) ''uuuu'') (handleGetSessionInfo req) st"
  "yields (typed_response (b_call req) []) (handleFindObjectsInit req) st"
  "yields (typed_response (b_call req) []) (handleFindObjectsFinal req) st"
  "yields (typed_response (b_call req) []) (handleSignInit req) st"
  "yields (typed_response (b_call req) []) (handleSignUpdate req) st"
  "yields (typed_response (b_call req) ''uu'') (handleGenerateKeyPair env req) st"
  "yields (typed_response (b_call req) ''u'') (handleDeriveKey env req) st"
  unfolding handleInitialize_def handleGetInfo_def handleGetTokenInfo_def handleGetSlotInfo_def
    handleGetMechanismInfo_def handleInitToken_def handleGenerateRandom_def handleSeedRandom_def
    handleOpenSession_def handleCloseSession_def handleLogin_def handleLogout_def
    handleGetSessionInfo_def handleFindObjectsInit_def handleFindObjectsFinal_def
    handleSignInit_def handleSignUpdate_def handleGenerateKeyPair_def handleDeriveKey_def
    token_info_def handler_unfold
  by (rule yields_intros typed_intros refl | simp)+

text \<open>
  What is needed for the arrays: lists of mechanisms, and signatures of the sessions' keys,
  below 2 to the 32, and session objects whose attributes can be written.
\<close>

definition small_lists :: "'w env \<Rightarrow> 'w state \<Rightarrow> bool" where
  "small_lists env st \<longleftrightarrow>
     (\<forall>s \<in> set (Slots (server st)). length (slot_mechanisms s) < 2 ^ 32) \<and>
     (\<forall>i s d w sg w'. lookup_session (conn st) i = Some s \<longrightarrow>
        sign env (signObject s) (signMechanism s) d w = (Inr (Some sg), w') \<longrightarrow> length sg < 0xffffffff) \<and>
     (\<forall>i s obj. lookup_session (conn st) i = Some s \<longrightarrow> obj \<in> set (s_objects s) \<longrightarrow>
        (\<forall>a \<in> set (obj_attributes obj). wire_attribute a))"

lemma unat_uint32: "unat (n :: uint32) < 2 ^ 32"
  using unsigned_less [of n] by simp

lemma readAttributeBuffer_count: "length (fst (readAttributeBuffer b)) < 0x100000000"
proof -
  have "length xs < 0x100000000" if "rd_repeat (unat n) buffer_attributeTemplate b = (Some xs, b')"
    for n :: uint32 and xs b b'
    using rd_repeat_length [OF that] unat_uint32 [of n] by simp
  then show ?thesis
    by (auto simp: readAttributeBuffer_def decode_def sig_def elim!: rd_bind_SomeD
        split: prod.splits option.splits)
qed

lemma findNext_count: "length (fst (session_findNext s (unat (n :: uint32)))) < 2 ^ 32"
  using unat_uint32 [of n] by (simp add: session_findNext_def Let_def)

lemma object_in_set: "object_in objs i = Some obj \<Longrightarrow> obj \<in> set objs"
  by (induction objs) (auto split: if_splits)

lemma attributeValue_wire:
  assumes "session_attributeValue s i ts = Inr (as, v)"
    and "\<forall>obj \<in> set (s_objects s). \<forall>a \<in> set (obj_attributes obj). wire_attribute a"
  shows "length as = length ts \<and> (\<forall>a \<in> set as. wire_attribute a)"
proof -
  obtain obj where obj: "object_in (s_objects s) i = Some obj"
    "as = map (\<lambda>t. case obj_attributeValue obj (t_typ t) of
       None \<Rightarrow> empty_attribute (t_typ t) | Some a \<Rightarrow> a) ts"
    using assms(1) by (auto simp: session_attributeValue_def session_object_def template_values_map
        split: option.splits sum.splits)
  have "wire_attribute (empty_attribute t)" for t
    by (simp add: wire_attribute_def typed_attribute_def) (simp add: attribute_defs)
  then show ?thesis
    using obj assms(2) object_in_set [OF obj(1)]
    by (auto simp: obj_attributeValue_def dest: find_attribute_SomeD split: option.split)
qed

lemma array_responses:
  assumes "small_lists env st"
  shows "yields (typed_response (b_call req) ''au'') (handleGetSlotList req) st"
    and "yields (typed_response (b_call req) ''au'') (handleGetMechanismList req) st"
    and "yields (typed_response (b_call req) ''au'') (handleFindObjects req) st"
    and "yields (typed_response (b_call req) ''aAu'') (handleGetAttributeValue req) st"
    and "yields (typed_response (b_call req) ''ay'') (handleSign env req) st"
    and "yields (typed_response (b_call req) ''ay'') (handleSignFinal env req) st"
proof -
  note u = handler_unfold
  have slot: "s \<in> set (Slots (server st))" if "get_slot i st = (Inr s, t)" for i s t
    using that slot_index_Some by (fastforce simp: get_slot_def handler_slot_def split: option.splits)
  have sess: "lookup_session (conn st) i = Some s" if "get_session i st = (Inr s, t)" for i s t
    using get_sessionD [OF that] by simp
  have sg: "case sg of None \<Rightarrow> True | Some v \<Rightarrow> length v < 0xffffffff"
    if l: "get_session i st = (Inr s, t0)"
      and g: "on_world (sign env (signObject s) (signMechanism s) d) t = (Inr sg, t')"
    for i s t0 d t sg t'
  proof (cases sg)
    case (Some v)
    then obtain w' where "sign env (signObject s) (signMechanism s) d (world t) = (Inr (Some v), w')"
      using g by (cases "sign env (signObject s) (signMechanism s) d (world t)") (auto simp: on_world_def)
    then have "length v < 0xffffffff" using assms sess [OF l] unfolding small_lists_def by blast
    then show ?thesis using Some by simp
  qed simp
  show "yields (typed_response (b_call req) ''au'') (handleGetSlotList req) st"
  proof -
    have "length (Slots (server st)) < 2 ^ 32" if "\<not> unat n < length (Slots (server st))" for n :: uint32
      using that unat_uint32 [of n] by simp
    then show ?thesis
      unfolding handleGetSlotList_def u
      by (intro yields_checked) (auto simp: yields_def intro!: typed_intros)
  qed
  show "yields (typed_response (b_call req) ''au'') (handleGetMechanismList req) st"
    unfolding handleGetMechanismList_def u
    by (intro yields_checked yields_bind yields_if yields_return yields_fail typed_intros)
      (use assms slot in \<open>auto simp: small_lists_def\<close>)
  show "yields (typed_response (b_call req) ''au'') (handleFindObjects req) st"
    unfolding handleFindObjects_def u
    by (rule yields_intros typed_intros refl findNext_count | simp)+
  show "yields (typed_response (b_call req) ''aAu'') (handleGetAttributeValue req) st"
  proof -
    have "length (fst r) < 0x100000000 \<and> (\<forall>a \<in> set (fst r). wire_attribute a)"
      if "get_session i st = (Inr s, t)"
        "act_lift (session_attributeValue s k (fst (readAttributeBuffer b))) t = (Inr r, t')"
      for i s t k b r t'
      using attributeValue_wire [of s k "fst (readAttributeBuffer b)" "fst r" "snd r"] sess [OF that(1)]
        that(2) assms readAttributeBuffer_count [of b] unfolding small_lists_def by auto
    then show ?thesis
      unfolding handleGetAttributeValue_def u yields_def
      by (auto simp: act_bind_def checked_def split: prod.splits sum.splits option.splits
          intro!: typed_intros)
  qed
  show "yields (typed_response (b_call req) ''ay'') (handleSign env req) st"
    "yields (typed_response (b_call req) ''ay'') (handleSignFinal env req) st"
    unfolding handleSign_def handleSignFinal_def u
    by (rule yields_checked yields_bind yields_return typed_intros sg refl | assumption | simp)+
qed

section \<open>The server\<close>

text \<open>The signature of each call's response, as the client of p11-kit expects it.\<close>

definition response_signatures :: "(call \<times> string) list" where
  "response_signatures =
    [(callInitialize, []), (callGetInfo, ''vsusv''), (callGetSlotList, ''au''),
     (callGetTokenInfo, ''ssssuuuuuuuuuuuvvs''), (callGetSlotInfo, ''ssuvv''),
     (callGetMechanismList, ''au''), (callGetMechanismInfo, ''uuu''), (callInitToken, []),
     (callGenerateRandom, []), (callSeedRandom, []), (callOpenSession, ''u''),
     (callCloseSession, []), (callLogin, []), (callLogout, []), (callFindObjectsInit, []),
     (callFindObjects, ''au''), (callFindObjectsFinal, []), (callGetAttributeValue, ''aAu''),
     (callSignInit, []), (callSign, ''ay''), (callSignUpdate, []), (callSignFinal, ''ay''),
     (callGetSessionInfo, ''uuuu''), (callGenerateKeyPair, ''uu''), (callDeriveKey, ''u'')]"

lemma handler_responses:
  assumes "(c, h) \<in> set (handlers env)" and "b_call req = c" and "c \<noteq> callFinalize"
    and "small_lists env st"
  shows "\<exists>s. map_of response_signatures c = Some s \<and> yields (typed_response c s) (h req) st"
proof -
  note r = simple_responses [where req = req, unfolded assms(2)]
    array_responses [OF assms(4), of req, unfolded assms(2)]
  show ?thesis
    using assms(1,3) r unfolding handlers_def list.set insert_iff prod.inject empty_iff
    by (elim disjE conjE FalseE) (simp_all add: response_signatures_def)
qed

text \<open>
  C9: Every response is typed: it carries the request's call, the signature that the client
  expects for it, and exactly the fields that the signature names, or it is the error
  response with the code as its one field; only \<^verbatim>\<open>C_Finalize\<close> sends the request itself back.
\<close>

theorem responses_well_typed:
  assumes "respond env req st = (Inr resp, st')" and "small_lists env st"
  shows "(\<exists>s. map_of response_signatures (b_call req) = Some s \<and> typed_response (b_call req) s resp) \<or>
    (\<exists>c. resp = error_response c \<and> typed_response callError ''u'' resp) \<or>
    (b_call req = callFinalize \<and> resp = req)"
proof (cases "fst (run_handler env req st)")
  case (Inl e)
  then obtain c where "resp = error_response c"
    using assms(1) by (auto simp: respond_def split: prod.splits sum.splits option.splits if_splits)
  moreover have "typed_response callError ''u'' (error_response c)"
    unfolding error_response_def
    by (rule typed_writers_eq(1) [of _ "[]"]) (simp_all add: typed_response_def)
  ultimately show ?thesis by blast
next
  case (Inr r)
  then have r: "r = resp" "run_handler env req st = (Inr resp, snd (run_handler env req st))"
    using assms(1) by (auto simp: respond_def split: prod.splits sum.splits option.splits if_splits)
  show ?thesis
  proof (cases "b_call req = callFinalize")
    case True
    then show ?thesis using r(2) by (simp add: run_handler_def handlers_def)
  next
    case False
    obtain h where h: "map_of (handlers env) (b_call req) = Some h" "h req st = (Inr resp, snd (run_handler env req st))"
      using r(2) by (auto simp: run_handler_def split: option.splits)
    show ?thesis
      using handler_responses [OF map_of_SomeD [OF h(1)] refl False assms(2)] h(2)
      unfolding yields_def by blast
  qed
qed

theorem responses_well_typed_witness:
  "typed_response callGetSlotList ''au''
    (writeUlongArray (body_of callGetSlotList [] []) (Some [1]) 0)"
proof -
  have ok: "small_lists sample_env sample_state"
    by (auto simp: small_lists_def sample_slot_def slot_mechanisms_def sample_state_def lookup_session_def
        sample_session_def fresh_session_def sign_def zero_object_def SetID_def split: if_splits)
  have c: "b_call (slot_list_request 1 1) = callGetSlotList"
    by (simp add: slot_list_request_def body_of_def)
  have "respond sample_env (slot_list_request 1 1) sample_state =
      (Inr (writeUlongArray (body_of callGetSlotList [] []) (Some [1]) 0), sample_state)"
    by (simp add: respond_def run_handler_def handlers_def c handleGetSlotList_request sample_slot_def)
  from responses_well_typed [OF this ok] show ?thesis
    by (auto simp: c response_signatures_def error_response_def body_of_def
        writeUlong_def writeUlongArray_def writeSig_def)
qed

end
