(* ===== verification/InfoCalls.thy ===== *)
theory InfoCalls
  imports Responses
begin

text \<open>
  What a client reads in the answers to \<^verbatim>\<open>C_GetInfo\<close>, \<^verbatim>\<open>C_GetSlotInfo\<close>, \<^verbatim>\<open>C_GetTokenInfo\<close> and
  \<^verbatim>\<open>C_GetSessionInfo\<close>: the structures of PKCS #11 decoded from the fields of the response, with
  text at its fixed width.
\<close>

section \<open>Text fields\<close>

definition padded :: "nat \<Rightarrow> string \<Rightarrow> bytes" where
  "padded n s = take n (bytes_of s) @ replicate (n - length s) 32"

lemma padded_length [simp]: "length (padded n s) = n"
  by (simp add: padded_def)

lemma read_padded: "read_string (enc_string (s, n) @ rest) = (Some (padded (unat n) s), rest)"
  by (simp add: read_string_def enc_string_def padded_def addUint32_def codec_simps min_def)

lemma read_version_enc: "read_version (enc_version v @ rest) = (Some v, rest)"
  by (simp add: read_version_def enc_version_def codec_simps)

text \<open>Blanks and zero bytes, the padding of labels, are taken off by \<^verbatim>\<open>strings.TrimRight\<close> once and for all.\<close>

abbreviation padding :: "char list" where "padding \<equiv> [CHR '' '', CHR 0x00]"

lemma trim_right_padded:
  assumes "length (trim_right s padding) \<le> n"
  shows "trim_right (string_of (padded n (trim_right s padding))) padding = trim_right s padding"
proof -
  let ?t = "trim_right s padding"
  have "string_of (padded n ?t) = ?t @ replicate (n - length ?t) (CHR '' '')"
  proof -
    have "string_of (replicate k 32) = replicate k (CHR '' '')" for k
    proof -
      have "char_of (unat (32 :: byte)) = CHR '' ''" by code_simp
      then show ?thesis unfolding string_of_def map_replicate by (simp only:)
    qed
    then show ?thesis using assms
      by (simp add: padded_def) (metis map_append string_of_bytes_of string_of_def)
  qed
  moreover have "dropWhile (\<lambda>c. c \<in> set padding) (replicate k (CHR '' '') @ v) = dropWhile (\<lambda>c. c \<in> set padding) v" for k v
    by (induction k) simp_all
  then have "trim_right (u @ replicate k (CHR '' '')) padding = trim_right u padding" for u k
    by (simp add: trim_right_def del: list.set)
  moreover have "trim_right ?t padding = ?t"
    by (simp add: trim_right_def del: list.set)
  ultimately show ?thesis by simp
qed

section \<open>The structures\<close>

record ck_info =
  ck_cryptoki :: Version
  ck_manufacturer :: bytes
  ck_flags :: uint64
  ck_library :: bytes
  ck_libraryVersion :: Version

record ck_slot =
  sl_description :: bytes
  sl_manufacturer :: bytes
  sl_flags :: uint64
  sl_hardware :: Version
  sl_firmware :: Version

record ck_token =
  tk_label :: bytes
  tk_manufacturer :: bytes
  tk_model :: bytes
  tk_serial :: bytes
  tk_flags :: uint64
  tk_limits :: "uint64 list"
  tk_hardware :: Version
  tk_firmware :: Version
  tk_time :: bytes

record ck_session =
  se_slotID :: uint64
  se_state :: uint64
  se_flags :: uint64
  se_deviceError :: uint64

definition read_info :: "ck_info reader" where
  "read_info = rd_bind read_version (\<lambda>v. rd_bind read_string (\<lambda>m. rd_bind buffer_uint64 (\<lambda>f.
     rd_bind read_string (\<lambda>l. rd_bind read_version (\<lambda>w. rd_return
       \<lparr>ck_cryptoki = v, ck_manufacturer = m, ck_flags = f, ck_library = l, ck_libraryVersion = w\<rparr>)))))"

definition read_slot :: "ck_slot reader" where
  "read_slot = rd_bind read_string (\<lambda>d. rd_bind read_string (\<lambda>m. rd_bind buffer_uint64 (\<lambda>f.
     rd_bind read_version (\<lambda>h. rd_bind read_version (\<lambda>v. rd_return
       \<lparr>sl_description = d, sl_manufacturer = m, sl_flags = f, sl_hardware = h, sl_firmware = v\<rparr>)))))"

definition read_token :: "ck_token reader" where
  "read_token = rd_bind read_string (\<lambda>l. rd_bind read_string (\<lambda>ma. rd_bind read_string (\<lambda>mo.
     rd_bind read_string (\<lambda>s. rd_bind buffer_uint64 (\<lambda>f. rd_bind (rd_repeat 10 buffer_uint64) (\<lambda>ns.
       rd_bind read_version (\<lambda>h. rd_bind read_version (\<lambda>v. rd_bind read_string (\<lambda>t. rd_return
         \<lparr>tk_label = l, tk_manufacturer = ma, tk_model = mo, tk_serial = s, tk_flags = f, tk_limits = ns,
          tk_hardware = h, tk_firmware = v, tk_time = t\<rparr>)))))))))"

definition read_session :: "ck_session reader" where
  "read_session = rd_bind buffer_uint64 (\<lambda>i. rd_bind buffer_uint64 (\<lambda>s. rd_bind buffer_uint64 (\<lambda>f.
     rd_bind buffer_uint64 (\<lambda>e. rd_return
       \<lparr>se_slotID = i, se_state = s, se_flags = f, se_deviceError = e\<rparr>))))"

section \<open>What the server puts into them\<close>

definition info_request :: body where
  "info_request = body_of callGetInfo [] []"

definition slot_info_request :: "uint64 \<Rightarrow> body" where
  "slot_info_request i = body_of callGetSlotInfo ''u'' (putUint64 i)"

definition token_info_request :: "uint64 \<Rightarrow> body" where
  "token_info_request i = body_of callGetTokenInfo ''u'' (putUint64 i)"

definition session_info_request :: "uint64 \<Rightarrow> body" where
  "session_info_request i = body_of callGetSessionInfo ''u'' (putUint64 i)"

lemma info_responses:
  "handleGetTokenInfo (token_info_request i) =
     act_bind (get_slot i) (\<lambda>s. act_return (token_info (body_of callGetTokenInfo [] []) s))"
  by (simp add: handleGetTokenInfo_def token_info_request_def request_simps)

lemma written:
  "b_buffer (writeString b s n) = b_buffer b @ enc_string (s, n)"
  "b_buffer (writeVersion b v) = b_buffer b @ enc_version v"
  "b_buffer (writeUlong b k) = b_buffer b @ putUint64 k"
  using string_writer.wr_fields(2) [of b "(s, n)"] version_writer.wr_fields(2) [of b v]
    ulong_pair.wr_fields(2) [of b k]
  by (simp_all add: addUint64_def)

lemma rd_repeat_numeral: "rd_repeat (numeral k) m =
    rd_bind m (\<lambda>x. rd_bind (rd_repeat (pred_numeral k) m) (\<lambda>xs. rd_return (x # xs)))"
  by (simp add: numeral_eq_Suc)

lemma token_info_reads:
  "read_token (b_buffer (token_info (body_of c [] []) s)) =
     (Some \<lparr>tk_label = padded 32 (Label s), tk_manufacturer = padded 32 (slot_Manufacturer s),
        tk_model = padded 16 (Model s), tk_serial = padded 16 (Serial s),
        tk_flags = (if Initialized s then 0x400 else 0),
        tk_limits = [0, - 1, 0, - 1, 0, 0, - 1, - 1, - 1, - 1],
        tk_hardware = HardwareVersion s, tk_firmware = FirmwareVersion s,
        tk_time = replicate 16 32\<rparr>, [])"
proof -
  have p: "padded 16 [] = replicate 16 32" by (simp add: padded_def bytes_of_def)
  have r: "read_string (enc_string (t, n)) = (Some (padded (unat n) t), [])" for t n
    using read_padded [of t n "[]"] by simp
  show ?thesis
    unfolding token_info_def Let_def written body_of_fields append_Nil append.assoc read_token_def
    by (simp add: r p read_padded read_version_enc codec_simps rd_repeat_numeral)
qed

text \<open>The module: the version of the interface, 2.40, and the names it was given.\<close>

lemma info_reads:
  "\<exists>resp. handleGetInfo info_request st = (Inr resp, st) \<and>
    read_info (b_buffer resp) =
     (Some \<lparr>ck_cryptoki = cryptokiVersion, ck_manufacturer = padded 32 (Manufacturer (server st)), ck_flags = 0,
        ck_library = padded 32 (Library (server st)), ck_libraryVersion = LibraryVersion (server st)\<rparr>, [])"
proof -
  have v: "read_version (enc_version v) = (Some v, [])" for v
    using read_version_enc [of v "[]"] by simp
  have "err info_request = None" by (simp add: info_request_def request_simps)
  then show ?thesis
    unfolding handleGetInfo_def checked_def Let_def
    by (simp add: read_info_def written info_request_def body_of_fields v read_padded read_version_enc codec_simps addUint64_def)
qed

text \<open>A slot: always with a token in it, and hardware.\<close>

lemma slot_info_reads:
  assumes "get_slot i st = (Inr s, st)"
  shows "\<exists>resp. handleGetSlotInfo (slot_info_request i) st = (Inr resp, st) \<and>
    read_slot (b_buffer resp) =
     (Some \<lparr>sl_description = padded 64 (Description s), sl_manufacturer = padded 32 (slot_Manufacturer s),
        sl_flags = 5, sl_hardware = HardwareVersion s, sl_firmware = FirmwareVersion s\<rparr>, [])"
proof -
  have v: "read_version (enc_version v) = (Some v, [])" for v
    using read_version_enc [of v "[]"] by simp
  show ?thesis using assms
    by (simp add: handleGetSlotInfo_def slot_info_request_def request_simps act_bind_def Let_def
        read_slot_def written v read_padded read_version_enc codec_simps addUint64_def)
qed

text \<open>A session: its slot, read-only with the user logged in, and serial.\<close>

lemma session_info_reads:
  assumes "lookup_session (conn st) i = Some s"
  shows "\<exists>resp. handleGetSessionInfo (session_info_request i) st = (Inr resp, st) \<and>
    read_session (b_buffer resp) =
     (Some \<lparr>se_slotID = s_slotID s, se_state = 1, se_flags = 4, se_deviceError = 0\<rparr>, [])"
proof -
  have u: "buffer_uint64 (putUint64 k) = (Some k, [])" for k
    using buffer_uint64_put [of k "[]"] by simp
  show ?thesis using assms
    by (simp add: handleGetSessionInfo_def session_info_request_def request_simps act_bind_def
        get_session_def handler_session_lookup read_session_def written u codec_simps addUint64_def)
qed

section \<open>Initializing a token\<close>

lemma slot_index_server:
  assumes "slot_index (Slots H) i = Some k" and "map slot_ID (Slots H') = map slot_ID (Slots H)"
  shows "slot_index (Slots H') i = Some k"
  using slot_index_cong [OF assms(2)] assms(1) by metis

text \<open>
  C26: A token is initialized once, and clients see it: \<^verbatim>\<open>C_InitToken\<close> succeeds on a token that is
  not initialized, whatever PIN it brings, and leaves other slots alone; from then on
  \<^verbatim>\<open>C_GetTokenInfo\<close> reports the token as initialized, under a label that is, but for its
  padding, the one that was asked for if it fits the field, with the token's other names and
  versions; and every later attempt to initialize it fails and changes nothing.
\<close>

theorem initialized_token_reported:
  assumes "slot_index (Slots (server st)) i = Some k" and "\<not> Initialized (Slots (server st) ! k)"
    and "length pin < 0xffffffff" and "length label < 0xffffffff"
    and "length pin' < 0xffffffff" and "length label' < 0xffffffff"
  shows "\<exists>st' resp token.
    handleInitToken (init_token_request i pin label) st = (Inr (body_of callInitToken [] []), st') \<and>
    (\<forall>j. j \<noteq> k \<longrightarrow> Slots (server st') ! j = Slots (server st) ! j) \<and>
    handleGetTokenInfo (token_info_request i) st' = (Inr resp, st') \<and>
    read_token (b_buffer resp) = (Some token, []) \<and> tk_flags token = 0x400 \<and>
    length (tk_label token) = 32 \<and>
    (length (trim_right label padding) \<le> 32 \<longrightarrow>
      trim_right (string_of (tk_label token)) padding = trim_right label padding) \<and>
    tk_manufacturer token = padded 32 (slot_Manufacturer (Slots (server st) ! k)) \<and>
    tk_model token = padded 16 (Model (Slots (server st) ! k)) \<and>
    tk_serial token = padded 16 (Serial (Slots (server st) ! k)) \<and>
    handleInitToken (init_token_request i pin' label') st' =
      (Inl (Pkcs11 errCryptokiAlreadyInitialized), st')"
proof -
  obtain st' where one: "init_token i label st = (Inr (), st')"
    and slot: "Slots (server st') ! k = (Slots (server st) ! k)
      \<lparr>Label := trim_right label padding, Initialized := True\<rparr>"
    and others: "\<forall>j. j \<noteq> k \<longrightarrow> Slots (server st') ! j = Slots (server st) ! j"
    and again: "init_token i label' st' = (Inl (Pkcs11 errCryptokiAlreadyInitialized), st')"
    using init_token_once [OF assms(1,2), of label label'] by blast
  have "slot_index (Slots (server st')) i = Some k"
  proof (rule slot_index_server [OF assms(1)])
    show "map slot_ID (Slots (server st')) = map slot_ID (Slots (server st))"
      using one by (auto simp: init_token_def update_slot_IDs split: sum.splits if_splits)
  qed
  then have "get_slot i st' = (Inr (Slots (server st') ! k), st')"
    by (simp add: get_slot_def handler_slot_def)
  then have info: "handleGetTokenInfo (token_info_request i) st' =
      (Inr (token_info (body_of callGetTokenInfo [] []) (Slots (server st') ! k)), st')"
    by (simp add: info_responses act_bind_def)
  show ?thesis
    using one others again info token_info_reads [of callGetTokenInfo "Slots (server st') ! k"]
    by (simp add: handleInitToken_request assms act_bind_def slot trim_right_padded)
qed

theorem initialized_token_reported_witness:
  "\<exists>st' resp token. handleInitToken (init_token_request 1 [1, 2] ''tok   '') sample_state =
      (Inr (body_of callInitToken [] []), st') \<and>
    handleGetTokenInfo (token_info_request 1) st' = (Inr resp, st') \<and>
    read_token (b_buffer resp) = (Some token, []) \<and> tk_flags token = 0x400 \<and>
    trim_right (string_of (tk_label token)) padding = ''tok''"
proof -
  have s: "slot_index (Slots (server sample_state)) 1 = Some 0"
    "\<not> Initialized (Slots (server sample_state) ! 0)" by (simp_all add: sample_slot_def)
  have "trim_right ''tok   '' padding = ''tok''" by code_simp
  then show ?thesis
    using initialized_token_reported [OF s, of "[1, 2]" "''tok   ''" "[]" "[]"] by simp blast
qed

end
