(* ===== verification/Locking.thy ===== *)
theory Locking
  imports System
begin

text \<open>
  The accesses to the shared slots one by one, with \<^verbatim>\<open>Handler.mu\<close>: a handler is a program of
  locking, unlocking, and reading and writing the fields of a slot, and any number of
  connections interleave such programs access by access. The critical sections turn out to
  be atomic, no request waits forever, and the only accesses to slots that race are the copies of
  whole slots in \<^verbatim>\<open>handleGetSlotList\<close> and in the value receivers of \<^verbatim>\<open>Slot\<close>.
\<close>

section \<open>Programs\<close>

text \<open>
  \<open>Label\<close>, \<open>Initialized\<close> and \<open>Objects\<close> are written while the server runs; \<open>ReadFixed\<close> reads the
  other fields, \<open>CopySlot\<close> is a copy of a whole \<^verbatim>\<open>Slot\<close> value.
\<close>

datatype 'r prog =
    Finish 'r
  | Lock "'r prog"
  | Unlock "'r prog"
  | NumSlots "nat \<Rightarrow> 'r prog"
  | ReadFixed nat "slot \<Rightarrow> 'r prog"
  | CopySlot nat "slot \<Rightarrow> 'r prog"
  | ReadLabel nat "string \<Rightarrow> 'r prog"
  | ReadInitialized nat "bool \<Rightarrow> 'r prog"
  | ReadObjects nat "object list \<Rightarrow> 'r prog"
  | WriteLabel nat string "'r prog"
  | WriteInitialized nat bool "'r prog"
  | WriteObjects nat "object list" "'r prog"

definition fixed :: "slot \<Rightarrow> slot" where
  "fixed s = s\<lparr>Label := [], Initialized := False, Objects := []\<rparr>"

abbreviation write_slot :: "nat \<Rightarrow> (slot \<Rightarrow> slot) \<Rightarrow> slot list \<Rightarrow> slot list" where
  "write_slot k f ss \<equiv> ss[k := f (ss ! k)]"

text \<open>One access; an index out of range is a panic, and locking is not an access.\<close>

fun access :: "'r prog \<Rightarrow> slot list \<Rightarrow> ('r prog \<times> slot list) option" where
  "access (NumSlots f) ss = Some (f (length ss), ss)"
| "access (ReadFixed k f) ss = (if k < length ss then Some (f (fixed (ss ! k)), ss) else None)"
| "access (CopySlot k f) ss = (if k < length ss then Some (f (ss ! k), ss) else None)"
| "access (ReadLabel k f) ss = (if k < length ss then Some (f (Label (ss ! k)), ss) else None)"
| "access (ReadInitialized k f) ss =
     (if k < length ss then Some (f (Initialized (ss ! k)), ss) else None)"
| "access (ReadObjects k f) ss = (if k < length ss then Some (f (Objects (ss ! k)), ss) else None)"
| "access (WriteLabel k l p) ss =
     (if k < length ss then Some (p, write_slot k (\<lambda>s. s\<lparr>Label := l\<rparr>) ss) else None)"
| "access (WriteInitialized k b p) ss =
     (if k < length ss then Some (p, write_slot k (\<lambda>s. s\<lparr>Initialized := b\<rparr>) ss) else None)"
| "access (WriteObjects k objs p) ss =
     (if k < length ss then Some (p, write_slot k (\<lambda>s. s\<lparr>Objects := objs\<rparr>) ss) else None)"
| "access _ ss = None"

section \<open>The handlers as programs\<close>

text \<open>What a program computes: an answer, what became of new objects, or what a caller goes on with.\<close>

datatype outcome =
    Reply "body result"
  | Persisted "unit result"
  | Snapshot "(object list \<times> slot) result"
  | Copied "slot result"

text \<open>\<^verbatim>\<open>handler.slot\<close>\<close>

fun find_slot :: "uint64 \<Rightarrow> nat list \<Rightarrow> (nat \<Rightarrow> 'r prog) \<Rightarrow> 'r prog \<Rightarrow> 'r prog" where
  "find_slot i [] found missing = missing"
| "find_slot i (k # ks) found missing =
     ReadFixed k (\<lambda>s. if slot_ID s = i then found k else find_slot i ks found missing)"

definition slot_prog :: "uint64 \<Rightarrow> (nat \<Rightarrow> 'r prog) \<Rightarrow> (go_error \<Rightarrow> 'r prog) \<Rightarrow> 'r prog" where
  "slot_prog i found missing =
     NumSlots (\<lambda>n. find_slot i [0..<n] found (missing (Pkcs11 errSlotIDInvalid)))"

definition checked_prog :: "body \<Rightarrow> outcome prog \<Rightarrow> outcome prog" where
  "checked_prog req p = (case err req of Some e \<Rightarrow> Finish (Reply (Inl e)) | None \<Rightarrow> p)"

abbreviation failed :: "go_error \<Rightarrow> outcome prog" where
  "failed e \<equiv> Finish (Reply (Inl e))"

definition tokenInfo_prog :: "body \<Rightarrow> outcome prog" where
  "tokenInfo_prog req =
     (let (slotID, req) = readUlong req in
      checked_prog req (slot_prog slotID (\<lambda>k.
        Lock (ReadLabel k (\<lambda>label. ReadInitialized k (\<lambda>initialized. Unlock
          (ReadFixed k (\<lambda>s. Finish (Reply (Inr (token_info (newResponse req)
            (s\<lparr>Label := label, Initialized := initialized\<rparr>)))))))))) failed))"

definition slotInfo_prog :: "body \<Rightarrow> outcome prog" where
  "slotInfo_prog req =
     (let (slotID, req) = readUlong req in
      checked_prog req (slot_prog slotID (\<lambda>k. ReadFixed k (\<lambda>s.
        let flags = or 0x01 0x04;
            resp = newResponse req;
            resp = writeString resp (Description s) 64;
            resp = writeString resp (slot_Manufacturer s) 32;
            resp = writeUlong resp flags;
            resp = writeVersion resp (HardwareVersion s);
            resp = writeVersion resp (FirmwareVersion s) in
        Finish (Reply (Inr resp)))) failed))"

definition initToken_prog :: "body \<Rightarrow> outcome prog" where
  "initToken_prog req =
     (let (slotID, req) = readUlong req;
          (pin, req) = readByteArray req;
          (label, req) = readZeroString req in
      checked_prog req (slot_prog slotID (\<lambda>k.
        Lock (ReadInitialized k (\<lambda>initialized.
          if initialized then Unlock (failed (Pkcs11 errCryptokiAlreadyInitialized))
          else WriteLabel k (trim_right label (CHR '' '' # CHR 0x00 # []))
            (WriteInitialized k True (Unlock (Finish (Reply (Inr (newResponse req))))))))) failed))"

definition mechanismList_prog :: "body \<Rightarrow> outcome prog" where
  "mechanismList_prog req =
     (let (slotID, req) = readUlong req;
          (count, req) = readUlongBuffer req in
      checked_prog req (slot_prog slotID (\<lambda>k.
        CopySlot k (\<lambda>s.
          let m = slot_mechanisms s;
              n = of_nat (length m) :: uint32;
              resp = newResponse req in
          Finish (Reply
            (if count = 0 then Inr (writeUlongArray resp None n)
             else if count < n then Inl (Pkcs11 errBufferTooSmall)
             else Inr (writeUlongArray resp (Some m) n))))) failed))"

text \<open>\<^verbatim>\<open>for i, slot := range h.s.Slots { sli[i] = slot.ID }\<close>\<close>

fun range_prog :: "nat list \<Rightarrow> uint64 list \<Rightarrow> (uint64 list \<Rightarrow> 'r prog) \<Rightarrow> 'r prog" where
  "range_prog [] sli f = f sli"
| "range_prog (k # ks) sli f = CopySlot k (\<lambda>slot. range_prog ks (sli @ [slot_ID slot]) f)"

definition slotList_prog :: "body \<Rightarrow> outcome prog" where
  "slotList_prog req =
     (let (tokenPresent, req) = readByte req;
          (n, req) = readUlongBuffer req in
      checked_prog req (NumSlots (\<lambda>count.
        let resp = newResponse req in
        if n = 0 then Finish (Reply (Inr (writeUlongArray resp None (of_nat count))))
        else if unat n < count then failed (Pkcs11 errBufferTooSmall)
        else range_prog [0..<count] [] (\<lambda>sli. Finish (Reply (Inr (writeUlongArray resp (Some sli) 0)))))))"

text \<open>The copy of the receiver that \<^verbatim>\<open>slot.mechanismInfo\<close> works on.\<close>

definition mechanismInfo_prog :: "uint64 \<Rightarrow> outcome prog" where
  "mechanismInfo_prog slotID =
     slot_prog slotID (\<lambda>k. CopySlot k (\<lambda>s. Finish (Copied (Inr (fixed s)))))
       (\<lambda>e. Finish (Copied (Inl e)))"

text \<open>The objects that \<^verbatim>\<open>newSession\<close> takes from the token, before it looks for a callback.\<close>

definition newSession_prog :: "uint64 \<Rightarrow> outcome prog" where
  "newSession_prog slotID =
     slot_prog slotID (\<lambda>k. Lock (ReadObjects k (\<lambda>objs. Unlock
       (ReadFixed k (\<lambda>s. Finish (Snapshot (Inr (objs, s))))))))
       (\<lambda>e. Finish (Snapshot (Inl e)))"

text \<open>The loop of \<^verbatim>\<open>handleGenerateKeyPair\<close> with \<^verbatim>\<open>persistObject\<close>.\<close>

fun persist_prog :: "uint64 \<Rightarrow> object list \<Rightarrow> outcome prog" where
  "persist_prog slotID [] = Finish (Persisted (Inr ()))"
| "persist_prog slotID (obj # objs) =
     (if is_token obj then
        slot_prog slotID (\<lambda>k. Lock (ReadObjects k (\<lambda>os. WriteObjects k (os @ [obj]) (Unlock
          (persist_prog slotID objs))))) (\<lambda>e. Finish (Persisted (Inl e)))
      else persist_prog slotID objs)"

inductive server_prog :: "outcome prog \<Rightarrow> bool" where
  "server_prog (tokenInfo_prog req)"
| "server_prog (initToken_prog req)"
| "server_prog (mechanismList_prog req)"
| "server_prog (slotList_prog req)"
| "server_prog (mechanismInfo_prog slotID)"
| "server_prog (newSession_prog slotID)"
| "server_prog (persist_prog slotID objs)"
| "server_prog (slotInfo_prog req)"

section \<open>Interleaving\<close>

record machine =
  mu :: "nat option"
  m_slots :: "slot list"
  m_threads :: "nat \<Rightarrow> outcome prog option"

text \<open>
  The next access of connection \<open>t\<close>; \<open>None\<close> if it waits for the lock, has finished, or would
  panic. As in Go, \<^verbatim>\<open>Unlock\<close> does not look at who holds the lock.
\<close>

definition advance :: "nat \<Rightarrow> machine \<Rightarrow> machine option" where
  "advance t M =
     (case m_threads M t of
        None \<Rightarrow> None
      | Some (Lock p) \<Rightarrow>
          (case mu M of
             None \<Rightarrow> Some (M\<lparr>mu := Some t, m_threads := (m_threads M)(t \<mapsto> p)\<rparr>)
           | Some _ \<Rightarrow> None)
      | Some (Unlock p) \<Rightarrow>
          (case mu M of
             None \<Rightarrow> None
           | Some _ \<Rightarrow> Some (M\<lparr>mu := None, m_threads := (m_threads M)(t \<mapsto> p)\<rparr>))
      | Some p \<Rightarrow>
          (case access p (m_slots M) of
             None \<Rightarrow> None
           | Some (p', ss) \<Rightarrow> Some (M\<lparr>m_slots := ss, m_threads := (m_threads M)(t \<mapsto> p')\<rparr>)))"

inductive run_step :: "machine \<Rightarrow> machine \<Rightarrow> bool" where
  run: "advance t M = Some M' \<Longrightarrow> run_step M M'"

text \<open>A connection that is not in the middle of a program may start another or close.\<close>

definition idle :: "machine \<Rightarrow> nat \<Rightarrow> bool" where
  "idle M t \<longleftrightarrow> (case m_threads M t of None \<Rightarrow> True | Some (Finish r) \<Rightarrow> True | _ \<Rightarrow> False)"

inductive mach_step :: "machine \<Rightarrow> machine \<Rightarrow> bool" where
  go: "run_step M M' \<Longrightarrow> mach_step M M'"
| start: "idle M t \<Longrightarrow> server_prog p \<Longrightarrow> mach_step M (M\<lparr>m_threads := (m_threads M)(t \<mapsto> p)\<rparr>)"
| close: "idle M t \<Longrightarrow> mach_step M (M\<lparr>m_threads := (m_threads M)(t := None)\<rparr>)"

definition machine_start :: "slot list \<Rightarrow> machine" where
  "machine_start ss = \<lparr>mu = None, m_slots = ss, m_threads = Map.empty\<rparr>"

section \<open>The locking discipline\<close>

text \<open>
  A program that locks and unlocks in turn, touches what is written only with the lock, and
  uses of a copy only what is never written; \<open>h\<close> says whether it holds the lock.
\<close>

primrec guarded :: "'r prog \<Rightarrow> nat \<Rightarrow> bool \<Rightarrow> bool" where
  "guarded (Finish r) n h \<longleftrightarrow> \<not> h"
| "guarded (Lock p) n h \<longleftrightarrow> \<not> h \<and> guarded p n True"
| "guarded (Unlock p) n h \<longleftrightarrow> h \<and> guarded p n False"
| "guarded (NumSlots f) n h \<longleftrightarrow> guarded (f n) n h"
| "guarded (ReadFixed k f) n h \<longleftrightarrow> k < n \<and> (\<forall>s. guarded (f s) n h)"
| "guarded (CopySlot k f) n h \<longleftrightarrow> k < n \<and> \<not> h \<and> (\<forall>s. f s = f (fixed s) \<and> guarded (f s) n h)"
| "guarded (ReadLabel k f) n h \<longleftrightarrow> k < n \<and> h \<and> (\<forall>l. guarded (f l) n h)"
| "guarded (ReadInitialized k f) n h \<longleftrightarrow> k < n \<and> h \<and> (\<forall>b. guarded (f b) n h)"
| "guarded (ReadObjects k f) n h \<longleftrightarrow> k < n \<and> h \<and> (\<forall>objs. guarded (f objs) n h)"
| "guarded (WriteLabel k l p) n h \<longleftrightarrow> k < n \<and> h \<and> guarded p n h"
| "guarded (WriteInitialized k b p) n h \<longleftrightarrow> k < n \<and> h \<and> guarded p n h"
| "guarded (WriteObjects k objs p) n h \<longleftrightarrow> k < n \<and> h \<and> guarded p n h"

text \<open>At most \<open>b\<close> accesses and lock operations until the program finishes.\<close>

primrec within :: "'r prog \<Rightarrow> nat \<Rightarrow> nat \<Rightarrow> bool" where
  "within (Finish r) n b \<longleftrightarrow> True"
| "within (Lock p) n b \<longleftrightarrow> 0 < b \<and> within p n (b - 1)"
| "within (Unlock p) n b \<longleftrightarrow> 0 < b \<and> within p n (b - 1)"
| "within (NumSlots f) n b \<longleftrightarrow> 0 < b \<and> within (f n) n (b - 1)"
| "within (ReadFixed k f) n b \<longleftrightarrow> 0 < b \<and> (\<forall>s. within (f s) n (b - 1))"
| "within (CopySlot k f) n b \<longleftrightarrow> 0 < b \<and> (\<forall>s. within (f s) n (b - 1))"
| "within (ReadLabel k f) n b \<longleftrightarrow> 0 < b \<and> (\<forall>l. within (f l) n (b - 1))"
| "within (ReadInitialized k f) n b \<longleftrightarrow> 0 < b \<and> (\<forall>x. within (f x) n (b - 1))"
| "within (ReadObjects k f) n b \<longleftrightarrow> 0 < b \<and> (\<forall>objs. within (f objs) n (b - 1))"
| "within (WriteLabel k l p) n b \<longleftrightarrow> 0 < b \<and> within p n (b - 1)"
| "within (WriteInitialized k x p) n b \<longleftrightarrow> 0 < b \<and> within p n (b - 1)"
| "within (WriteObjects k objs p) n b \<longleftrightarrow> 0 < b \<and> within p n (b - 1)"

lemma fixed_simps [simp]:
  "fixed (s\<lparr>Label := l\<rparr>) = fixed s" "fixed (s\<lparr>Initialized := b\<rparr>) = fixed s"
  "fixed (s\<lparr>Objects := objs\<rparr>) = fixed s" "fixed (fixed s) = fixed s"
  "slot_ID (fixed s) = slot_ID s" "slot_mechanisms (fixed s) = slot_mechanisms s"
  "GetObjects (fixed s) = GetObjects s"
  by (simp_all add: fixed_def slot_mechanisms_def)

lemma within_add: "within p n b \<Longrightarrow> within p n (b + d)"
  by (induction p arbitrary: b) (auto simp: gr0_conv_Suc)

lemma within_mono: "within p n b \<Longrightarrow> b \<le> c \<Longrightarrow> within p n c"
  using within_add [of p n b "c - b"] by simp

lemma guarded_slot_prog [intro]:
  assumes "\<And>k. k < n \<Longrightarrow> guarded (found k) n False" and "\<And>e. guarded (missing e) n False"
  shows "guarded (slot_prog i found missing) n False"
proof -
  have "guarded (find_slot i ks found m) n False"
    if "set ks \<subseteq> {..<n}" and "guarded m n False" for ks m
    using that by (induction ks) (auto intro: assms(1))
  from this [of "[0..<n]" "missing (Pkcs11 errSlotIDInvalid)"] show ?thesis
    using assms(2) by (simp add: slot_prog_def subset_iff)
qed

lemma within_slot_prog:
  assumes "\<And>k. within (found k) n b" and "\<And>e. within (missing e) n b"
  shows "within (slot_prog i found missing) n (Suc (n + b))"
proof -
  have "within (find_slot i ks found m) n (length ks + b)" if "within m n b" for ks m
  proof (induction ks)
    case (Cons k ks)
    then show ?case using within_mono [OF assms(1), of "length ks + b"] by simp
  qed (simp add: that)
  from this [of "missing (Pkcs11 errSlotIDInvalid)" "[0..<n]"] show ?thesis
    using assms(2) by (simp add: slot_prog_def)
qed

lemma guarded_checked: "guarded p n False \<Longrightarrow> guarded (checked_prog req p) n False"
  by (simp add: checked_prog_def split: option.split)

lemma within_checked: "within p n b \<Longrightarrow> within (checked_prog req p) n b"
  by (simp add: checked_prog_def split: option.split)

lemma range_prog_guarded:
  "set ks \<subseteq> {..<n} \<Longrightarrow> (\<And>sli. guarded (f sli) n False) \<Longrightarrow> guarded (range_prog ks sli f) n False"
  by (induction ks arbitrary: sli) auto

lemma range_prog_within: "(\<And>sli. within (f sli) n b) \<Longrightarrow> within (range_prog ks sli f) n (length ks + b)"
  by (induction ks arbitrary: sli) auto

lemma server_prog_guarded: "server_prog p \<Longrightarrow> guarded p n False"
proof (induction rule: server_prog.induct)
  case (7 slotID objs)
  then show ?case by (induction slotID objs rule: persist_prog.induct) auto
qed (auto simp: tokenInfo_prog_def initToken_prog_def mechanismList_prog_def slotList_prog_def
    mechanismInfo_prog_def newSession_prog_def slotInfo_prog_def Let_def split: prod.split
    intro!: guarded_checked range_prog_guarded)

lemma server_prog_within: "server_prog p \<Longrightarrow> \<exists>b. within p n b"
proof (induction rule: server_prog.induct)
  case (1 req)
  have "within (tokenInfo_prog req) n (Suc (n + 6))"
    unfolding tokenInfo_prog_def Let_def case_prod_beta
    by (intro within_checked within_slot_prog) simp_all
  then show ?case ..
next
  case (2 req)
  have "within (initToken_prog req) n (Suc (n + 6))"
    unfolding initToken_prog_def Let_def case_prod_beta
    by (intro within_checked within_slot_prog) simp_all
  then show ?case ..
next
  case (3 req)
  have "within (mechanismList_prog req) n (Suc (n + 1))"
    unfolding mechanismList_prog_def Let_def case_prod_beta
    by (intro within_checked within_slot_prog) simp_all
  then show ?case ..
next
  case (4 req)
  have "within (range_prog [0..<n] [] f) n n" if "\<And>sli. within (f sli) n 0" for f :: "_ \<Rightarrow> outcome prog"
    using range_prog_within [of f n 0 "[0..<n]" "[]"] that by simp
  then have "within (slotList_prog req) n (Suc n)"
    unfolding slotList_prog_def Let_def case_prod_beta
    by (intro within_checked) simp
  then show ?case ..
next
  case (5 slotID)
  have "within (mechanismInfo_prog slotID) n (Suc (n + 1))"
    unfolding mechanismInfo_prog_def by (intro within_slot_prog) simp_all
  then show ?case ..
next
  case (6 slotID)
  have "within (newSession_prog slotID) n (Suc (n + 4))"
    unfolding newSession_prog_def by (intro within_slot_prog) simp_all
  then show ?case ..
next
  case (7 slotID objs)
  show ?case
  proof (induction objs)
    case (Cons obj objs)
    then obtain b where b: "within (persist_prog slotID objs) n b" by blast
    have "within (persist_prog slotID (obj # objs)) n (Suc (n + (b + 4)))"
    proof (cases "is_token obj")
      case True
      have "within (slot_prog slotID (\<lambda>k. Lock (ReadObjects k (\<lambda>os. WriteObjects k (os @ [obj])
          (Unlock (persist_prog slotID objs))))) (\<lambda>e. Finish (Persisted (Inl e)))) n (Suc (n + (b + 4)))"
        by (intro within_slot_prog) (simp_all add: b)
      then show ?thesis using True by simp
    qed (use within_mono [OF b] in simp)
    then show ?case ..
  qed simp
next
  case (8 req)
  have "within (slotInfo_prog req) n (Suc (n + 1))"
    unfolding slotInfo_prog_def Let_def case_prod_beta
    by (intro within_checked within_slot_prog) simp_all
  then show ?case ..
qed

section \<open>What always holds\<close>

fun accessing :: "'r prog \<Rightarrow> bool" where
  "accessing (Finish r) = False"
| "accessing (Lock p) = False"
| "accessing (Unlock p) = False"
| "accessing p = True"

lemma map_fixed_write: "fixed s = fixed (ss ! k) \<Longrightarrow> map fixed (ss[k := s]) = map fixed ss"
  by (metis list_update_id map_update)

lemma access_ok:
  assumes "guarded p (length ss) h" and "accessing p"
  shows "\<exists>p' ss'. access p ss = Some (p', ss') \<and> guarded p' (length ss') h \<and>
    map fixed ss' = map fixed ss"
  using assms by (cases p) (auto simp: map_fixed_write)

lemma access_length: "access p ss = Some (p', ss') \<Longrightarrow> length ss' = length ss"
  by (cases p) (auto split: if_splits)

lemma access_within:
  "access p ss = Some (p', ss') \<Longrightarrow> within p (length ss) b \<Longrightarrow> 0 < b \<and> within p' (length ss) (b - 1)"
  by (cases p) (auto split: if_splits)

lemma access_accessing: "access p ss = Some x \<Longrightarrow> accessing p"
  by (cases p) auto

lemma advance_cases:
  assumes "advance t M = Some M'"
  obtains (lock) p where "m_threads M t = Some (Lock p)" "mu M = None"
      "M' = M\<lparr>mu := Some t, m_threads := (m_threads M)(t \<mapsto> p)\<rparr>"
    | (unlock) p where "m_threads M t = Some (Unlock p)" "mu M \<noteq> None"
      "M' = M\<lparr>mu := None, m_threads := (m_threads M)(t \<mapsto> p)\<rparr>"
    | (access) p p' ss where "m_threads M t = Some p" "access p (m_slots M) = Some (p', ss)"
      "M' = M\<lparr>m_slots := ss, m_threads := (m_threads M)(t \<mapsto> p')\<rparr>"
proof -
  obtain p where p: "m_threads M t = Some p" using assms by (auto simp: advance_def split: option.splits)
  show thesis
  proof (cases "accessing p")
    case True
    then show thesis using assms p access by (cases p) (auto simp: advance_def split: option.splits)
  next
    case False
    then show thesis using assms p lock unlock by (cases p) (auto simp: advance_def split: option.splits)
  qed
qed

definition machine_ok :: "slot list \<Rightarrow> machine \<Rightarrow> bool" where
  "machine_ok ss M \<longleftrightarrow> map fixed (m_slots M) = map fixed ss \<and>
     (\<forall>t p. m_threads M t = Some p \<longrightarrow> guarded p (length (m_slots M)) (mu M = Some t)) \<and>
     (\<forall>t. mu M = Some t \<longrightarrow> m_threads M t \<noteq> None)"

lemma machine_okD:
  "machine_ok ss M \<Longrightarrow> m_threads M t = Some p \<Longrightarrow> guarded p (length (m_slots M)) (mu M = Some t)"
  by (simp add: machine_ok_def)

lemma idle_cases: "idle M t \<longleftrightarrow> m_threads M t = None \<or> (\<exists>r. m_threads M t = Some (Finish r))"
  by (auto simp: idle_def split: option.split prog.split)

lemma idle_unlocked: "machine_ok ss M \<Longrightarrow> idle M t \<Longrightarrow> mu M \<noteq> Some t"
  unfolding machine_ok_def idle_cases by (metis guarded.simps(1))

lemma run_step_ok:
  assumes "run_step M M'" and "machine_ok ss M"
  shows "machine_ok ss M'"
  using assms(1)
proof cases
  case (run t)
  then show ?thesis
  proof (cases rule: advance_cases)
    case (lock p)
    then show ?thesis using assms(2) by (fastforce simp: machine_ok_def)
  next
    case (unlock p)
    have mu: "mu M = Some t" using machine_okD [OF assms(2) unlock(1)] by simp
    then have "guarded p (length (m_slots M)) False" using machine_okD [OF assms(2) unlock(1)] by simp
    moreover have "guarded q (length (m_slots M)) False" if "m_threads M u = Some q" "u \<noteq> t" for u q
      using machine_okD [OF assms(2) that(1)] that(2) mu by simp
    ultimately show ?thesis using assms(2) unlock by (auto simp: machine_ok_def)
  next
    case (access p p' ss')
    then have "guarded p (length (m_slots M)) (mu M = Some t)" using assms(2) by (auto simp: machine_ok_def)
    with access have "guarded p' (length ss') (mu M = Some t)" "map fixed ss' = map fixed (m_slots M)"
      using access_ok [of p "m_slots M"] access_accessing by fastforce+
    then show ?thesis using access assms(2) access_length [OF access(2)] by (auto simp: machine_ok_def)
  qed
qed

lemma mach_step_ok: "mach_step M M' \<Longrightarrow> machine_ok ss M \<Longrightarrow> machine_ok ss M'"
proof (induction rule: mach_step.induct)
  case (start M t p)
  then show ?case using idle_unlocked [OF start.prems start.hyps(1)] server_prog_guarded
    by (auto simp: machine_ok_def)
next
  case (close M t)
  then show ?case using idle_unlocked [OF close.prems close.hyps] by (auto simp: machine_ok_def)
qed (rule run_step_ok)

interpretation machine: step_invariant mach_step "machine_ok ss"
  by unfold_locales (rule mach_step_ok)

interpretation running: step_invariant run_step "machine_ok ss"
  by unfold_locales (rule run_step_ok)

abbreviation mach_steps :: "machine \<Rightarrow> machine \<Rightarrow> bool" where
  "mach_steps \<equiv> mach_step\<^sup>*\<^sup>*"

lemma machine_start_ok: "machine_ok ss (machine_start ss)"
  by (simp add: machine_ok_def machine_start_def)

lemma reachable_ok: "mach_steps (machine_start ss) M \<Longrightarrow> machine_ok ss M"
  using machine.steps_preserve machine_start_ok by blast

section \<open>Races\<close>

datatype cell = LabelOf nat | InitializedOf nat | ObjectsOf nat | FixedOf nat

text \<open>The memory the next access reads and writes.\<close>

fun reads :: "'r prog \<Rightarrow> cell set" where
  "reads (ReadFixed k f) = {FixedOf k}"
| "reads (CopySlot k f) = {LabelOf k, InitializedOf k, ObjectsOf k, FixedOf k}"
| "reads (ReadLabel k f) = {LabelOf k}"
| "reads (ReadInitialized k f) = {InitializedOf k}"
| "reads (ReadObjects k f) = {ObjectsOf k}"
| "reads _ = {}"

fun writes :: "'r prog \<Rightarrow> cell set" where
  "writes (WriteLabel k l p) = {LabelOf k}"
| "writes (WriteInitialized k b p) = {InitializedOf k}"
| "writes (WriteObjects k objs p) = {ObjectsOf k}"
| "writes _ = {}"

text \<open>
  Two connections about to touch the same field of a slot, one of them to write it: a data race.
  What the fields point to is not a field: arrays of objects are the subject of theory \<open>Slices\<close>.
\<close>

definition slot_race :: "machine \<Rightarrow> nat \<Rightarrow> nat \<Rightarrow> bool" where
  "slot_race M t u \<longleftrightarrow> t \<noteq> u \<and>
     (\<exists>p q. m_threads M t = Some p \<and> m_threads M u = Some q \<and> writes p \<inter> (reads q \<union> writes q) \<noteq> {})"

lemma writes_guarded: "guarded p n h \<Longrightarrow> writes p \<noteq> {} \<Longrightarrow> h"
  by (cases p) auto

lemma shared_guarded:
  "guarded p n False \<Longrightarrow> (reads p \<union> writes p) - range FixedOf \<noteq> {} \<Longrightarrow>
     \<exists>k f. p = CopySlot k f \<and> (\<forall>s. f s = f (fixed s))"
  by (cases p) auto

lemma writes_not_fixed: "writes p \<inter> range FixedOf = {}"
  by (cases p) auto

section \<open>Progress\<close>

definition machine_within :: "machine \<Rightarrow> nat \<Rightarrow> bool" where
  "machine_within M N \<longleftrightarrow> finite (dom (m_threads M)) \<and>
     (\<exists>B. (\<forall>t p. m_threads M t = Some p \<longrightarrow> within p (length (m_slots M)) (B t)) \<and>
       (\<Sum>t \<in> dom (m_threads M). B t) \<le> N)"

lemma advance_within:
  assumes "advance t M = Some M'" and "m_threads M t = Some p" and "within p (length (m_slots M)) b"
  shows "\<exists>p'. m_threads M' = (m_threads M)(t \<mapsto> p') \<and> length (m_slots M') = length (m_slots M) \<and>
    0 < b \<and> within p' (length (m_slots M)) (b - 1)"
  using assms(1)
proof (cases rule: advance_cases)
  case (access q p' ss)
  then show ?thesis using assms access_within access_length by fastforce
qed (use assms in auto)

lemma run_step_within:
  assumes "run_step M M'" and "machine_within M N"
  shows "0 < N \<and> machine_within M' (N - 1)"
  using assms(1)
proof cases
  case (run t)
  obtain B where B: "\<forall>t p. m_threads M t = Some p \<longrightarrow> within p (length (m_slots M)) (B t)"
    "(\<Sum>t \<in> dom (m_threads M). B t) \<le> N" and fin: "finite (dom (m_threads M))"
    using assms(2) unfolding machine_within_def by blast
  obtain p where p: "m_threads M t = Some p" using run by (auto simp: advance_def split: option.splits)
  then obtain p' where p': "m_threads M' = (m_threads M)(t \<mapsto> p')"
    "length (m_slots M') = length (m_slots M)" "0 < B t" "within p' (length (m_slots M)) (B t - 1)"
    using advance_within [OF run p] B(1) by blast
  have dom: "dom (m_threads M') = dom (m_threads M)" using p p'(1) by auto
  have "(\<Sum>t \<in> dom (m_threads M). B t) = B t + (\<Sum>u \<in> dom (m_threads M) - {t}. B u)"
    using fin p by (intro sum.remove) auto
  moreover have "(\<Sum>u \<in> dom (m_threads M). (B(t := B t - 1)) u) =
      (B t - 1) + (\<Sum>u \<in> dom (m_threads M) - {t}. B u)"
    using fin p sum.remove [of "dom (m_threads M)" t "B(t := B t - 1)"] by auto
  ultimately have "0 < N" "(\<Sum>u \<in> dom (m_threads M'). (B(t := B t - 1)) u) \<le> N - 1"
    using B(2) p'(3) dom by auto
  moreover have "\<forall>u q. m_threads M' u = Some q \<longrightarrow> within q (length (m_slots M')) ((B(t := B t - 1)) u)"
    using B(1) p' by auto
  ultimately show ?thesis using fin dom unfolding machine_within_def by (metis (no_types, lifting))
qed

lemma runs_within: "(run_step ^^ k) M M' \<Longrightarrow> machine_within M N \<Longrightarrow> k \<le> N"
proof (induction k arbitrary: M N)
  case (Suc k)
  obtain M1 where M1: "run_step M M1" "(run_step ^^ k) M1 M'"
    using Suc.prems(1) by (metis relpowp_Suc_D2)
  then have "0 < N" "k \<le> N - 1" using Suc.IH run_step_within [OF M1(1) Suc.prems(2)] by blast+
  then show ?case by simp
qed simp

definition machine_bounded :: "machine \<Rightarrow> bool" where
  "machine_bounded M \<longleftrightarrow> (\<exists>N. machine_within M N)"

lemma machine_bounded_upd:
  assumes "machine_bounded M" and "\<exists>b. within p (length (m_slots M)) b"
  shows "machine_bounded (M\<lparr>m_threads := (m_threads M)(t \<mapsto> p)\<rparr>)"
proof -
  obtain B where B: "\<forall>t p. m_threads M t = Some p \<longrightarrow> within p (length (m_slots M)) (B t)"
    "finite (dom (m_threads M))"
    using assms(1) unfolding machine_bounded_def machine_within_def by blast
  obtain b where "within p (length (m_slots M)) b" using assms(2) ..
  with B show ?thesis unfolding machine_bounded_def machine_within_def
    by (intro exI conjI [OF _ exI [of _ "B(t := b)"]]) auto
qed

lemma mach_step_bounded: "mach_step M M' \<Longrightarrow> machine_bounded M \<Longrightarrow> machine_bounded M'"
proof (induction rule: mach_step.induct)
  case (go M M')
  then show ?case using run_step_within unfolding machine_bounded_def by blast
next
  case (start M t p)
  then show ?case using machine_bounded_upd server_prog_within by blast
next
  case (close M t)
  then obtain B where "\<forall>t p. m_threads M t = Some p \<longrightarrow> within p (length (m_slots M)) (B t)"
    "finite (dom (m_threads M))"
    unfolding machine_bounded_def machine_within_def by blast
  then show ?case unfolding machine_bounded_def machine_within_def
    by (intro exI conjI [OF _ exI [of _ B]]) (auto simp: dom_def intro: finite_subset [rotated])
qed

interpretation bounded: step_invariant mach_step machine_bounded
  by unfold_locales (rule mach_step_bounded)

lemma someone_runs:
  assumes "machine_ok ss M" and "\<not> idle M t"
  shows "\<exists>M'. run_step M M'"
proof -
  have acc: "\<exists>M'. run_step M M'" if u: "m_threads M u = Some p" "accessing p" for u p
  proof -
    have "guarded p (length (m_slots M)) (mu M = Some u)" using assms(1) u by (simp add: machine_ok_def)
    then obtain p' ss' where "access p (m_slots M) = Some (p', ss')" using access_ok u(2) by blast
    then have "advance u M = Some (M\<lparr>m_slots := ss', m_threads := (m_threads M)(u \<mapsto> p')\<rparr>)"
      using u by (cases p) (auto simp: advance_def)
    then show ?thesis by (blast intro: run_step.run)
  qed
  show ?thesis
  proof (cases "mu M")
    case None
    obtain p where p: "m_threads M t = Some p" "\<forall>r. p \<noteq> Finish r" using assms(2) by (auto simp: idle_cases)
    then have g: "guarded p (length (m_slots M)) False" using assms(1) None by (auto simp: machine_ok_def)
    show ?thesis
    proof (cases "accessing p")
      case False
      then obtain q where "p = Lock q" using p g by (cases p) auto
      then have "advance t M = Some (M\<lparr>mu := Some t, m_threads := (m_threads M)(t \<mapsto> q)\<rparr>)"
        using p None by (simp add: advance_def)
      then show ?thesis by (blast intro: run_step.run)
    qed (use acc p in blast)
  next
    case (Some u)
    then obtain p where p: "m_threads M u = Some p" "guarded p (length (m_slots M)) True"
      using assms(1) machine_okD [OF assms(1), of u] by (auto simp: machine_ok_def)
    show ?thesis
    proof (cases "accessing p")
      case False
      then obtain q where "p = Unlock q" using p by (cases p) auto
      then have "advance u M = Some (M\<lparr>mu := None, m_threads := (m_threads M)(u \<mapsto> q)\<rparr>)"
        using p Some by (simp add: advance_def)
      then show ?thesis by (blast intro: run_step.run)
    qed (use acc p in blast)
  qed
qed

end
