(* ===== verification/LockProperties.thy ===== *)
theory LockProperties
  imports Locking SessionProperties
begin

text \<open>
  What the lock of the shared slots guarantees: the critical sections are atomic, so that
  interleaved accesses amount to the handlers of the model, one after the other; every
  request comes to an end; and which accesses race.
\<close>

section \<open>Critical sections as single steps\<close>

text \<open>A program from the lock on, until it unlocks.\<close>

primrec complete :: "'r prog \<Rightarrow> slot list \<Rightarrow> 'r prog \<times> slot list" where
  "complete (Finish r) ss = (Finish r, ss)"
| "complete (Lock p) ss = (Lock p, ss)"
| "complete (Unlock p) ss = (p, ss)"
| "complete (NumSlots f) ss = complete (f (length ss)) ss"
| "complete (ReadFixed k f) ss = complete (f (fixed (ss ! k))) ss"
| "complete (CopySlot k f) ss = complete (f (ss ! k)) ss"
| "complete (ReadLabel k f) ss = complete (f (Label (ss ! k))) ss"
| "complete (ReadInitialized k f) ss = complete (f (Initialized (ss ! k))) ss"
| "complete (ReadObjects k f) ss = complete (f (Objects (ss ! k))) ss"
| "complete (WriteLabel k l p) ss = complete p (write_slot k (\<lambda>s. s\<lparr>Label := l\<rparr>) ss)"
| "complete (WriteInitialized k b p) ss = complete p (write_slot k (\<lambda>s. s\<lparr>Initialized := b\<rparr>) ss)"
| "complete (WriteObjects k objs p) ss = complete p (write_slot k (\<lambda>s. s\<lparr>Objects := objs\<rparr>) ss)"

text \<open>A program up to where it locks or finishes: until then it only reads what never changes.\<close>

primrec norm :: "'r prog \<Rightarrow> slot list \<Rightarrow> 'r prog" where
  "norm (Finish r) ss = Finish r"
| "norm (Lock p) ss = Lock p"
| "norm (Unlock p) ss = Unlock p"
| "norm (NumSlots f) ss = norm (f (length ss)) ss"
| "norm (ReadFixed k f) ss = norm (f (fixed (ss ! k))) ss"
| "norm (CopySlot k f) ss = norm (f (fixed (ss ! k))) ss"
| "norm (ReadLabel k f) ss = ReadLabel k f"
| "norm (ReadInitialized k f) ss = ReadInitialized k f"
| "norm (ReadObjects k f) ss = ReadObjects k f"
| "norm (WriteLabel k l p) ss = WriteLabel k l p"
| "norm (WriteInitialized k b p) ss = WriteInitialized k b p"
| "norm (WriteObjects k objs p) ss = WriteObjects k objs p"

text \<open>The specification: a connection executes a whole critical section in one step.\<close>

type_synonym sections = "(nat \<Rightarrow> outcome prog option) \<times> slot list"

inductive section_step :: "sections \<Rightarrow> sections \<Rightarrow> bool" where
  critical: "T t = Some (Lock p) \<Longrightarrow> complete p ss = (q, ss') \<Longrightarrow>
    section_step (T, ss) (T(t \<mapsto> norm q ss'), ss')"
| start: "T t = None \<or> T t = Some (Finish r) \<Longrightarrow> server_prog p \<Longrightarrow>
    section_step (T, ss) (T(t \<mapsto> norm p ss), ss)"
| close: "T t = None \<or> T t = Some (Finish r) \<Longrightarrow> section_step (T, ss) (T(t := None), ss)"

abbreviation section_steps :: "sections \<Rightarrow> sections \<Rightarrow> bool" where
  "section_steps \<equiv> section_step\<^sup>*\<^sup>*"

text \<open>The section of the connection that has the lock counts as done.\<close>

definition sections_of :: "machine \<Rightarrow> sections" where
  "sections_of M =
     (case mu M of
        None \<Rightarrow> (\<lambda>u. map_option (\<lambda>p. norm p (m_slots M)) (m_threads M u), m_slots M)
      | Some t \<Rightarrow>
          (case complete (the (m_threads M t)) (m_slots M) of
             (q, ss) \<Rightarrow> (\<lambda>u. if u = t then Some (norm q ss)
                else map_option (\<lambda>p. norm p ss) (m_threads M u), ss)))"

lemma complete_fixed:
  "complete p ss = (q, ss') \<Longrightarrow> guarded p (length ss) True \<Longrightarrow>
     guarded q (length ss) False \<and> map fixed ss' = map fixed ss"
proof (induction p arbitrary: ss)
  case (WriteLabel k l p)
  show ?case using WriteLabel.IH [of "write_slot k (\<lambda>s. s\<lparr>Label := l\<rparr>) ss"] WriteLabel.prems
    by (simp add: map_fixed_write)
next
  case (WriteInitialized k b p)
  show ?case using WriteInitialized.IH [of "write_slot k (\<lambda>s. s\<lparr>Initialized := b\<rparr>) ss"]
      WriteInitialized.prems
    by (simp add: map_fixed_write)
next
  case (WriteObjects k objs p)
  show ?case using WriteObjects.IH [of "write_slot k (\<lambda>s. s\<lparr>Objects := objs\<rparr>) ss"]
      WriteObjects.prems
    by (simp add: map_fixed_write)
next
  case (NumSlots f)
  show ?case using NumSlots.IH [OF rangeI] NumSlots.prems by (simp; blast)
next
  case (ReadFixed k f)
  show ?case using ReadFixed.IH [OF rangeI] ReadFixed.prems by (simp; blast)
next
  case (ReadLabel k f)
  show ?case using ReadLabel.IH [OF rangeI] ReadLabel.prems by (simp; blast)
next
  case (ReadInitialized k f)
  show ?case using ReadInitialized.IH [OF rangeI] ReadInitialized.prems by (simp; blast)
next
  case (ReadObjects k f)
  show ?case using ReadObjects.IH [OF rangeI] ReadObjects.prems by (simp; blast)
qed auto

lemma fixed_nth: "map fixed ss' = map fixed ss \<Longrightarrow> k < length ss \<Longrightarrow> fixed (ss' ! k) = fixed (ss ! k)"
  by (metis length_map nth_map)

lemma norm_cong:
  "guarded p (length ss) False \<Longrightarrow> map fixed ss' = map fixed ss \<Longrightarrow> norm p ss' = norm p ss"
proof (induction p)
  case (NumSlots f)
  then show ?case using map_eq_imp_length_eq [OF NumSlots.prems(2)] by (simp add: rangeI)
next
  case (ReadFixed k f)
  then have g: "k < length ss" "guarded (f (fixed (ss ! k))) (length ss) False" by simp_all
  show ?case
    unfolding norm.simps fixed_nth [OF ReadFixed.prems(2) g(1)]
    by (rule ReadFixed.IH [OF rangeI g(2) ReadFixed.prems(2)])
next
  case (CopySlot k f)
  then have g: "k < length ss" "guarded (f (fixed (ss ! k))) (length ss) False"
    unfolding guarded.simps by blast+
  show ?case
    unfolding norm.simps fixed_nth [OF CopySlot.prems(2) g(1)]
    by (rule CopySlot.IH [OF rangeI g(2) CopySlot.prems(2)])
qed auto

lemma access_norm:
  assumes "access p ss = Some (p', ss')" and "guarded p (length ss) False"
  shows "ss' = ss \<and> norm p' ss = norm p ss \<and> guarded p' (length ss) False"
proof (cases p)
  case (CopySlot k f)
  then have g: "f (ss ! k) = f (fixed (ss ! k))" "guarded (f (ss ! k)) (length ss) False" "k < length ss"
    using assms(2) unfolding CopySlot guarded.simps by blast+
  have "p' = f (ss ! k)" "ss' = ss" using assms(1) g(3) unfolding CopySlot by auto
  then show ?thesis using g(2) unfolding CopySlot norm.simps g(1) [symmetric] by blast
qed (use assms in \<open>auto split: if_splits\<close>)

lemma access_complete:
  "access p ss = Some (p', ss') \<Longrightarrow> complete p' ss' = complete p ss"
  by (cases p) (auto split: if_splits)

lemma sections_locked:
  "mu M = Some t \<Longrightarrow> m_threads M t = Some p \<Longrightarrow> complete p (m_slots M) = (q, ss) \<Longrightarrow>
    sections_of M = (\<lambda>u. if u = t then Some (norm q ss)
      else map_option (\<lambda>p. norm p ss) (m_threads M u), ss)"
  by (simp add: sections_of_def)

lemma run_step_sections:
  assumes "run_step M M'" and ok: "machine_ok ss0 M"
  shows "sections_of M' = sections_of M \<or> section_step (sections_of M) (sections_of M')"
  using assms(1)
proof cases
  case (run t)
  then show ?thesis
  proof (cases rule: advance_cases)
    case (lock p)
    obtain q ss where q: "complete p (m_slots M) = (q, ss)" by (cases "complete p (m_slots M)")
    have g: "guarded p (length (m_slots M)) True" using machine_okD [OF ok lock(1)] by simp
    have s: "sections_of M = (\<lambda>u. map_option (\<lambda>p. norm p (m_slots M)) (m_threads M u), m_slots M)"
      using lock by (simp add: sections_of_def)
    have "norm r ss = norm r (m_slots M)" if "m_threads M u = Some r" for u r
      using machine_okD [OF ok that] lock(2) complete_fixed [OF q g] norm_cong [of r "m_slots M" ss] by simp
    then have "sections_of M' = ((fst (sections_of M))(t \<mapsto> norm q ss), ss)"
      using lock q s by (auto simp: sections_of_def fun_eq_iff map_option_case split: option.split)
    moreover have "section_step (sections_of M) ((fst (sections_of M))(t \<mapsto> norm q ss), ss)"
      unfolding s fst_conv by (rule section_step.critical [OF _ q]) (simp add: lock)
    ultimately show ?thesis by simp
  next
    case (unlock p)
    then have "mu M = Some t" using machine_okD [OF ok unlock(1)] by simp
    then have "sections_of M' = sections_of M"
      using unlock by (auto simp: sections_of_def fun_eq_iff)
    then show ?thesis ..
  next
    case (access p p' ss')
    have "sections_of M' = sections_of M"
    proof (cases "mu M = Some t")
      case True
      obtain q ss where q: "complete p (m_slots M) = (q, ss)" by (cases "complete p (m_slots M)")
      then have "complete p' ss' = (q, ss)" using access_complete [OF access(2)] by simp
      then show ?thesis
        using sections_locked [OF True access(1) q] access True
          sections_locked [of M' t p' q ss] by (auto simp: fun_eq_iff)
    next
      case False
      then have g: "guarded p (length (m_slots M)) False" using machine_okD [OF ok access(1)] by simp
      note n = access_norm [OF access(2) g]
      show ?thesis
      proof (cases "mu M")
        case None
        then show ?thesis using access n by (auto simp: sections_of_def fun_eq_iff)
      next
        case (Some u)
        then obtain r where r: "m_threads M u = Some r" "guarded r (length (m_slots M)) True"
          using ok machine_okD [OF ok, of u] by (auto simp: machine_ok_def)
        obtain q ss where q: "complete r (m_slots M) = (q, ss)" by (cases "complete r (m_slots M)")
        have "norm p' ss = norm p ss"
          using complete_fixed [OF q r(2)] n g norm_cong [of _ "m_slots M" ss] by metis
        moreover have "u \<noteq> t" using False Some by auto
        ultimately show ?thesis
          using sections_locked [OF Some r(1) q] sections_locked [of M' u r q ss] access n Some r q
          by (auto simp: fun_eq_iff)
      qed
    qed
    then show ?thesis ..
  qed
qed

lemma idle_sections:
  assumes "idle M t" and ok: "machine_ok ss0 M"
  shows "fst (sections_of M) t = None \<or> (\<exists>r. fst (sections_of M) t = Some (Finish r))"
    and "sections_of (M\<lparr>m_threads := (m_threads M)(t := x)\<rparr>) =
      ((fst (sections_of M))(t := map_option (\<lambda>p. norm p (snd (sections_of M))) x), snd (sections_of M))"
proof -
  have "mu M \<noteq> Some t" by (rule idle_unlocked [OF ok assms(1)])
  then show "fst (sections_of M) t = None \<or> (\<exists>r. fst (sections_of M) t = Some (Finish r))"
    "sections_of (M\<lparr>m_threads := (m_threads M)(t := x)\<rparr>) =
      ((fst (sections_of M))(t := map_option (\<lambda>p. norm p (snd (sections_of M))) x), snd (sections_of M))"
    using assms(1) by (auto simp: sections_of_def idle_cases fun_eq_iff split: option.split prod.split)
qed

lemma mach_step_sections:
  assumes "mach_step M M'" and "machine_ok ss0 M"
  shows "sections_of M' = sections_of M \<or> section_step (sections_of M) (sections_of M')"
  using assms(1)
proof cases
  case go
  then show ?thesis using run_step_sections assms(2) by blast
next
  case (start t p)
  then show ?thesis
    using idle_sections [OF start(2) assms(2)] section_step.start [of "fst (sections_of M)" t _ p]
    by (cases "sections_of M") force
next
  case (close t)
  then show ?thesis
    using idle_sections [OF close(2) assms(2)] section_step.close [of "fst (sections_of M)" t]
    by (cases "sections_of M") force
qed

section \<open>The programs are the handlers\<close>

text \<open>A program run on its own.\<close>

primrec alone :: "'r prog \<Rightarrow> slot list \<Rightarrow> 'r \<times> slot list" where
  "alone (Finish r) ss = (r, ss)"
| "alone (Lock p) ss = alone p ss"
| "alone (Unlock p) ss = alone p ss"
| "alone (NumSlots f) ss = alone (f (length ss)) ss"
| "alone (ReadFixed k f) ss = alone (f (fixed (ss ! k))) ss"
| "alone (CopySlot k f) ss = alone (f (ss ! k)) ss"
| "alone (ReadLabel k f) ss = alone (f (Label (ss ! k))) ss"
| "alone (ReadInitialized k f) ss = alone (f (Initialized (ss ! k))) ss"
| "alone (ReadObjects k f) ss = alone (f (Objects (ss ! k))) ss"
| "alone (WriteLabel k l p) ss = alone p (write_slot k (\<lambda>s. s\<lparr>Label := l\<rparr>) ss)"
| "alone (WriteInitialized k b p) ss = alone p (write_slot k (\<lambda>s. s\<lparr>Initialized := b\<rparr>) ss)"
| "alone (WriteObjects k objs p) ss = alone p (write_slot k (\<lambda>s. s\<lparr>Objects := objs\<rparr>) ss)"

text \<open>So the outcome of a finished request is what it computes from its critical section on.\<close>

lemma alone_norm: "guarded p (length ss) False \<Longrightarrow> alone (norm p ss) ss = alone p ss"
proof (induction p)
  case (CopySlot k f)
  then have g: "f (ss ! k) = f (fixed (ss ! k))" "guarded (f (fixed (ss ! k))) (length ss) False"
    unfolding guarded.simps by blast+
  show ?case unfolding norm.simps alone.simps g(1) by (rule CopySlot.IH [OF rangeI g(2)])
qed (simp_all add: rangeI)

lemma guarded_norm: "guarded p (length ss) False \<Longrightarrow> guarded (norm p ss) (length ss) False"
proof (induction p)
  case (CopySlot k f)
  then have "guarded (f (fixed (ss ! k))) (length ss) False" unfolding guarded.simps by blast
  then show ?case unfolding norm.simps by (rule CopySlot.IH [OF rangeI])
qed (simp_all add: rangeI)

lemma alone_complete: "complete p ss = (q, ss') \<Longrightarrow> alone p ss = alone q ss'"
  by (induction p arbitrary: ss) (auto simp: rangeI)

lemma alone_slot_prog:
  "alone (slot_prog i found missing) ss =
     (case slot_index ss i of
        None \<Rightarrow> alone (missing (Pkcs11 errSlotIDInvalid)) ss | Some k \<Rightarrow> alone (found k) ss)"
proof -
  have "alone (find_slot i [j..<j + length us] found m) (ts @ us) =
      (case slot_index us i of None \<Rightarrow> alone m (ts @ us) | Some k \<Rightarrow> alone (found (j + k)) (ts @ us))"
    if "j = length ts" for j ts us m
    using that
  proof (induction us arbitrary: j ts)
    case (Cons u us)
    have "[j..<j + length (u # us)] = j # [Suc j..<Suc j + length us]" by (simp add: upt_conv_Cons del: upt_Suc)
    then show ?case using Cons.IH [of "Suc j" "ts @ [u]"] Cons.prems
      by (auto simp: nth_append option.case_eq_if)
  qed simp
  from this [of 0 "[]" ss] show ?thesis by (simp add: slot_prog_def cong: option.case_cong)
qed

lemma alone_checked:
  "alone (checked_prog req p) ss = (case err req of Some e \<Rightarrow> (Reply (Inl e), ss) | None \<Rightarrow> alone p ss)"
  by (simp add: checked_prog_def split: option.split)

lemma alone_range:
  "alone (range_prog ks sli f) ss = alone (f (sli @ map (\<lambda>k. slot_ID (ss ! k)) ks)) ss"
  by (induction ks arbitrary: sli) simp_all

lemma persist_alone:
  "alone (persist_prog i objs) (Slots (server st)) =
     (Persisted (fst (persist_tokens i objs st)), Slots (server (snd (persist_tokens i objs st))))"
proof (induction objs arbitrary: st)
  case (Cons obj objs)
  show ?case
  proof (cases "is_token obj")
    case True
    let ?st = "\<lambda>k. st\<lparr>server := update_slot k (\<lambda>s. s\<lparr>Objects := Objects s @ [obj]\<rparr>) (server st)\<rparr>"
    show ?thesis using True Cons.IH [of "?st k" for k]
      by (auto simp: alone_slot_prog persistObject_def handler_slot_def act_bind_def update_slot_def
          split: option.split)
  qed (simp add: Cons.IH)
qed simp

lemmas alone_simps = alone_slot_prog alone_checked alone_range checked_def get_slot_def
  handler_slot_def act_bind_def

lemma slot_index_length: "slot_index ss i = Some k \<Longrightarrow> k < length ss"
  using slot_index_Some by blast

definition does :: "outcome prog \<Rightarrow> ('w state, body) act \<Rightarrow> 'w state \<Rightarrow> bool" where
  "does p m st \<longleftrightarrow> alone p (Slots (server st)) = (Reply (fst (m st)), Slots (server (snd (m st))))"

text \<open>
  Each program, run on its own, is the handler of the model: it answers the same and
  leaves the same slots, and \<^verbatim>\<open>newSession\<close> and \<^verbatim>\<open>handleGetMechanismInfo\<close> are what the model makes
  of the values that their programs read.
\<close>

lemma programs_are_handlers:
  "does (slotInfo_prog req) (handleGetSlotInfo req) st \<and>
   does (tokenInfo_prog req) (handleGetTokenInfo req) st \<and>
   does (initToken_prog req) (handleInitToken req) st \<and>
   does (mechanismList_prog req) (handleGetMechanismList req) st \<and>
   does (slotList_prog req) (handleGetSlotList req) st \<and>
   alone (persist_prog i objs) (Slots (server st)) =
     (Persisted (fst (persist_tokens i objs st)), Slots (server (snd (persist_tokens i objs st)))) \<and>
   newSession env i st =
     (case fst (alone (newSession_prog i) (Slots (server st))) of
        Snapshot (Inr (objs, s)) \<Rightarrow>
          act_bind (case GetObjects s of None \<Rightarrow> act_return objs | Some cb \<Rightarrow> on_world (env_GetObjects env cb))
            (\<lambda>objs st. case add_session (fresh_session i objs) (conn st) of
               None \<Rightarrow> (Inl NonTermination, st) | Some (j, h) \<Rightarrow> (Inr j, st\<lparr>conn := h\<rparr>)) st
      | Snapshot (Inl e) \<Rightarrow> (Inl e, st)) \<and>
   (case fst (alone (mechanismInfo_prog i) (Slots (server st))) of
      Copied (Inr s) \<Rightarrow> \<exists>s'. get_slot i st = (Inr s', st) \<and>
        slot_mechanismInfo env s m = slot_mechanismInfo env s' m
    | Copied (Inl e) \<Rightarrow> get_slot i st = (Inl e, st))"
proof -
  note d = does_def Let_def case_prod_beta
  have "does (slotInfo_prog req) (handleGetSlotInfo req) st"
    by (auto simp: d slotInfo_prog_def handleGetSlotInfo_def alone_simps fixed_def split: option.split)
  moreover have "does (tokenInfo_prog req) (handleGetTokenInfo req) st"
    by (auto simp: d tokenInfo_prog_def handleGetTokenInfo_def alone_simps fixed_def token_info_def
        split: option.split)
  moreover have "does (initToken_prog req) (handleInitToken req) st"
    by (auto simp: d initToken_prog_def handleInitToken_def init_token_def update_slot_def alone_simps
        slot_index_length split: option.split)
  moreover have "does (mechanismList_prog req) (handleGetMechanismList req) st"
    by (auto simp: d mechanismList_prog_def handleGetMechanismList_def alone_simps split: option.split)
  moreover have "does (slotList_prog req) (handleGetSlotList req) st"
    by (auto simp: d slotList_prog_def handleGetSlotList_def alone_simps split: option.split
        intro!: arg_cong [of _ _ "\<lambda>l. writeUlongArray _ (Some l) 0"] nth_equalityI)
  moreover have "newSession env i st =
     (case fst (alone (newSession_prog i) (Slots (server st))) of
        Snapshot (Inr (objs, s)) \<Rightarrow>
          act_bind (case GetObjects s of None \<Rightarrow> act_return objs | Some cb \<Rightarrow> on_world (env_GetObjects env cb))
            (\<lambda>objs st. case add_session (fresh_session i objs) (conn st) of
               None \<Rightarrow> (Inl NonTermination, st) | Some (j, h) \<Rightarrow> (Inr j, st\<lparr>conn := h\<rparr>)) st
      | Snapshot (Inl e) \<Rightarrow> (Inl e, st))"
    by (auto simp: newSession_prog_def newSession_def alone_slot_prog handler_slot_def slot_objects_def
        act_bind_def split: option.split)
  moreover have "case fst (alone (mechanismInfo_prog i) (Slots (server st))) of
      Copied (Inr s) \<Rightarrow> \<exists>s'. get_slot i st = (Inr s', st) \<and>
        slot_mechanismInfo env s m = slot_mechanismInfo env s' m
    | Copied (Inl e) \<Rightarrow> get_slot i st = (Inl e, st)"
    by (auto simp: mechanismInfo_prog_def alone_simps slot_mechanismInfo_def fixed_def split: option.split)
  ultimately show ?thesis using persist_alone by blast
qed

lemma section_is_request:
  assumes "guarded p (length ss) False" and "map fixed ss1 = map fixed ss" and "norm p ss1 = Lock q"
    and "complete q ss = (q', ss')" and "norm q' ss' = Finish r"
  shows "alone p ss = (r, ss')"
proof -
  have "norm p ss = Lock q" using norm_cong [OF assms(1,2)] assms(3) by simp
  then have g: "alone p ss = alone q' ss'" "guarded q (length ss) True"
    using alone_norm [OF assms(1)] alone_complete [OF assms(4)] guarded_norm [OF assms(1)] by simp_all
  then have "guarded q' (length ss') False"
    using complete_fixed [OF assms(4)] map_eq_imp_length_eq by metis
  then show ?thesis using alone_norm [of q' ss'] assms(5) g(1) by simp
qed


section \<open>Slots grow with every access\<close>

text \<open>
  The writes that a program makes, if the slots stay as they are while it has the lock, only
  let the slots grow: whatever they are when it takes the lock, and whatever it went by before.
\<close>

primrec growing :: "'r prog \<Rightarrow> slot list \<Rightarrow> bool" where
  "growing (Finish r) ss \<longleftrightarrow> True"
| "growing (Lock p) ss \<longleftrightarrow> (\<forall>ss'. map fixed ss' = map fixed ss \<longrightarrow> growing p ss')"
| "growing (Unlock p) ss \<longleftrightarrow> growing p ss"
| "growing (NumSlots f) ss \<longleftrightarrow> growing (f (length ss)) ss"
| "growing (ReadFixed k f) ss \<longleftrightarrow> growing (f (fixed (ss ! k))) ss"
| "growing (CopySlot k f) ss \<longleftrightarrow> growing (f (ss ! k)) ss"
| "growing (ReadLabel k f) ss \<longleftrightarrow> growing (f (Label (ss ! k))) ss"
| "growing (ReadInitialized k f) ss \<longleftrightarrow> growing (f (Initialized (ss ! k))) ss"
| "growing (ReadObjects k f) ss \<longleftrightarrow> growing (f (Objects (ss ! k))) ss"
| "growing (WriteLabel k l p) ss \<longleftrightarrow> (Initialized (ss ! k) \<longrightarrow> l = Label (ss ! k)) \<and>
     growing p (write_slot k (\<lambda>s. s\<lparr>Label := l\<rparr>) ss)"
| "growing (WriteInitialized k b p) ss \<longleftrightarrow> (Initialized (ss ! k) \<longrightarrow> b) \<and>
     growing p (write_slot k (\<lambda>s. s\<lparr>Initialized := b\<rparr>) ss)"
| "growing (WriteObjects k objs p) ss \<longleftrightarrow> (\<exists>new. objs = Objects (ss ! k) @ new) \<and>
     growing p (write_slot k (\<lambda>s. s\<lparr>Objects := objs\<rparr>) ss)"

lemma growing_cong:
  "guarded p (length ss) False \<Longrightarrow> map fixed ss' = map fixed ss \<Longrightarrow> growing p ss \<Longrightarrow> growing p ss'"
proof (induction p)
  case (NumSlots f)
  then show ?case using map_eq_imp_length_eq [OF NumSlots.prems(2)] by (simp add: rangeI)
next
  case (ReadFixed k f)
  then have g: "k < length ss" "guarded (f (fixed (ss ! k))) (length ss) False" by simp_all
  show ?case
    unfolding growing.simps fixed_nth [OF ReadFixed.prems(2) g(1)]
    by (rule ReadFixed.IH [OF rangeI g(2) ReadFixed.prems(2)]) (use ReadFixed.prems(3) in simp)
next
  case (CopySlot k f)
  then have g: "k < length ss" "f (ss ! k) = f (fixed (ss ! k))" "f (ss' ! k) = f (fixed (ss' ! k))"
    "guarded (f (fixed (ss ! k))) (length ss) False"
    unfolding guarded.simps by blast+
  show ?case
    unfolding growing.simps g(3) fixed_nth [OF CopySlot.prems(2) g(1)]
    by (rule CopySlot.IH [OF rangeI g(4) CopySlot.prems(2)]) (use CopySlot.prems(3) g(2) in simp)
qed simp_all

lemma growing_slot_prog:
  assumes "\<And>k. growing (found k) ss" and "\<And>e. growing (missing e) ss"
  shows "growing (slot_prog i found missing) ss"
proof -
  have "growing (find_slot i ks found m) ss" if "growing m ss" for ks m
    using that by (induction ks) (simp_all add: assms(1))
  then show ?thesis by (simp add: slot_prog_def assms(2))
qed

lemma growing_range: "(\<And>sli. growing (f sli) ss) \<Longrightarrow> growing (range_prog ks sli f) ss"
  by (induction ks arbitrary: sli) simp_all

lemma growing_checked: "growing p ss \<Longrightarrow> growing (checked_prog req p) ss"
  by (simp add: checked_prog_def split: option.split)

lemma growing_persist: "growing (persist_prog i objs) ss"
proof (induction i objs arbitrary: ss rule: persist_prog.induct)
  case (2 i obj objs)
  then show ?case by (auto intro!: growing_slot_prog)
qed simp

lemma growing_init: "growing (initToken_prog req) ss"
  unfolding initToken_prog_def Let_def case_prod_beta
proof (intro growing_checked growing_slot_prog)
  show "growing (Lock (ReadInitialized k (\<lambda>initialized.
      if initialized then Unlock (failed e) else WriteLabel k l (WriteInitialized k True
        (Unlock (Finish (Reply (Inr resp)))))))) ss" for k l e resp
    by (auto simp: nth_list_update)
qed simp

lemma server_prog_growing: "server_prog p \<Longrightarrow> growing p ss"
proof (induction rule: server_prog.induct)
  case (2 req)
  show ?case by (rule growing_init)
next
  case (7 slotID objs)
  show ?case by (rule growing_persist)
qed (auto simp: tokenInfo_prog_def mechanismList_prog_def slotList_prog_def mechanismInfo_prog_def
    newSession_prog_def slotInfo_prog_def Let_def case_prod_beta
    intro!: growing_checked growing_slot_prog growing_range)

lemma slot_le_writes:
  "(Initialized s \<longrightarrow> l = Label s) \<Longrightarrow> slot_le s (s\<lparr>Label := l\<rparr>)"
  "(Initialized s \<longrightarrow> b) \<Longrightarrow> slot_le s (s\<lparr>Initialized := b\<rparr>)"
  "slot_le s (s\<lparr>Objects := Objects s @ new\<rparr>)"
  unfolding slot_le_def
  subgoal by (intro exI [of _ l] exI [of _ "Initialized s"] exI [of _ "[]"]) simp
  subgoal by (intro exI [of _ "Label s"] exI [of _ b] exI [of _ "[]"]) simp
  subgoal by (intro exI [of _ "Label s"] exI [of _ "Initialized s"] exI [of _ new]) simp
  done

abbreviation slots_le :: "slot list \<Rightarrow> slot list \<Rightarrow> bool" where
  "slots_le \<equiv> list_all2 slot_le"

lemma slots_le_refl: "slots_le ss ss"
  by (simp add: list_all2_refl)

lemma slots_le_write: "slot_le (ss ! k) s \<Longrightarrow> slots_le ss (ss[k := s])"
  by (cases "k < length ss")
    (auto simp: list_all2_conv_all_nth nth_list_update list_update_beyond)

lemma access_growing:
  "access p ss = Some (p', ss') \<Longrightarrow> growing p ss \<Longrightarrow> growing p' ss' \<and> slots_le ss ss'"
  by (cases p) (auto simp: slots_le_refl slot_le_writes intro!: slots_le_write split: if_splits)

lemma access_reads: "access p ss = Some (p', ss') \<Longrightarrow> writes p = {} \<Longrightarrow> ss' = ss"
  by (cases p) (auto split: if_splits)

definition machine_growing :: "slot list \<Rightarrow> machine \<Rightarrow> bool" where
  "machine_growing ss M \<longleftrightarrow> machine_ok ss M \<and>
     (\<forall>t p. m_threads M t = Some p \<longrightarrow> growing p (m_slots M))"

lemma run_step_growing:
  assumes "run_step M M'" and "machine_growing ss M"
  shows "machine_growing ss M' \<and> slots_le (m_slots M) (m_slots M')"
  using assms(1)
proof cases
  case (run t)
  have ok: "machine_ok ss M" "machine_ok ss M'" using assms run_step_ok by (auto simp: machine_growing_def)
  have grow: "growing p (m_slots M)" if "m_threads M u = Some p" for u p
    using assms(2) that by (simp add: machine_growing_def)
  from run show ?thesis
  proof (cases rule: advance_cases)
    case (lock p)
    have "growing p (m_slots M)" using grow [OF lock(1)] by simp
    then show ?thesis using lock ok grow by (auto simp: machine_growing_def slots_le_refl)
  next
    case (unlock p)
    have "growing p (m_slots M)" using grow [OF unlock(1)] by simp
    then show ?thesis using unlock ok grow by (auto simp: machine_growing_def slots_le_refl)
  next
    case (access p p' ss')
    note own = access_growing [OF access(2) grow [OF access(1)]]
    have other: "growing q ss'" if q: "m_threads M u = Some q" "u \<noteq> t" for u q
    proof (cases "writes p = {}")
      case True
      then show ?thesis using access_reads [OF access(2)] grow [OF q(1)] by simp
    next
      case False
      then have "mu M = Some t" using writes_guarded machine_okD [OF ok(1) access(1)] by blast
      then have "guarded q (length (m_slots M)) False" using machine_okD [OF ok(1) q(1)] q(2) by simp
      moreover have "map fixed ss' = map fixed (m_slots M)"
        using access_ok [OF machine_okD [OF ok(1) access(1)] access_accessing [OF access(2)]] access(2) by auto
      ultimately show ?thesis using growing_cong grow [OF q(1)] by blast
    qed
    then show ?thesis using access own ok by (auto simp: machine_growing_def)
  qed
qed

lemma mach_step_growing:
  "mach_step M M' \<Longrightarrow> machine_growing ss M \<Longrightarrow> machine_growing ss M' \<and> slots_le (m_slots M) (m_slots M')"
proof (induction rule: mach_step.induct)
  case (go M M')
  then show ?case using run_step_growing by blast
next
  case (start M t p)
  then have "machine_ok ss (M\<lparr>m_threads := (m_threads M)(t \<mapsto> p)\<rparr>)"
    using mach_step_ok [OF mach_step.start] by (simp add: machine_growing_def)
  then show ?case using start server_prog_growing by (simp add: machine_growing_def slots_le_refl)
next
  case (close M t)
  then have "machine_ok ss (M\<lparr>m_threads := (m_threads M)(t := None)\<rparr>)"
    using mach_step_ok [OF mach_step.close] by (simp add: machine_growing_def)
  then show ?case using close by (simp add: machine_growing_def slots_le_refl)
qed

interpretation growth: step_invariant mach_step "machine_growing ss"
  by unfold_locales (simp add: mach_step_growing)

lemma machine_start_growing: "machine_growing ss (machine_start ss)"
  using machine_start_ok [of ss] by (simp add: machine_growing_def machine_start_def)

lemma mach_steps_growing:
  assumes "mach_steps M M'" and "machine_growing ss M"
  shows "slots_le (m_slots M) (m_slots M')"
  using assms(1)
proof (induction rule: rtranclp_induct)
  case (step S T)
  then have "slots_le (m_slots S) (m_slots T)"
    using mach_step_growing growth.steps_preserve assms(2) by blast
  then show ?case using step.IH list_all2_trans [of slot_le slot_le slot_le] slot_le_trans by blast
qed (rule slots_le_refl)

section \<open>Guarantees of the lock\<close>

text \<open>
  C4: However the accesses of the connections to the slots interleave, the slots and what each
  connection has computed are those of a run in which every critical section is one step;
  and a section that ends a request answers as the whole request, on its own, would have at
  that moment, on slots that others may have changed since it started.
\<close>

theorem critical_sections_atomic:
  assumes "mach_steps (machine_start ss) M"
  shows "section_steps (Map.empty, ss) (sections_of M) \<and>
    (mu M = None \<longrightarrow> snd (sections_of M) = m_slots M) \<and>
    (\<forall>t r. m_threads M t = Some (Finish r) \<longrightarrow> fst (sections_of M) t = Some (Finish r)) \<and>
    (\<forall>p ss1 ss2 q q' ss' r. server_prog p \<and> map fixed ss1 = map fixed ss2 \<and>
      norm p ss1 = Lock q \<and> complete q ss2 = (q', ss') \<and> norm q' ss' = Finish r \<longrightarrow>
      alone p ss2 = (r, ss'))"
proof (intro conjI)
  show "\<forall>p ss1 ss2 q q' ss' r. server_prog p \<and> map fixed ss1 = map fixed ss2 \<and>
      norm p ss1 = Lock q \<and> complete q ss2 = (q', ss') \<and> norm q' ss' = Finish r \<longrightarrow>
      alone p ss2 = (r, ss')"
    by (intro allI impI, elim conjE) (rule section_is_request [OF server_prog_guarded])
next
  show "section_steps (Map.empty, ss) (sections_of M)"
    using assms
  proof (induction rule: rtranclp_induct)
    case base
    then show ?case by (simp add: sections_of_def machine_start_def)
  next
    case (step M M')
    have "sections_of M' = sections_of M \<or> section_step (sections_of M) (sections_of M')"
      by (rule mach_step_sections [OF step.hyps(2) reachable_ok [OF step.hyps(1)]])
    then show ?case using step.IH by (metis rtranclp.rtrancl_into_rtrancl)
  qed
  show "mu M = None \<longrightarrow> snd (sections_of M) = m_slots M" by (simp add: sections_of_def)
  show "\<forall>t r. m_threads M t = Some (Finish r) \<longrightarrow> fst (sections_of M) t = Some (Finish r)"
  proof (intro allI impI)
    fix t r assume t: "m_threads M t = Some (Finish r)"
    then have "mu M \<noteq> Some t" using idle_unlocked [OF reachable_ok [OF assms]] by (simp add: idle_cases)
    then show "fst (sections_of M) t = Some (Finish r)"
      using t by (auto simp: sections_of_def split: option.split prod.split)
  qed
qed

text \<open>
  C6: No request waits for the lock forever, for no connection stops while it has it: whatever
  state the server is in, the requests in progress finish after finitely many accesses in
  any order, if no new ones start, and the server never stands still before that.
\<close>

theorem requests_finish:
  assumes "mach_steps (machine_start ss) M"
  shows "\<exists>N. (\<forall>k M'. (run_step ^^ k) M M' \<longrightarrow> k \<le> N) \<and>
    (\<forall>M'. run_step\<^sup>*\<^sup>* M M' \<and> (\<nexists>M''. run_step M' M'') \<longrightarrow> mu M' = None \<and> (\<forall>t. idle M' t))"
proof -
  have "machine_bounded (machine_start ss)"
    unfolding machine_bounded_def machine_within_def machine_start_def by auto
  then obtain N where N: "machine_within M N"
    using bounded.steps_preserve [OF assms] unfolding machine_bounded_def by blast
  have "mu M' = None \<and> (\<forall>t. idle M' t)" if "run_step\<^sup>*\<^sup>* M M'" "\<nexists>M''. run_step M' M''" for M'
  proof -
    have ok: "machine_ok ss M'" using running.steps_preserve [OF that(1)] reachable_ok [OF assms] by blast
    then have idle: "idle M' t" for t using someone_runs that(2) by blast
    then show ?thesis using idle_unlocked [OF ok] by (cases "mu M'") auto
  qed
  then show ?thesis using runs_within N by blast
qed

text \<open>
  C11: A connection that unlocks has the lock, so Go never stops the server for an unlock of an
  unlocked mutex; and two connections race for a field of a slot only where one copies the whole
  slot without the lock, of which it then uses nothing that is ever written. (The arrays of
  objects behind the fields are another matter: C17.)
\<close>

theorem only_copies_race:
  assumes "mach_steps (machine_start ss) M"
  shows "(\<forall>t p. m_threads M t = Some (Unlock p) \<longrightarrow> mu M = Some t) \<and>
    (\<forall>t u. slot_race M t u \<longrightarrow>
      mu M = Some t \<and> (\<exists>k f. m_threads M u = Some (CopySlot k f) \<and> (\<forall>s. f s = f (fixed s))))"
proof (intro conjI allI impI)
  note ok = reachable_ok [OF assms]
  fix t p assume "m_threads M t = Some (Unlock p)"
  then show "mu M = Some t" using machine_okD [OF ok] by fastforce
next
  note ok = reachable_ok [OF assms]
  fix t u assume "slot_race M t u"
  then obtain p q where r: "t \<noteq> u" "m_threads M t = Some p" "m_threads M u = Some q"
    "writes p \<inter> (reads q \<union> writes q) \<noteq> {}"
    unfolding slot_race_def by blast
  then show mu: "mu M = Some t" using machine_okD [OF ok r(2)] writes_guarded by blast
  then have "guarded q (length (m_slots M)) False" using machine_okD [OF ok r(3)] r(1) by simp
  moreover have "(reads q \<union> writes q) - range FixedOf \<noteq> {}" using r(4) writes_not_fixed [of p] by blast
  ultimately show "\<exists>k f. m_threads M u = Some (CopySlot k f) \<and> (\<forall>s. f s = f (fixed s))"
    using shared_guarded r(3) by blast
qed

text \<open>
  C25: Access by access, whatever the other connections are about to do: of a slot only the
  label, the flag and the objects ever change, once the flag is set the token keeps its
  label, and no object is ever lost, not even when two connections append to the objects of
  one slot, each by a read and a write.
\<close>

theorem slots_grow_access_by_access:
  assumes "mach_steps (machine_start ss) M" and "mach_steps M M'"
  shows "map fixed (m_slots M) = map fixed ss \<and> length (m_slots M') = length (m_slots M) \<and>
    (\<forall>k < length (m_slots M).
      fixed (m_slots M' ! k) = fixed (m_slots M ! k) \<and>
      (\<exists>objs. Objects (m_slots M' ! k) = Objects (m_slots M ! k) @ objs) \<and>
      (Initialized (m_slots M ! k) \<longrightarrow>
        Initialized (m_slots M' ! k) \<and> Label (m_slots M' ! k) = Label (m_slots M ! k)))"
proof -
  have grow: "machine_growing ss M" by (rule growth.steps_preserve [OF assms(1) machine_start_growing])
  then have "machine_ok ss M" by (simp add: machine_growing_def)
  moreover have "slots_le (m_slots M) (m_slots M')" by (rule mach_steps_growing [OF assms(2) grow])
  ultimately show ?thesis
    by (auto simp: machine_ok_def list_all2_conv_all_nth slot_le_def fixed_def)
qed

section \<open>A race\<close>

definition put_thread :: "nat \<Rightarrow> outcome prog \<Rightarrow> machine \<Rightarrow> machine" where
  "put_thread t p M = M\<lparr>m_threads := (m_threads M)(t \<mapsto> p)\<rparr>"

lemma put_thread_simps [simp]:
  "m_slots (put_thread t p M) = m_slots M" "mu (put_thread t p M) = mu M"
  "m_threads (put_thread t p M) = (m_threads M)(t \<mapsto> p)"
  "put_thread t q (put_thread t p M) = put_thread t q M"
  by (simp_all add: put_thread_def)

lemma run_access:
  assumes "access p (m_slots M) = Some (p', m_slots M)"
  shows "run_step (put_thread t p M) (put_thread t p' M)"
  using assms access_accessing [OF assms]
  by (intro run_step.run [of t]) (cases p; simp add: advance_def put_thread_def)

lemma reach_norm:
  "guarded p (length (m_slots M)) False \<Longrightarrow>
     run_step\<^sup>*\<^sup>* (put_thread t p M) (put_thread t (norm p (m_slots M)) M)"
proof (induction p)
  case (NumSlots f)
  have "run_step (put_thread t (NumSlots f) M) (put_thread t (f (length (m_slots M))) M)"
    by (rule run_access) simp
  then show ?case using NumSlots.IH [OF rangeI] NumSlots.prems
    by (simp add: converse_rtranclp_into_rtranclp)
next
  case (ReadFixed k f)
  then have "run_step (put_thread t (ReadFixed k f) M) (put_thread t (f (fixed (m_slots M ! k))) M)"
    by (intro run_access) simp
  then show ?case using ReadFixed.IH [OF rangeI] ReadFixed.prems
    by (simp add: converse_rtranclp_into_rtranclp)
next
  case (CopySlot k f)
  then have g: "f (m_slots M ! k) = f (fixed (m_slots M ! k))" "k < length (m_slots M)"
    "guarded (f (fixed (m_slots M ! k))) (length (m_slots M)) False"
    unfolding guarded.simps by blast+
  have "run_step (put_thread t (CopySlot k f) M) (put_thread t (f (m_slots M ! k)) M)"
    by (rule run_access) (use g(2) in simp)
  then show ?case unfolding g(1) norm.simps
    by (rule converse_rtranclp_into_rtranclp) (rule CopySlot.IH [OF rangeI g(3)])
qed simp_all

lemma reach_copy:
  "k \<le> length (m_slots M) \<Longrightarrow> \<exists>sli. run_step\<^sup>*\<^sup>* (put_thread t (range_prog [0..<length (m_slots M)] [] f) M)
     (put_thread t (range_prog [k..<length (m_slots M)] sli f) M)"
proof (induction k)
  case (Suc k)
  then obtain sli where "run_step\<^sup>*\<^sup>* (put_thread t (range_prog [0..<length (m_slots M)] [] f) M)
     (put_thread t (range_prog [k..<length (m_slots M)] sli f) M)"
    by (meson Suc_leD)
  moreover have "run_step (put_thread t (range_prog [k..<length (m_slots M)] sli f) M)
     (put_thread t (range_prog [Suc k..<length (m_slots M)] (sli @ [slot_ID (m_slots M ! k)]) f) M)"
    using Suc.prems by (intro run_access) (simp add: upt_conv_Cons del: upt_Suc)
  ultimately show ?case by (meson rtranclp.rtrancl_into_rtrancl)
qed blast

lemma norm_slot_prog:
  "slot_index ss i = Some k \<Longrightarrow> norm (slot_prog i found missing) ss = norm (found k) ss"
proof -
  have "norm (find_slot i [j..<j + length us] found m) (ts @ us) = norm (found (j + k)) (ts @ us)"
    if "j = length ts" and "slot_index us i = Some k" for j ts us m k
    using that
  proof (induction us arbitrary: j ts k)
    case (Cons u us)
    have "[j..<j + length (u # us)] = j # [Suc j..<Suc j + length us]"
      by (simp add: upt_conv_Cons del: upt_Suc)
    then show ?case using Cons.IH [of "Suc j" "ts @ [u]"] Cons.prems
      by (auto simp: nth_append split: if_splits)
  qed simp
  from this [of 0 "[]" ss k] show "slot_index ss i = Some k \<Longrightarrow> ?thesis" by (simp add: slot_prog_def)
qed

text \<open>
  Listing the slots does race with initialising a token: while one connection is about to
  write the label of a slot, with the lock, another can be about to copy the same slot,
  label included, without it.
\<close>

lemma race_reachable:
  assumes "slot_index ss i = Some k" and "\<not> Initialized (ss ! k)" and "t \<noteq> u"
    and "length pin < 0xffffffff" and "length label < 0xffffffff" and "length ss \<le> unat n"
  shows "\<exists>M0 M. mach_steps (machine_start ss) M0 \<and>
    m_threads M0 = [t \<mapsto> initToken_prog (init_token_request i pin label),
      u \<mapsto> slotList_prog (slot_list_request present n)] \<and>
    run_step\<^sup>*\<^sup>* M0 M \<and> slot_race M t u"
proof -
  let ?p = "initToken_prog (init_token_request i pin label)"
  let ?q = "slotList_prog (slot_list_request present n)"
  let ?M0 = "put_thread u ?q (put_thread t ?p (machine_start ss))"
  note k = slot_index_length [OF assms(1)]
  have slots: "m_slots (machine_start ss) = ss" "mu (machine_start ss) = None"
    by (simp_all add: machine_start_def)
  have "mach_step (machine_start ss) (put_thread t ?p (machine_start ss))"
    unfolding put_thread_def by (rule mach_step.start) (simp_all add: idle_def machine_start_def server_prog.intros)
  moreover have "mach_step (put_thread t ?p (machine_start ss)) ?M0"
    unfolding put_thread_def [of u]
    by (rule mach_step.start) (use assms(3) in \<open>simp_all add: idle_def machine_start_def server_prog.intros\<close>)
  ultimately have start: "mach_steps (machine_start ss) ?M0"
    by (meson converse_rtranclp_into_rtranclp r_into_rtranclp)
  let ?w = "WriteLabel k (trim_right label (CHR '' '' # CHR 0x00 # [])) (WriteInitialized k True
    (Unlock (Finish (Reply (Inr (body_of callInitToken [] []))))))"
  let ?r = "ReadInitialized k (\<lambda>b. if b then Unlock (failed (Pkcs11 errCryptokiAlreadyInitialized)) else ?w)"
  have p: "norm ?p ss = Lock ?r"
    by (simp add: initToken_prog_def init_token_request_def request_simps checked_prog_def
        norm_slot_prog [OF assms(1)] assms(4,5) cong: if_cong)
  define f where "f = (\<lambda>sli. Finish (Reply (Inr (writeUlongArray (body_of callGetSlotList [] []) (Some sli) 0))))"
  have "n \<noteq> 0" using k assms(6) by auto
  then have q: "?q = NumSlots (\<lambda>count. if unat n < count then failed (Pkcs11 errBufferTooSmall)
      else range_prog [0..<count] [] f)"
    by (simp add: slotList_prog_def slot_list_request_def request_simps checked_prog_def f_def
        cong: if_cong)
  let ?S = "(machine_start ss)\<lparr>mu := Some t\<rparr>"
  have swap: "put_thread t x (put_thread u y M) = put_thread u y (put_thread t x M)" for x y M
    using assms(3) by (simp add: put_thread_def fun_upd_twist)
  have "run_step\<^sup>*\<^sup>* ?M0 (put_thread u ?q (put_thread t (Lock ?r) (machine_start ss)))"
    using reach_norm [of ?p "put_thread u ?q (machine_start ss)" t] p slots
      server_prog_guarded [OF server_prog.intros(2)] by (simp add: swap)
  also have "run_step (put_thread u ?q (put_thread t (Lock ?r) (machine_start ss)))
      (put_thread u ?q (put_thread t ?r ?S))"
    using assms(3) slots by (intro run_step.run [of t])
      (auto simp: advance_def put_thread_def fun_eq_iff intro!: machine.equality)
  also have "run_step \<dots> (put_thread u ?q (put_thread t ?w ?S))"
    using run_access [of ?r "put_thread u ?q ?S" ?w t] k assms(2) slots by (simp add: swap)
  also have "run_step \<dots> (put_thread u (range_prog [0..<length ss] [] f) (put_thread t ?w ?S))"
    by (rule run_access) (use assms(6) slots q in simp)
  finally have run: "run_step\<^sup>*\<^sup>* ?M0 (put_thread u (range_prog [0..<length ss] [] f) (put_thread t ?w ?S))"
    by simp
  obtain sli where "run_step\<^sup>*\<^sup>* (put_thread u (range_prog [0..<length ss] [] f) (put_thread t ?w ?S))
      (put_thread u (range_prog [k..<length ss] sli f) (put_thread t ?w ?S))"
    using reach_copy [of k "put_thread t ?w ?S" u f] k slots by auto
  with run have "run_step\<^sup>*\<^sup>* ?M0 (put_thread u (range_prog [k..<length ss] sli f) (put_thread t ?w ?S))"
    by (rule rtranclp_trans)
  moreover have "slot_race (put_thread u (range_prog [k..<length ss] sli f) (put_thread t ?w ?S)) t u"
    using assms(3) k by (simp add: slot_race_def upt_conv_Cons del: upt_Suc)
  moreover have "m_threads ?M0 = [t \<mapsto> ?p, u \<mapsto> ?q]" by (simp add: machine_start_def)
  ultimately show ?thesis using start by blast
qed

section \<open>Concrete instances\<close>

definition sample_machine :: machine where
  "sample_machine = put_thread 1 (newSession_prog 1) (machine_start [sample_slot])"

lemma sample_machine_reachable: "mach_steps (machine_start [sample_slot]) sample_machine"
  unfolding sample_machine_def put_thread_def
  by (rule r_into_rtranclp, rule mach_step.start) (simp_all add: idle_def machine_start_def server_prog.intros)

theorem critical_sections_atomic_witness:
  "section_steps (Map.empty, [sample_slot]) (sections_of sample_machine) \<and>
    snd (sections_of sample_machine) = [sample_slot]"
  using critical_sections_atomic [OF sample_machine_reachable]
  by (simp add: sample_machine_def machine_start_def)

theorem requests_finish_witness:
  "\<exists>N. (\<forall>k M'. (run_step ^^ k) sample_machine M' \<longrightarrow> k \<le> N) \<and>
    (\<forall>M'. run_step\<^sup>*\<^sup>* sample_machine M' \<and> (\<nexists>M''. run_step M' M'') \<longrightarrow>
      mu M' = None \<and> (\<forall>t. idle M' t))"
  by (rule requests_finish [OF sample_machine_reachable])

theorem only_copies_race_witness:
  "\<exists>M k f. slot_race M 1 2 \<and> mu M = Some 1 \<and> m_threads M 2 = Some (CopySlot k f) \<and>
    (\<forall>s. f s = f (fixed s))"
proof -
  have "slot_index [sample_slot] 1 = Some 0" "\<not> Initialized ([sample_slot] ! 0)" "(1 :: nat) \<noteq> 2"
    "length ([] :: bytes) < 0xffffffff" "length ''new'' < 0xffffffff" "length [sample_slot] \<le> unat (1 :: uint32)"
    by (simp_all add: sample_slot_def)
  from race_reachable [OF this] obtain M0 M where "mach_steps (machine_start [sample_slot]) M0"
    "run_step\<^sup>*\<^sup>* M0 M" "slot_race M 1 2"
    by blast
  moreover have "mach_steps M0 M"
    using \<open>run_step\<^sup>*\<^sup>* M0 M\<close> by (rule rtranclp_mono [THEN predicate2D, rotated]) (blast intro: mach_step.go)
  ultimately have r: "mach_steps (machine_start [sample_slot]) M" "slot_race M 1 2" by simp_all
  show ?thesis using only_copies_race [OF r(1)] r(2) by blast
qed

text \<open>Two connections persist an object each, the second asking for the lock while the first has it.\<close>

primrec schedule :: "nat list \<Rightarrow> machine \<Rightarrow> machine option" where
  "schedule [] M = Some M"
| "schedule (t # ts) M = Option.bind (advance t M) (schedule ts)"

lemma schedule_steps: "schedule ts M = Some M' \<Longrightarrow> mach_steps M M'"
proof (induction ts arbitrary: M)
  case (Cons t ts)
  then obtain S where "advance t M = Some S" "mach_steps S M'" by (auto simp: bind_eq_Some_conv)
  then show ?case by (meson converse_rtranclp_into_rtranclp mach_step.go run_step.run)
qed simp

definition token_object :: "uint64 \<Rightarrow> object" where
  "token_object n = (SetID zero_object n)\<lparr>obj_attributes := [byte_attribute attributeToken 1]\<rparr>"

lemma token_object_token [simp]: "is_token (token_object n)"
  by (simp add: token_object_def is_token_def obj_attributeValue_def setByte_def byte_attribute_def)

definition two_persists :: machine where
  "two_persists = put_thread 2 (persist_prog 1 [token_object 9])
     (put_thread 1 (persist_prog 1 [token_object 8]) (machine_start [sample_slot]))"

lemma two_persists_reachable: "mach_steps (machine_start [sample_slot]) two_persists"
proof -
  let ?M = "put_thread 1 (persist_prog 1 [token_object 8]) (machine_start [sample_slot])"
  have "mach_step (machine_start [sample_slot]) ?M"
    unfolding put_thread_def
    by (rule mach_step.start) (simp_all add: idle_def machine_start_def server_prog.intros del: persist_prog.simps)
  moreover have "mach_step ?M two_persists"
    unfolding put_thread_def two_persists_def
    by (rule mach_step.start) (simp_all add: idle_def machine_start_def server_prog.intros del: persist_prog.simps)
  ultimately show ?thesis by simp
qed

theorem slots_grow_access_by_access_witness:
  "\<exists>M'. mach_steps two_persists M' \<and>
    Objects (m_slots M' ! 0) = Objects sample_slot @ [token_object 8, token_object 9] \<and>
    fixed (m_slots M' ! 0) = fixed sample_slot"
proof -
  have start: "m_slots two_persists = [sample_slot]" by (simp add: two_persists_def machine_start_def)
  obtain M' where run: "schedule [1, 2, 1, 2, 1, 1, 1, 1, 2, 2, 2, 2] two_persists = Some M'"
    and objs: "Objects (m_slots M' ! 0) = Objects sample_slot @ [token_object 8, token_object 9]"
    by (simp add: two_persists_def machine_start_def advance_def slot_prog_def sample_slot_def)
  show ?thesis
    using slots_grow_access_by_access [OF two_persists_reachable schedule_steps [OF run]]
      schedule_steps [OF run] objs
    by (intro exI [of _ M']) (simp add: start)
qed

end
