(* ===== verification/Generator.thy ===== *)
theory Generator
  imports Errors
begin

text \<open>
  The generator of \<^verbatim>\<open>p11kit/errors.go\<close>, \<^verbatim>\<open>p11kit/errors_generate.go\<close>: it takes the return codes
  from the text of the specification, makes a Go name for each and writes the table and the
  constants that theory \<open>Errors\<close> translates. The functions of the package \<^verbatim>\<open>strings\<close> are
  modelled on ASCII text, which the specification's text is. \<^verbatim>\<open>format.Source\<close>, which only
  lays the output out, and writing the file are parameters of \<open>generate_main\<close>.
\<close>

section \<open>Text\<close>

abbreviation newline :: char where "newline \<equiv> CHR 0x0A"

text \<open>\<^verbatim>\<open>strings.Split\<close> with a separator of one character, and its inverse.\<close>

fun split_on :: "char \<Rightarrow> string \<Rightarrow> string list" where
  "split_on c [] = [[]]"
| "split_on c (x # s) =
     (if x = c then [] # split_on c s
      else case split_on c s of [] \<Rightarrow> [[x]] | w # ws \<Rightarrow> (x # w) # ws)"

fun join_with :: "char \<Rightarrow> string list \<Rightarrow> string" where
  "join_with c [] = []"
| "join_with c [w] = w"
| "join_with c (w # v # ws) = w @ c # join_with c (v # ws)"

definition is_space :: "char \<Rightarrow> bool" where
  "is_space c \<longleftrightarrow> c \<in> {CHR 0x09, CHR 0x0A, CHR 0x0B, CHR 0x0C, CHR 0x0D, CHR 0x20}"

text \<open>\<^verbatim>\<open>strings.Fields\<close>: the words between runs of white space.\<close>

function string_fields :: "string \<Rightarrow> string list" where
  "string_fields s =
     (case dropWhile is_space s of
        [] \<Rightarrow> []
      | c # s \<Rightarrow> (c # takeWhile (\<lambda>x. \<not> is_space x) s) #
          string_fields (dropWhile (\<lambda>x. \<not> is_space x) s))"
  by pat_completeness auto

termination string_fields
proof (relation "measure length", goal_cases)
  case (2 s c t)
  have "length (c # t) \<le> length s" by (metis 2 length_dropWhile_le)
  then show ?case using length_dropWhile_le [of "\<lambda>x. \<not> is_space x" t] by simp
qed simp

declare string_fields.simps [simp del]

definition trim_suffix :: "string \<Rightarrow> string \<Rightarrow> string" where
  "trim_suffix s suf =
     (if length suf \<le> length s \<and> drop (length s - length suf) s = suf
      then take (length s - length suf) s else s)"

definition char_lower :: "char \<Rightarrow> char" where
  "char_lower c =
     (if 65 \<le> (of_char c :: nat) \<and> (of_char c :: nat) \<le> 90 then char_of ((of_char c :: nat) + 32) else c)"

definition to_lower :: "string \<Rightarrow> string" where
  "to_lower = map char_lower"

section \<open>The specification's return codes\<close>

definition ckr_defines :: "string list" where
  "ckr_defines =
    [''#define CKR_OK                            0x00000000UL'',
     ''#define CKR_CANCEL                        0x00000001UL'',
     ''#define CKR_HOST_MEMORY                   0x00000002UL'',
     ''#define CKR_SLOT_ID_INVALID               0x00000003UL'',
     ''#define CKR_GENERAL_ERROR                 0x00000005UL'',
     ''#define CKR_FUNCTION_FAILED               0x00000006UL'',
     ''#define CKR_ARGUMENTS_BAD                 0x00000007UL'',
     ''#define CKR_NO_EVENT                      0x00000008UL'',
     ''#define CKR_NEED_TO_CREATE_THREADS        0x00000009UL'',
     ''#define CKR_CANT_LOCK                     0x0000000AUL'',
     ''#define CKR_ATTRIBUTE_READ_ONLY           0x00000010UL'',
     ''#define CKR_ATTRIBUTE_SENSITIVE           0x00000011UL'',
     ''#define CKR_ATTRIBUTE_TYPE_INVALID        0x00000012UL'',
     ''#define CKR_ATTRIBUTE_VALUE_INVALID       0x00000013UL'',
     ''#define CKR_COPY_PROHIBITED               0x0000001AUL'',
     ''#define CKR_ACTION_PROHIBITED             0x0000001BUL'',
     ''#define CKR_DATA_INVALID                  0x00000020UL'',
     ''#define CKR_DATA_LEN_RANGE                0x00000021UL'',
     ''#define CKR_DEVICE_ERROR                  0x00000030UL'',
     ''#define CKR_DEVICE_MEMORY                 0x00000031UL'',
     ''#define CKR_DEVICE_REMOVED                0x00000032UL'',
     ''#define CKR_ENCRYPTED_DATA_INVALID        0x00000040UL'',
     ''#define CKR_ENCRYPTED_DATA_LEN_RANGE      0x00000041UL'',
     ''#define CKR_FUNCTION_CANCELED             0x00000050UL'',
     ''#define CKR_FUNCTION_NOT_PARALLEL         0x00000051UL'',
     ''#define CKR_FUNCTION_NOT_SUPPORTED        0x00000054UL'',
     ''#define CKR_KEY_HANDLE_INVALID            0x00000060UL'',
     ''#define CKR_KEY_SIZE_RANGE                0x00000062UL'',
     ''#define CKR_KEY_TYPE_INCONSISTENT         0x00000063UL'',
     ''#define CKR_KEY_NOT_NEEDED                0x00000064UL'',
     ''#define CKR_KEY_CHANGED                   0x00000065UL'',
     ''#define CKR_KEY_NEEDED                    0x00000066UL'',
     ''#define CKR_KEY_INDIGESTIBLE              0x00000067UL'',
     ''#define CKR_KEY_FUNCTION_NOT_PERMITTED    0x00000068UL'',
     ''#define CKR_KEY_NOT_WRAPPABLE             0x00000069UL'',
     ''#define CKR_KEY_UNEXTRACTABLE             0x0000006AUL'',
     ''#define CKR_MECHANISM_INVALID             0x00000070UL'',
     ''#define CKR_MECHANISM_PARAM_INVALID       0x00000071UL'',
     ''#define CKR_OBJECT_HANDLE_INVALID         0x00000082UL'',
     ''#define CKR_OPERATION_ACTIVE              0x00000090UL'',
     ''#define CKR_OPERATION_NOT_INITIALIZED     0x00000091UL'',
     ''#define CKR_PIN_INCORRECT                 0x000000A0UL'',
     ''#define CKR_PIN_INVALID                   0x000000A1UL'',
     ''#define CKR_PIN_LEN_RANGE                 0x000000A2UL'',
     ''#define CKR_PIN_EXPIRED                   0x000000A3UL'',
     ''#define CKR_PIN_LOCKED                    0x000000A4UL'',
     ''#define CKR_SESSION_CLOSED                0x000000B0UL'',
     ''#define CKR_SESSION_COUNT                 0x000000B1UL'',
     ''#define CKR_SESSION_HANDLE_INVALID        0x000000B3UL'',
     ''#define CKR_SESSION_PARALLEL_NOT_SUPPORTED 0x000000B4UL'',
     ''#define CKR_SESSION_READ_ONLY             0x000000B5UL'',
     ''#define CKR_SESSION_EXISTS                0x000000B6UL'',
     ''#define CKR_SESSION_READ_ONLY_EXISTS      0x000000B7UL'',
     ''#define CKR_SESSION_READ_WRITE_SO_EXISTS  0x000000B8UL'',
     ''#define CKR_SIGNATURE_INVALID             0x000000C0UL'',
     ''#define CKR_SIGNATURE_LEN_RANGE           0x000000C1UL'',
     ''#define CKR_TEMPLATE_INCOMPLETE           0x000000D0UL'',
     ''#define CKR_TEMPLATE_INCONSISTENT         0x000000D1UL'',
     ''#define CKR_TOKEN_NOT_PRESENT             0x000000E0UL'',
     ''#define CKR_TOKEN_NOT_RECOGNIZED          0x000000E1UL'',
     ''#define CKR_TOKEN_WRITE_PROTECTED         0x000000E2UL'',
     ''#define CKR_UNWRAPPING_KEY_HANDLE_INVALID 0x000000F0UL'',
     ''#define CKR_UNWRAPPING_KEY_SIZE_RANGE     0x000000F1UL'',
     ''#define CKR_UNWRAPPING_KEY_TYPE_INCONSISTENT  0x000000F2UL'',
     ''#define CKR_USER_ALREADY_LOGGED_IN        0x00000100UL'',
     ''#define CKR_USER_NOT_LOGGED_IN            0x00000101UL'',
     ''#define CKR_USER_PIN_NOT_INITIALIZED      0x00000102UL'',
     ''#define CKR_USER_TYPE_INVALID             0x00000103UL'',
     ''#define CKR_USER_ANOTHER_ALREADY_LOGGED_IN 0x00000104UL'',
     ''#define CKR_USER_TOO_MANY_TYPES           0x00000105UL'',
     ''#define CKR_WRAPPED_KEY_INVALID           0x00000110UL'',
     ''#define CKR_WRAPPED_KEY_LEN_RANGE         0x00000112UL'',
     ''#define CKR_WRAPPING_KEY_HANDLE_INVALID   0x00000113UL'',
     ''#define CKR_WRAPPING_KEY_SIZE_RANGE       0x00000114UL'',
     ''#define CKR_WRAPPING_KEY_TYPE_INCONSISTENT 0x00000115UL'',
     ''#define CKR_RANDOM_SEED_NOT_SUPPORTED     0x00000120UL'',
     ''#define CKR_RANDOM_NO_RNG                 0x00000121UL'',
     ''#define CKR_DOMAIN_PARAMS_INVALID         0x00000130UL'',
     ''#define CKR_CURVE_NOT_SUPPORTED           0x00000140UL'',
     ''#define CKR_BUFFER_TOO_SMALL              0x00000150UL'',
     ''#define CKR_SAVED_STATE_INVALID           0x00000160UL'',
     ''#define CKR_INFORMATION_SENSITIVE         0x00000170UL'',
     ''#define CKR_STATE_UNSAVEABLE              0x00000180UL'',
     ''#define CKR_CRYPTOKI_NOT_INITIALIZED      0x00000190UL'',
     ''#define CKR_CRYPTOKI_ALREADY_INITIALIZED  0x00000191UL'',
     ''#define CKR_MUTEX_BAD                     0x000001A0UL'',
     ''#define CKR_MUTEX_NOT_LOCKED              0x000001A1UL'',
     ''#define CKR_FUNCTION_REJECTED             0x00000200UL'',
     ''#define CKR_VENDOR_DEFINED                0x80000000UL'']"

text \<open>The raw string: each definition on a line of its own, with empty lines around.\<close>

definition ckrRaw :: string where
  "ckrRaw = join_with newline ([] # concat (map (\<lambda>d. [d, []]) ckr_defines))"

section \<open>From a line to a code\<close>

record errorCode =
  SpecName :: string
  GoName :: string
  Value :: string

definition go_word :: "string \<Rightarrow> string" where
  "go_word w =
     (if w \<in> {''ID'', ''PIN'', ''RNG''} then w
      else if length w > 1 then take 1 w @ to_lower (drop 1 w) else w)"

definition toGoName :: "string \<Rightarrow> string" where
  "toGoName specName =
     foldl (\<lambda>s w. s @ go_word w) ''err'' (drop 1 (split_on (CHR ''_'') specName))"

definition code_of_line :: "string \<Rightarrow> errorCode option" where
  "code_of_line line =
     (case string_fields line of
        [_, name, value] \<Rightarrow>
          if name = ''CKR_OK'' then None
          else Some \<lparr>SpecName = name, GoName = toGoName name,
            Value = to_lower (trim_suffix value ''UL'')\<rparr>
      | _ \<Rightarrow> None)"

definition error_codes :: "string \<Rightarrow> errorCode list" where
  "error_codes raw =
     foldl (\<lambda>codes line. case code_of_line line of None \<Rightarrow> codes | Some c \<Rightarrow> codes @ [c])
       [] (split_on newline raw)"

section \<open>The generated file\<close>

definition unlines :: "string list \<Rightarrow> string" where
  "unlines ls = concat (map (\<lambda>l. l @ [newline]) ls)"

definition file_start :: "string list" where
  \<open>file_start =
    [''// Copyright 2022 Google LLC'',
     ''//'',
     ''// Licensed under the Apache License, Version 2.0 (the "License");'',
     ''// you may not use this file except in compliance with the License.'',
     ''// You may obtain a copy of the License at'',
     ''//'',
     ''//     https://www.apache.org/licenses/LICENSE-2.0'',
     ''//'',
     ''// Unless required by applicable law or agreed to in writing, software'',
     ''// distributed under the License is distributed on an "AS IS" BASIS,'',
     ''// WITHOUT WARRANTIES OR CONDITIONS OF ANY KIND, either express or implied.'',
     ''// See the License for the specific language governing permissions and'',
     ''// limitations under the License.'',
     [],
     ''// Code generated by errors_generate.go; DO NOT EDIT.'',
     [],
     ''//go:generate go run errors_generate.go'',
     [],
     ''package p11kit'',
     [],
     ''import "fmt"'',
     [],
     ''// pkcs11Error represents a PKCS #11 return code.'',
     ''type pkcs11Error uint64'',
     [],
     ''// Error returns the spec name of the error.'',
     ''func (e pkcs11Error) Error() string {'',
     CHR 0x09 # ''if s, ok := errStrings[e]; ok {'',
     CHR 0x09 # CHR 0x09 # ''return s'',
     CHR 0x09 # ''}'',
     CHR 0x09 # ''return fmt.Sprintf("unknown pkcs11 error: 0x%08x", uint64(e))'',
     ''}'',
     [],
     ''var errStrings = map[pkcs11Error]string{'']\<close>

definition file_middle :: "string list" where
  \<open>file_middle =
    [''}'',
     [],
     ''// Error codes defined PKCS #11.'',
     ''//'',
     ''// http://docs.oasis-open.org/pkcs11/pkcs11-base/v2.40/csd02/pkcs11-base-v2.40-csd02.html#_Toc385435538'',
     ''const ('']\<close>

definition table_line :: "errorCode \<Rightarrow> string" where
  \<open>table_line c = GoName c @ '': "'' @ SpecName c @ ''",''\<close>

definition const_line :: "errorCode \<Rightarrow> string" where
  "const_line c = GoName c @ '' pkcs11Error = '' @ Value c"

text \<open>The template: the two \<^verbatim>\<open>range\<close> blocks give a line for each code, then an empty line.\<close>

definition errors_file :: "errorCode list \<Rightarrow> string" where
  "errors_file codes =
     unlines (file_start @ map table_line codes @ [[]] @ file_middle @ map const_line codes @ [[], '')''])"

text \<open>\<^verbatim>\<open>main\<close>: how it ends, given \<^verbatim>\<open>format.Source\<close> and \<^verbatim>\<open>os.WriteFile\<close>.\<close>

datatype generator_end = FormattingSource go_error | WritingFile go_error | Written

definition generate_main :: "(string \<Rightarrow> string result) \<Rightarrow>
    (string \<Rightarrow> string \<Rightarrow> 'w \<Rightarrow> unit result \<times> 'w) \<Rightarrow> 'w \<Rightarrow> generator_end \<times> 'w" where
  "generate_main format_Source os_WriteFile w =
     (case format_Source (errors_file (error_codes ckrRaw)) of
        Inl e \<Rightarrow> (FormattingSource e, w)
      | Inr out \<Rightarrow>
          (case os_WriteFile ''errors.go'' out w of
             (Inl e, w) \<Rightarrow> (WritingFile e, w)
           | (Inr (), w) \<Rightarrow> (Written, w)))"

text \<open>A hexadecimal constant as the Go compiler reads it, for a type of 64 bits.\<close>

definition go_hex_digit :: "char \<Rightarrow> nat" where
  "go_hex_digit c = (let n = of_char c in if n \<le> 57 then n - 48 else n - 87)"

definition go_literal :: "string \<Rightarrow> uint64" where
  "go_literal s = of_nat (foldl (\<lambda>n c. 16 * n + go_hex_digit c) 0 (drop 2 s))"

text \<open>The constant declarations of a generated file: the lines of four words of that form.\<close>

definition constant_of_line :: "string \<Rightarrow> (string \<times> string) option" where
  "constant_of_line l =
     (case string_fields l of
        [n, t, eq, v] \<Rightarrow> if t = ''pkcs11Error'' \<and> eq = ''='' then Some (n, v) else None
      | _ \<Rightarrow> None)"

definition constants_of_file :: "string \<Rightarrow> (string \<times> string) list" where
  "constants_of_file s = List.map_filter constant_of_line (split_on newline s)"

section \<open>Facts\<close>

text \<open>Equations on the bits of a character, with which evaluation is quick.\<close>

lemma char_lower_code [code]: "char_lower (Char b0 b1 b2 b3 b4 b5 b6 b7) =
    (if \<not> b7 \<and> b6 \<and> \<not> b5 \<and> (b0 \<or> b1 \<or> b2 \<or> b3 \<or> b4) \<and> \<not> (b4 \<and> b3 \<and> (b2 \<or> b1 \<and> b0))
     then Char b0 b1 b2 b3 b4 True b6 b7 else Char b0 b1 b2 b3 b4 b5 b6 b7)"
  by (cases b0; cases b1; cases b2; cases b3; cases b4; cases b5; cases b6; cases b7)
    (simp_all add: char_lower_def char_of_def bit_0)

lemma is_space_code [code]: "is_space (Char b0 b1 b2 b3 b4 b5 b6 b7) =
    (\<not> b7 \<and> \<not> b6 \<and> (if b5 then \<not> b4 \<and> \<not> b3 \<and> \<not> b2 \<and> \<not> b1 \<and> \<not> b0
      else \<not> b4 \<and> b3 \<and> (b0 \<and> \<not> b1 \<and> \<not> b2 \<or> b1 \<and> \<not> b2 \<or> b2 \<and> \<not> b1)))"
  by (cases b0; cases b1; cases b2; cases b3; cases b4; cases b5; cases b6; cases b7)
    (simp_all add: is_space_def)

lemma string_fields_simps [simp, code]:
  "string_fields [] = []"
  "string_fields (c # s) =
    (if is_space c then string_fields s
     else (c # takeWhile (\<lambda>x. \<not> is_space x) s) #
       string_fields (dropWhile (\<lambda>x. \<not> is_space x) s))"
proof -
  show "string_fields [] = []" by (subst string_fields.simps) simp
  show "string_fields (c # s) =
      (if is_space c then string_fields s
       else (c # takeWhile (\<lambda>x. \<not> is_space x) s) #
         string_fields (dropWhile (\<lambda>x. \<not> is_space x) s))"
    by (subst string_fields.simps, simp) (subst string_fields.simps [of s], simp)
qed

lemma hex_digit_simps:
    "go_hex_digit (CHR ''0'') = 0"
    "go_hex_digit (CHR ''1'') = 1"
    "go_hex_digit (CHR ''2'') = 2"
    "go_hex_digit (CHR ''3'') = 3"
    "go_hex_digit (CHR ''4'') = 4"
    "go_hex_digit (CHR ''5'') = 5"
    "go_hex_digit (CHR ''6'') = 6"
    "go_hex_digit (CHR ''7'') = 7"
    "go_hex_digit (CHR ''8'') = 8"
    "go_hex_digit (CHR ''9'') = 9"
    "go_hex_digit (CHR ''a'') = 10"
    "go_hex_digit (CHR ''b'') = 11"
    "go_hex_digit (CHR ''c'') = 12"
    "go_hex_digit (CHR ''d'') = 13"
    "go_hex_digit (CHR ''e'') = 14"
    "go_hex_digit (CHR ''f'') = 15"
  by code_simp+

text \<open>Splitting undoes joining when no part has the separator.\<close>

lemma split_on_none: "c \<notin> set w \<Longrightarrow> split_on c w = [w]"
  by (induction w) auto

lemma split_on_append: "c \<notin> set w \<Longrightarrow> split_on c (w @ c # s) = w # split_on c s"
  by (induction w) auto

lemma split_on_join:
  "ws \<noteq> [] \<Longrightarrow> \<forall>w \<in> set ws. c \<notin> set w \<Longrightarrow> split_on c (join_with c ws) = ws"
  by (induction ws rule: induct_list012) (simp_all add: split_on_none split_on_append)

lemma split_on_unlines:
  "\<forall>l \<in> set ls. newline \<notin> set l \<Longrightarrow> split_on newline (unlines ls) = ls @ [[]]"
  by (induction ls) (simp_all add: unlines_def split_on_append)

lemma error_codes_filter: "error_codes raw = List.map_filter code_of_line (split_on newline raw)"
proof -
  have "foldl (\<lambda>codes line. case code_of_line line of None \<Rightarrow> codes | Some c \<Rightarrow> codes @ [c]) cs ls =
      cs @ List.map_filter code_of_line ls" for cs ls
    by (induction ls arbitrary: cs) (simp_all add: map_filter_simps split: option.splits)
  then show ?thesis by (simp add: error_codes_def)
qed

lemma map_filter_gaps:
  "f [] = None \<Longrightarrow>
    List.map_filter f ([] # concat (map (\<lambda>d. [d, []]) ds)) = List.map_filter f ds"
  by (induction ds) (simp_all add: map_filter_simps split: option.splits)

lemma code_of_empty: "code_of_line [] = None"
  by (simp add: code_of_line_def)

lemma spec_codes: "error_codes ckrRaw = List.map_filter code_of_line ckr_defines"
proof -
  have "\<forall>d \<in> set ckr_defines. newline \<notin> set d" by code_simp
  then have "split_on newline ckrRaw = [] # concat (map (\<lambda>d. [d, []]) ckr_defines)"
    unfolding ckrRaw_def by (subst split_on_join) auto
  then show ?thesis
    using map_filter_gaps [of code_of_line ckr_defines, OF code_of_empty]
    by (simp only: error_codes_filter)
qed

lemma spec_names:
  "map (\<lambda>c. (GoName c, SpecName c)) (error_codes ckrRaw) =
    zip (map fst errConstants) (map snd errStrings)"
  unfolding spec_codes by code_simp

lemma spec_values: "map Value (error_codes ckrRaw) =
    [''0x00000001'',
     ''0x00000002'',
     ''0x00000003'',
     ''0x00000005'',
     ''0x00000006'',
     ''0x00000007'',
     ''0x00000008'',
     ''0x00000009'',
     ''0x0000000a'',
     ''0x00000010'',
     ''0x00000011'',
     ''0x00000012'',
     ''0x00000013'',
     ''0x0000001a'',
     ''0x0000001b'',
     ''0x00000020'',
     ''0x00000021'',
     ''0x00000030'',
     ''0x00000031'',
     ''0x00000032'',
     ''0x00000040'',
     ''0x00000041'',
     ''0x00000050'',
     ''0x00000051'',
     ''0x00000054'',
     ''0x00000060'',
     ''0x00000062'',
     ''0x00000063'',
     ''0x00000064'',
     ''0x00000065'',
     ''0x00000066'',
     ''0x00000067'',
     ''0x00000068'',
     ''0x00000069'',
     ''0x0000006a'',
     ''0x00000070'',
     ''0x00000071'',
     ''0x00000082'',
     ''0x00000090'',
     ''0x00000091'',
     ''0x000000a0'',
     ''0x000000a1'',
     ''0x000000a2'',
     ''0x000000a3'',
     ''0x000000a4'',
     ''0x000000b0'',
     ''0x000000b1'',
     ''0x000000b3'',
     ''0x000000b4'',
     ''0x000000b5'',
     ''0x000000b6'',
     ''0x000000b7'',
     ''0x000000b8'',
     ''0x000000c0'',
     ''0x000000c1'',
     ''0x000000d0'',
     ''0x000000d1'',
     ''0x000000e0'',
     ''0x000000e1'',
     ''0x000000e2'',
     ''0x000000f0'',
     ''0x000000f1'',
     ''0x000000f2'',
     ''0x00000100'',
     ''0x00000101'',
     ''0x00000102'',
     ''0x00000103'',
     ''0x00000104'',
     ''0x00000105'',
     ''0x00000110'',
     ''0x00000112'',
     ''0x00000113'',
     ''0x00000114'',
     ''0x00000115'',
     ''0x00000120'',
     ''0x00000121'',
     ''0x00000130'',
     ''0x00000140'',
     ''0x00000150'',
     ''0x00000160'',
     ''0x00000170'',
     ''0x00000180'',
     ''0x00000190'',
     ''0x00000191'',
     ''0x000001a0'',
     ''0x000001a1'',
     ''0x00000200'',
     ''0x80000000'']"
  unfolding spec_codes by code_simp

lemma spec_literals: "map (\<lambda>c. go_literal (Value c)) (error_codes ckrRaw) = map snd errConstants"
proof -
  have "map (go_literal \<circ> Value) (error_codes ckrRaw) = map snd errConstants"
    unfolding map_map [symmetric] spec_values
    by (simp add: go_literal_def hex_digit_simps errConstants_def)
  then show ?thesis by (simp add: comp_def)
qed

text \<open>Words, and what \<^verbatim>\<open>strings.Fields\<close> makes of text put together from words.\<close>

definition is_word :: "string \<Rightarrow> bool" where
  "is_word w \<longleftrightarrow> w \<noteq> [] \<and> list_all (\<lambda>c. \<not> is_space c) w"

lemma is_word_append: "is_word v \<Longrightarrow> is_word w \<Longrightarrow> is_word (v @ w)"
  by (simp add: is_word_def)

lemma fields_word:
  assumes "is_word w"
  shows "string_fields w = [w]"
proof -
  obtain x v where w: "w = x # v" "\<not> is_space x" "\<forall>y \<in> set v. \<not> is_space y"
    using assms by (cases w) (auto simp: is_word_def list_all_iff)
  have rest: "takeWhile (\<lambda>y. \<not> is_space y) v = v" "dropWhile (\<lambda>y. \<not> is_space y) v = []"
    using w(3) by simp_all
  show ?thesis using w(2) by (simp add: w(1) rest)
qed

lemma fields_word_append:
  assumes "is_word w" and "is_space c"
  shows "string_fields (w @ c # s) = w # string_fields s"
proof -
  obtain x v where w: "w = x # v" "\<not> is_space x" "\<forall>y \<in> set v. \<not> is_space y"
    using assms(1) by (cases w) (auto simp: is_word_def list_all_iff)
  have "takeWhile (\<lambda>y. \<not> is_space y) (v @ c # s) = v" "dropWhile (\<lambda>y. \<not> is_space y) (v @ c # s) = c # s"
    using w(3) assms(2) by (auto simp: takeWhile_append dropWhile_append)
  then show ?thesis using w(1,2) assms(2) by simp
qed

lemma word_no_newline: "is_word w \<Longrightarrow> newline \<notin> set w"
  by (auto simp: is_word_def list_all_iff is_space_def)

definition code_words :: "errorCode \<Rightarrow> bool" where
  "code_words c \<longleftrightarrow> is_word (GoName c) \<and> is_word (SpecName c) \<and> is_word (Value c)"

lemma space_is_space: "is_space (CHR '' '')"
  by code_simp

lemma const_line_read: "code_words c \<Longrightarrow> constant_of_line (const_line c) = Some (GoName c, Value c)"
proof -
  assume c: "code_words c"
  have w: "is_word ''pkcs11Error''" "is_word ''=''" by code_simp+
  have l: "const_line c =
      GoName c @ CHR '' '' # (''pkcs11Error'' @ CHR '' '' # (''='' @ CHR '' '' # Value c))"
    by (simp add: const_line_def)
  show ?thesis unfolding constant_of_line_def l
    using c by (simp only: fields_word_append [OF _ space_is_space] w fields_word code_words_def) simp
qed

lemma table_line_read: "code_words c \<Longrightarrow> constant_of_line (table_line c) = None"
proof -
  assume c: "code_words c"
  have l: "table_line c = (GoName c @ '':'') @ CHR '' '' # ([CHR 0x22] @ SpecName c @ [CHR 0x22, CHR '','' ])"
    by (simp add: table_line_def)
  have "is_word '':''" "is_word [CHR 0x22]" "is_word [CHR 0x22, CHR '','' ]" by code_simp+
  then have w: "is_word (GoName c @ '':'')" "is_word ([CHR 0x22] @ SpecName c @ [CHR 0x22, CHR '','' ])"
    using c by (auto intro: is_word_append simp: code_words_def simp del: append_Cons append_Nil)
  show ?thesis unfolding constant_of_line_def l
    by (simp only: fields_word_append [OF w(1) space_is_space] fields_word [OF w(2)]) simp
qed

lemma map_filter_append: "List.map_filter f (xs @ ys) = List.map_filter f xs @ List.map_filter f ys"
  by (induction xs) (simp_all add: map_filter_simps split: option.splits)

lemma map_filter_map_all:
  "\<forall>x \<in> set xs. f (g x) = h x \<Longrightarrow> List.map_filter f (map g xs) = List.map_filter h xs"
  by (induction xs) (simp_all add: map_filter_simps split: option.splits)

lemma map_filter_None: "List.map_filter (\<lambda>x. None) xs = []"
  by (induction xs) (simp_all add: map_filter_simps)

lemma map_filter_Some: "List.map_filter (\<lambda>x. Some (f x)) xs = map f xs"
  by (induction xs) (simp_all add: map_filter_simps)

lemma fixed_lines: "List.map_filter constant_of_line file_start = []"
  "List.map_filter constant_of_line file_middle = []"
  "\<forall>l \<in> set (file_start @ file_middle). newline \<notin> set l"
  by code_simp+

section \<open>What the generator guarantees\<close>

text \<open>
  C29: The constants and the table of \<^verbatim>\<open>errors.go\<close> are what the generator makes of the
  specification's definitions, in their order: each with its name, its value and the name that
  \<^verbatim>\<open>Error\<close> reports, no Go name and no value twice.
\<close>

theorem generated_errors:
  "map (\<lambda>c. (GoName c, go_literal (Value c))) (error_codes ckrRaw) = errConstants \<and>
   map (\<lambda>c. (go_literal (Value c), SpecName c)) (error_codes ckrRaw) = errStrings \<and>
   distinct (map GoName (error_codes ckrRaw)) \<and>
   list_all (\<lambda>c. pkcs11Error_Error (go_literal (Value c)) = SpecName c) (error_codes ckrRaw)"
proof (intro conjI)
  have len: "length errConstants = length errStrings" by code_simp
  have codes: "map fst errStrings = map snd errConstants"
    by (simp add: errStrings_def errConstants_def)
  have n: "map GoName (error_codes ckrRaw) = map fst errConstants"
    and s: "map SpecName (error_codes ckrRaw) = map snd errStrings"
    using arg_cong [OF spec_names, of "map fst"] arg_cong [OF spec_names, of "map snd"] len
    by (simp_all add: comp_def)
  have z: "map (\<lambda>c. (f c, g c)) xs = zip (map f xs) (map g xs)" for f :: "errorCode \<Rightarrow> 'a" and g :: "errorCode \<Rightarrow> 'b" and xs
    by (induction xs) simp_all
  show "map (\<lambda>c. (GoName c, go_literal (Value c))) (error_codes ckrRaw) = errConstants"
    unfolding z n spec_literals by (rule zip_map_fst_snd)
  show t: "map (\<lambda>c. (go_literal (Value c), SpecName c)) (error_codes ckrRaw) = errStrings"
    unfolding z s spec_literals codes [symmetric] by (rule zip_map_fst_snd)
  show "distinct (map GoName (error_codes ckrRaw))" unfolding n by code_simp
  show "list_all (\<lambda>c. pkcs11Error_Error (go_literal (Value c)) = SpecName c) (error_codes ckrRaw)"
  proof (unfold list_all_iff, rule ballI)
    fix c assume "c \<in> set (error_codes ckrRaw)"
    then have "(go_literal (Value c), SpecName c) \<in> set errStrings" unfolding t [symmetric] by simp
    then show "pkcs11Error_Error (go_literal (Value c)) = SpecName c"
      by (simp add: pkcs11Error_Error_def errStrings_codes_distinct)
  qed
qed

text \<open>
  The constants of a generated file are read back: of all its lines exactly those of the
  second block have the form of a constant declaration, one for each code in order.
\<close>

lemma generated_file_reads_back:
  assumes "\<forall>c \<in> set codes. code_words c"
  shows "constants_of_file (errors_file codes) = map (\<lambda>c. (GoName c, Value c)) codes"
proof -
  have "newline \<notin> set (table_line c)" "newline \<notin> set (const_line c)" if "code_words c" for c
    using that by (auto simp: table_line_def const_line_def code_words_def dest: word_no_newline)
  then have "\<forall>l \<in> set (file_start @ map table_line codes @ [[]] @ file_middle @ map const_line codes @ [[], '')'']).
      newline \<notin> set l"
    using assms fixed_lines(3) by auto
  then have lines: "split_on newline (errors_file codes) =
      (file_start @ map table_line codes @ [[]] @ file_middle @ map const_line codes @ [[], '')'']) @ [[]]"
    unfolding errors_file_def by (rule split_on_unlines)
  have "List.map_filter constant_of_line [[], '')''] = []" "List.map_filter constant_of_line [[]] = []"
    by code_simp+
  moreover have "List.map_filter constant_of_line (map table_line codes) = []"
    using map_filter_map_all [of codes constant_of_line table_line "\<lambda>x. None"] assms table_line_read
    by (simp add: map_filter_None)
  moreover have "List.map_filter constant_of_line (map const_line codes) = map (\<lambda>c. (GoName c, Value c)) codes"
    using map_filter_map_all [of codes constant_of_line const_line "\<lambda>c. Some (GoName c, Value c)"]
      assms const_line_read by (simp add: map_filter_Some)
  ultimately show ?thesis
    unfolding constants_of_file_def lines by (simp only: map_filter_append fixed_lines append_Nil append_Nil2)
qed

lemma errors_file_constants:
  "constants_of_file (errors_file (error_codes ckrRaw)) =
     map (\<lambda>c. (GoName c, Value c)) (error_codes ckrRaw)"
proof (rule generated_file_reads_back)
  show "\<forall>c \<in> set (error_codes ckrRaw). code_words c" unfolding spec_codes by code_simp
qed

text \<open>
  A formatter that keeps the declarations makes the generator write a file whose constants
  are those of theory \<open>Errors\<close>, or nothing.
\<close>

lemma generate_main_writes:
  assumes "format_Source (errors_file (error_codes ckrRaw)) = Inr out"
    and "constants_of_file out = constants_of_file (errors_file (error_codes ckrRaw))"
  shows "snd (generate_main format_Source os_WriteFile w) = snd (os_WriteFile ''errors.go'' out w)"
    and "map (\<lambda>(n, v). (n, go_literal v)) (constants_of_file out) =
      map (\<lambda>c. (GoName c, go_literal (Value c))) (error_codes ckrRaw)"
  using assms errors_file_constants
  by (simp_all add: generate_main_def split: prod.split sum.split unit.split)

end
