(* ===== verification/Example.thy ===== *)
theory Example
  imports System KeyProperties
begin

text \<open>
  The example server, \<^verbatim>\<open>example/example-p11-kit-server/main.go\<close>: it makes the objects of
  one slot from certificate and key files, associates keys with their certificates and
  serves the slot. Files, PEM and the parsers of \<^verbatim>\<open>crypto/x509\<close> are parameters
  (\<open>example_env\<close>); flags are given as the lists of files they collect (theory
  \<open>ExampleMain\<close> has the command line and the socket), and \<^verbatim>\<open>log.Fatalf\<close> is an error result of its
  own. Accepting connections is the step \<open>accept\<close> of the concurrent server.
\<close>

section \<open>Parsing keys\<close>

record pem_block =
  pem_Type :: string
  pem_Bytes :: bytes

text \<open>
  \<^verbatim>\<open>crypto.PrivateKey\<close> by its dynamic type: a signer, or a key of another kind with what
  its \<^verbatim>\<open>Public\<close> method returns, if it has one.
\<close>

datatype private_key = SignerKey signer | OtherKey "public_key option"

fun key_signer :: "private_key \<Rightarrow> signer option" where
  "key_signer (SignerKey s) = Some s"
| "key_signer (OtherKey p) = None"

fun key_Public :: "private_key \<Rightarrow> public_key option" where
  "key_Public (SignerKey s) = Some (signer_Public s)"
| "key_Public (OtherKey p) = p"

text \<open>
  \<open>ex_Equal\<close> is the \<^verbatim>\<open>Equal\<close> method of public keys that are neither ECDSA nor RSA keys,
  if there is one; a certificate comes with its \<^verbatim>\<open>PublicKey\<close>, which may be nil.
\<close>

record 'w example_env =
  ex_ReadFile :: "string \<Rightarrow> ('w, bytes) act"
  ex_pem_Decode :: "bytes \<Rightarrow> pem_block option"
  ex_ParseCertificate :: "bytes \<Rightarrow> (certificate \<times> public_key option) result"
  ex_ParsePKCS1PrivateKey :: "bytes \<Rightarrow> private_key result"
  ex_ParseECPrivateKey :: "bytes \<Rightarrow> private_key result"
  ex_ParsePKCS8PrivateKey :: "bytes \<Rightarrow> private_key result"
  ex_ParsePKCS1PublicKey :: "bytes \<Rightarrow> public_key result"
  ex_ParsePKIXPublicKey :: "bytes \<Rightarrow> public_key result"
  ex_Equal :: "nat \<Rightarrow> (public_key option \<Rightarrow> bool) option"

definition parsePrivateKey :: "'w example_env \<Rightarrow> pem_block \<Rightarrow> private_key result" where
  "parsePrivateKey ex b =
     (if pem_Type b = ''RSA PRIVATE KEY'' then ex_ParsePKCS1PrivateKey ex (pem_Bytes b)
      else if pem_Type b = ''EC PRIVATE KEY'' then ex_ParseECPrivateKey ex (pem_Bytes b)
      else ex_ParsePKCS8PrivateKey ex (pem_Bytes b))"

definition parsePublicKey :: "'w example_env \<Rightarrow> pem_block \<Rightarrow> public_key result" where
  "parsePublicKey ex b =
     (if pem_Type b = ''RSA PUBLIC KEY'' then ex_ParsePKCS1PublicKey ex (pem_Bytes b)
      else ex_ParsePKIXPublicKey ex (pem_Bytes b))"

definition pubEqual :: "'w example_env \<Rightarrow> public_key \<Rightarrow> public_key option \<Rightarrow> bool" where
  "pubEqual ex p1 p2 =
     (case p1 of
        OtherPublicKey n \<Rightarrow> (case ex_Equal ex n of None \<Rightarrow> False | Some eq \<Rightarrow> eq p2)
      | _ \<Rightarrow> p2 = Some p1)"

definition privEqual :: "'w example_env \<Rightarrow> private_key \<Rightarrow> public_key option \<Rightarrow> bool" where
  "privEqual ex priv pub =
     (case key_Public priv of None \<Rightarrow> False | Some p \<Rightarrow> pubEqual ex p pub)"

section \<open>Loading the objects\<close>

datatype file_kind = CertificateFile | PrivateKeyFile | PublicKeyFile

datatype fatal =
    ReadingFile file_kind string go_error
  | DecodingFile file_kind string
  | ParsingFile file_kind string go_error
  | CreatingObject file_kind string go_error
  | SettingCertificate file_kind go_error

type_synonym ('w, 'a) run = "'w \<Rightarrow> (fatal + 'a) \<times> 'w"

definition or_fatal :: "(go_error \<Rightarrow> fatal) \<Rightarrow> ('w, 'a) act \<Rightarrow> ('w, 'a) run" where
  "or_fatal f m w = (case m w of (Inl e, w) \<Rightarrow> (Inl (f e), w) | (Inr x, w) \<Rightarrow> (Inr x, w))"

definition run_bind :: "('w, 'a) run \<Rightarrow> ('a \<Rightarrow> ('w, 'b) run) \<Rightarrow> ('w, 'b) run" where
  "run_bind m f w = (case m w of (Inl e, w) \<Rightarrow> (Inl e, w) | (Inr x, w) \<Rightarrow> f x w)"

definition run_return :: "'a \<Rightarrow> ('w, 'a) run" where
  "run_return x w = (Inr x, w)"

text \<open>The start of all three loops: the PEM block of a file.\<close>

definition read_block :: "'w example_env \<Rightarrow> file_kind \<Rightarrow> string \<Rightarrow> ('w, pem_block) run" where
  "read_block ex k f =
     run_bind (or_fatal (ReadingFile k f) (ex_ReadFile ex f)) (\<lambda>data w.
       case ex_pem_Decode ex data of
         None \<Rightarrow> (Inl (DecodingFile k f), w)
       | Some block \<Rightarrow> (Inr block, w))"

fun load_certs :: "'w env \<Rightarrow> 'w example_env \<Rightarrow> string list \<Rightarrow>
    (certificate \<times> public_key option) list \<Rightarrow> object list \<Rightarrow>
    ('w, (certificate \<times> public_key option) list \<times> object list) run" where
  "load_certs env ex [] certs objs = run_return (certs, objs)"
| "load_certs env ex (f # fs) certs objs =
     run_bind (read_block ex CertificateFile f) (\<lambda>block.
       run_bind (or_fatal (ParsingFile CertificateFile f)
           (act_lift (ex_ParseCertificate ex (pem_Bytes block)))) (\<lambda>cert.
         run_bind (or_fatal (CreatingObject CertificateFile f)
             (NewX509CertificateObject env (fst cert))) (\<lambda>obj.
           load_certs env ex fs (certs @ [cert]) (objs @ [obj]))))"

text \<open>The inner loop: every certificate with the key's public key is set on the object.\<close>

fun set_certificates :: "file_kind \<Rightarrow> (public_key option \<Rightarrow> bool) \<Rightarrow>
    (certificate \<times> public_key option) list \<Rightarrow> object \<Rightarrow> ('w, object) run" where
  "set_certificates k eq [] obj = run_return obj"
| "set_certificates k eq (cert # certs) obj =
     (if \<not> eq (snd cert) then set_certificates k eq certs obj
      else run_bind (or_fatal (SettingCertificate k) (act_lift (SetCertificate obj (fst cert))))
        (set_certificates k eq certs))"

definition allow_derive :: "private_key \<Rightarrow> object \<Rightarrow> object" where
  "allow_derive priv obj =
     (case priv of SignerKey (EcdsaPrivateKey c x y d) \<Rightarrow> SetDerive obj | _ \<Rightarrow> obj)"

fun load_privs :: "'w env \<Rightarrow> 'w example_env \<Rightarrow> (certificate \<times> public_key option) list \<Rightarrow>
    string list \<Rightarrow> object list \<Rightarrow> ('w, object list) run" where
  "load_privs env ex certs [] objs = run_return objs"
| "load_privs env ex certs (f # fs) objs =
     run_bind (read_block ex PrivateKeyFile f) (\<lambda>block.
       run_bind (or_fatal (ParsingFile PrivateKeyFile f) (act_lift (parsePrivateKey ex block))) (\<lambda>priv.
         run_bind (or_fatal (CreatingObject PrivateKeyFile f)
             (NewPrivateKeyObject env (key_signer priv))) (\<lambda>obj.
           run_bind (set_certificates PrivateKeyFile (privEqual ex priv) certs
               (allow_derive priv obj)) (\<lambda>obj.
             load_privs env ex certs fs (objs @ [obj])))))"

fun load_pubs :: "'w env \<Rightarrow> 'w example_env \<Rightarrow> (certificate \<times> public_key option) list \<Rightarrow>
    string list \<Rightarrow> object list \<Rightarrow> ('w, object list) run" where
  "load_pubs env ex certs [] objs = run_return objs"
| "load_pubs env ex certs (f # fs) objs =
     run_bind (read_block ex PublicKeyFile f) (\<lambda>block.
       run_bind (or_fatal (ParsingFile PublicKeyFile f) (act_lift (parsePublicKey ex block))) (\<lambda>pub.
         run_bind (or_fatal (CreatingObject PublicKeyFile f) (NewPublicKeyObject env pub)) (\<lambda>obj.
           run_bind (set_certificates PublicKeyFile (pubEqual ex pub) certs obj) (\<lambda>obj.
             load_pubs env ex certs fs (objs @ [obj])))))"

definition load_objects :: "'w env \<Rightarrow> 'w example_env \<Rightarrow> string list \<Rightarrow> string list \<Rightarrow>
    string list \<Rightarrow> ('w, object list) run" where
  "load_objects env ex certFiles privFiles pubFiles =
     run_bind (load_certs env ex certFiles [] []) (\<lambda>(certs, objs).
       run_bind (load_privs env ex certs privFiles objs) (load_pubs env ex certs pubFiles))"

section \<open>The server\<close>

definition example_slot :: "object list \<Rightarrow> slot" where
  "example_slot objs =
     \<lparr>slot_ID = 0x01, Description = ''example-slot'', Label = ''example'',
      slot_Manufacturer = ''go-p11-kit'', Model = ''example-server'', Serial = ''12345678'',
      HardwareVersion = \<lparr>Major = 0, Minor = 1\<rparr>, FirmwareVersion = \<lparr>Major = 0, Minor = 1\<rparr>,
      Objects = objs, GetObjects = None, Mechanisms = None, MechanismInfo = None,
      Initialized = True\<rparr>"

definition example_handler :: "object list \<Rightarrow> Handler" where
  "example_handler objs =
     \<lparr>Manufacturer = ''go-p11-kit'', Library = ''example-server'',
      LibraryVersion = \<lparr>Major = 0, Minor = 1\<rparr>, Slots = [example_slot objs]\<rparr>"

text \<open>The argument that names the socket; with more than one the program prints its usage.\<close>

definition unix_path :: "string list \<Rightarrow> string option" where
  "unix_path args = (case args of [] \<Rightarrow> Some [] | [p] \<Rightarrow> Some p | _ \<Rightarrow> None)"

text \<open>With \<^verbatim>\<open>--stdio\<close>: load the objects, then serve standard input and output.\<close>

definition example_stdio :: "'w env \<Rightarrow> 'w example_env \<Rightarrow> string list \<Rightarrow> string list \<Rightarrow>
    string list \<Rightarrow> connection \<Rightarrow> 'w \<Rightarrow> fatal + (go_error option \<times> 'w state \<times> connection)" where
  "example_stdio env ex certFiles privFiles pubFiles stdio w =
     (case load_objects env ex certFiles privFiles pubFiles w of
        (Inl e, w) \<Rightarrow> Inl e
      | (Inr objs, w) \<Rightarrow> Inr (Handle env w (example_handler objs) stdio))"

section \<open>Facts\<close>

lemma run_bind_InrE:
  assumes "run_bind m f w = (Inr y, w'')"
  obtains x w' where "m w = (Inr x, w')" and "f x w' = (Inr y, w'')"
  using assms by (auto simp: run_bind_def split: prod.splits sum.splits)

lemma run_bind_Inr: "run_bind m f w = (Inr y, w'') \<longleftrightarrow>
    (\<exists>x w'. m w = (Inr x, w') \<and> f x w' = (Inr y, w''))"
  by (auto simp: run_bind_def split: prod.splits sum.splits)

lemma or_fatal_Inr: "or_fatal f m w = (Inr x, w') \<longleftrightarrow> m w = (Inr x, w')"
  by (auto simp: or_fatal_def split: prod.splits sum.splits)

lemma run_return_Inr: "run_return x w = (Inr y, w') \<longleftrightarrow> y = x \<and> w' = w"
  by (auto simp: run_return_def)

lemma act_lift_Inr: "act_lift r w = (Inr x, w') \<longleftrightarrow> r = Inr x \<and> w' = w"
  by auto

lemmas run_Inr = or_fatal_Inr run_return_Inr act_lift_Inr

lemma valueType_certificate: "list_all (\<lambda>t. valueType t = AttributeTypeByteArray)
    [attributeID, attributeSubject, attributeIssuer, attributeObjectID, attributeSerialNumber,
     attributeValue] \<and>
   list_all (\<lambda>t. valueType t = AttributeTypeUlong) [attributeCertificateType] \<and>
   list_all (\<lambda>t. valueType t = AttributeTypeDate) [attributeStartDate, attributeEndDate]"
  by (simp add: valueType_unat)

lemmas valueType_cert = valueType_certificate [simplified]

text \<open>What an object of the server must be for the client to use it.\<close>

definition derive_flag :: "signer \<Rightarrow> byte" where
  "derive_flag s = (case s of EcdsaPrivateKey c x y d \<Rightarrow> bTrue | _ \<Rightarrow> bFalse)"

definition example_object_ok :: "object \<Rightarrow> bool" where
  "example_object_ok obj \<longleftrightarrow> typed_object obj \<and>
     (case obj_priv obj of
        None \<Rightarrow> True
      | Some s \<Rightarrow> map_option setByte (obj_attributeValue obj attributeDerive) = Some (Some (derive_flag s)))"

definition certificate_ok :: "certificate \<Rightarrow> bool" where
  "certificate_ok cert \<longleftrightarrow> valid_date (NotBefore cert) \<and> valid_date (NotAfter cert)"

lemma certificate_object_ok:
  assumes "NewX509CertificateObject env cert w = (Inr obj, w')" and "certificate_ok cert"
  shows "example_object_ok obj"
proof -
  obtain i d where "obj = \<lparr>obj_id = i, obj_attributes = certificate_attributes cert d,
      obj_pub = None, obj_priv = None\<rparr>"
    using assms(1) by (auto simp: NewX509CertificateObject_def elim!: act_bind_InrE)
  moreover have "\<forall>a \<in> set (certificate_attributes cert d). typed_attribute a"
    using assms(2) by (simp add: certificate_attributes_def certificate_ok_def valueType_cert valueType_key)
  ultimately show ?thesis by (simp add: example_object_ok_def typed_object_def)
qed

lemma derive_default: "find_attribute (common_attributes p spki @ extra) attributeDerive =
    Some (byte_attribute attributeDerive bFalse)"
  by (simp add: common_attributes_def)

lemma setByte_byte: "setByte (byte_attribute t b) = Some b"
  by (simp add: attribute_defs setByte_def)

lemma byte_attribute_update: "(byte_attribute t b)\<lparr>a_byte := Some c\<rparr> = byte_attribute t c"
  by (simp add: byte_attribute_def)

lemma valueType_derive: "valueType attributeDerive = AttributeTypeByte"
  by (simp add: valueType_key)

lemma SetDerive_typed:
  assumes "typed_object obj"
  shows "typed_object (SetDerive obj)"
proof -
  have "\<forall>a \<in> set (set_derive as). typed_attribute a" if "\<forall>a \<in> set as. typed_attribute a" for as
    using that
  proof (induction as)
    case (Cons b bs)
    have "typed_attribute (b\<lparr>a_byte := Some bTrue\<rparr>)" if "a_typ b = attributeDerive"
    proof -
      have "b = empty_attribute attributeDerive \<or> (\<exists>x. b = byte_attribute attributeDerive x)"
        using Cons.prems that valueType_derive by (auto simp: typed_attribute_def)
      then have "b\<lparr>a_byte := Some bTrue\<rparr> = byte_attribute attributeDerive bTrue"
        by (auto simp: byte_attribute_def)
      then show ?thesis using valueType_derive by simp
    qed
    then show ?case using Cons by simp
  qed (simp add: valueType_key)
  then show ?thesis using assms by (simp add: typed_object_def SetDerive_def)
qed

lemma allow_derive_parts: "obj_priv (allow_derive priv obj) = obj_priv obj"
  "obj_pub (allow_derive priv obj) = obj_pub obj"
  "t \<noteq> attributeDerive \<Longrightarrow> find_attribute (obj_attributes (allow_derive priv obj)) t =
    find_attribute (obj_attributes obj) t"
  by (auto simp: allow_derive_def SetDerive_def find_set_derive split: private_key.splits signer.splits)

lemma private_object_ok:
  assumes "NewPrivateKeyObject env (key_signer priv) w = (Inr obj, w')"
  shows "example_object_ok (allow_derive priv obj)"
proof -
  obtain s where s: "priv = SignerKey s"
    using assms by (cases priv) (auto simp: NewPrivateKeyObject_def)
  obtain as where as: "newKeyObject env (signer_Public s) True = Inr as" "obj_attributes obj = as"
    "obj_priv obj = Some s" "obj_pub obj = None"
    using assms by (auto simp: s NewPrivateKeyObject_Inr)
  have typed: "typed_object obj"
    using newKeyObject_wf [OF as(1)] as(2) by (simp add: typed_object_def wf_attributes_def)
  have "find_attribute as attributeDerive = Some (byte_attribute attributeDerive bFalse)"
    using as(1) by (rule newKeyObject_Inr) (simp add: derive_default)
  then have "map_option setByte (obj_attributeValue (allow_derive priv obj) attributeDerive) =
      Some (Some (derive_flag s))"
    by (cases s) (simp_all add: allow_derive_def s obj_attributeValue_def as(2) derive_flag_def
        SetDerive_def find_set_derive byte_attribute_update setByte_byte)
  moreover have "typed_object (allow_derive priv obj)"
    using typed by (auto simp: allow_derive_def SetDerive_typed split: private_key.splits signer.splits)
  ultimately show ?thesis by (simp add: example_object_ok_def allow_derive_parts as(3))
qed

lemma public_object_ok:
  assumes "NewPublicKeyObject env pub w = (Inr obj, w')"
  shows "example_object_ok obj"
proof -
  obtain as where "newKeyObject env pub False = Inr as" "obj_attributes obj = as" "obj_priv obj = None"
    using assms by (auto simp: NewPublicKeyObject_Inr)
  then show ?thesis
    using newKeyObject_wf [of env pub False as]
    by (simp add: example_object_ok_def typed_object_def wf_attributes_def)
qed

lemma SetCertificate_Inr:
  "SetCertificate obj cert = Inr obj' \<longleftrightarrow>
     (obj_pub obj \<noteq> None \<or> obj_priv obj \<noteq> None) \<and>
     (\<exists>n. SerialNumber cert = Some n \<and> obj' = obj\<lparr>obj_attributes := obj_attributes obj @
        [bytes_attribute attributeID (Some (marshalInt n)),
         bytes_attribute attributeSubject (RawSubject cert),
         bytes_attribute attributeObjectID (Some (marshalInt n)),
         bytes_attribute attributePublicKeyInfo (RawSubjectPublicKeyInfo cert)]\<rparr>)"
  by (auto simp: SetCertificate_def asn1_Marshal_int_def split: option.splits)

lemma SetCertificate_ok:
  assumes "SetCertificate obj cert = Inr obj'" and "example_object_ok obj"
  shows "example_object_ok obj'"
proof -
  obtain extra where e: "obj' = obj\<lparr>obj_attributes := obj_attributes obj @ extra\<rparr>"
    "\<forall>a \<in> set extra. typed_attribute a"
    using assms(1) by (auto simp: SetCertificate_Inr valueType_cert valueType_key)
  then have "typed_object obj'" using assms(2) by (auto simp: example_object_ok_def typed_object_def)
  moreover have "obj_attributeValue obj' t = Some a" if "obj_attributeValue obj t = Some a" for t a
    using that by (simp add: e(1) obj_attributeValue_def find_attribute_append)
  ultimately show ?thesis using assms(2)
    by (auto simp: example_object_ok_def e(1) split: option.splits)
qed

lemma set_certificates_ok:
  "set_certificates k eq certs obj w = (Inr obj', w') \<Longrightarrow> example_object_ok obj \<Longrightarrow> example_object_ok obj'"
proof (induction certs arbitrary: obj)
  case (Cons cert certs)
  show ?case
  proof (cases "eq (snd cert)")
    case True
    then obtain obj1 where "SetCertificate obj (fst cert) = Inr obj1"
      "set_certificates k eq certs obj1 w = (Inr obj', w')"
      using Cons.prems(1) by (auto simp: run_Inr elim!: run_bind_InrE)
    then show ?thesis using Cons.IH SetCertificate_ok Cons.prems(2) by blast
  qed (use Cons in simp)
qed (simp add: run_Inr)

definition parses_well :: "'w example_env \<Rightarrow> bool" where
  "parses_well ex \<longleftrightarrow> (\<forall>b cert pub. ex_ParseCertificate ex b = Inr (cert, pub) \<longrightarrow> certificate_ok cert)"

lemma load_certs_ok:
  assumes "load_certs env ex fs certs objs w = (Inr (certs', objs'), w')" and "parses_well ex"
    and "\<forall>obj \<in> set objs. example_object_ok obj"
  shows "(\<forall>obj \<in> set objs'. example_object_ok obj) \<and> length objs' = length objs + length fs"
  using assms(1,3)
proof (induction fs arbitrary: certs objs w)
  case (Cons f fs)
  from Cons.prems(1) obtain block :: pem_block and cert obj w2 w3 where
    cert: "ex_ParseCertificate ex (pem_Bytes block) = Inr cert"
    and obj: "NewX509CertificateObject env (fst cert) w2 = (Inr obj, w3)"
    and rest: "load_certs env ex fs (certs @ [cert]) (objs @ [obj]) w3 = (Inr (certs', objs'), w')"
    unfolding load_certs.simps run_bind_Inr run_Inr by blast
  have "certificate_ok (fst cert)" using cert assms(2) by (cases cert) (auto simp: parses_well_def)
  then have "\<forall>obj \<in> set (objs @ [obj]). example_object_ok obj"
    using certificate_object_ok [OF obj] Cons.prems(2) by simp
  from Cons.IH [OF rest this] show ?case by simp
qed (simp add: run_Inr)

lemma load_privs_ok:
  assumes "load_privs env ex certs fs objs w = (Inr objs', w')"
    and "\<forall>obj \<in> set objs. example_object_ok obj"
  shows "(\<forall>obj \<in> set objs'. example_object_ok obj) \<and> length objs' = length objs + length fs"
  using assms
proof (induction fs arbitrary: objs w)
  case (Cons f fs)
  from Cons.prems(1) obtain priv obj obj' w1 w2 w3 where
    obj: "NewPrivateKeyObject env (key_signer priv) w1 = (Inr obj, w2)"
    and obj': "set_certificates PrivateKeyFile (privEqual ex priv) certs (allow_derive priv obj) w2 =
      (Inr obj', w3)"
    and rest: "load_privs env ex certs fs (objs @ [obj']) w3 = (Inr objs', w')"
    unfolding load_privs.simps run_bind_Inr run_Inr by blast
  have "\<forall>obj \<in> set (objs @ [obj']). example_object_ok obj"
    using set_certificates_ok [OF obj' private_object_ok [OF obj]] Cons.prems(2) by simp
  from Cons.IH [OF rest this] show ?case by simp
qed (simp add: run_Inr)

lemma load_pubs_ok:
  assumes "load_pubs env ex certs fs objs w = (Inr objs', w')"
    and "\<forall>obj \<in> set objs. example_object_ok obj"
  shows "(\<forall>obj \<in> set objs'. example_object_ok obj) \<and> length objs' = length objs + length fs"
  using assms
proof (induction fs arbitrary: objs w)
  case (Cons f fs)
  from Cons.prems(1) obtain pub obj obj' w1 w2 w3 where
    obj: "NewPublicKeyObject env pub w1 = (Inr obj, w2)"
    and obj': "set_certificates PublicKeyFile (pubEqual ex pub) certs obj w2 = (Inr obj', w3)"
    and rest: "load_pubs env ex certs fs (objs @ [obj']) w3 = (Inr objs', w')"
    unfolding load_pubs.simps run_bind_Inr run_Inr by blast
  have "\<forall>obj \<in> set (objs @ [obj']). example_object_ok obj"
    using set_certificates_ok [OF obj' public_object_ok [OF obj]] Cons.prems(2) by simp
  from Cons.IH [OF rest this] show ?case by simp
qed (simp add: run_Inr)

lemma load_objects_ok:
  assumes "load_objects env ex cs vs ps w = (Inr objs, w')" and "parses_well ex"
  shows "(\<forall>obj \<in> set objs. example_object_ok obj) \<and> length objs = length cs + length vs + length ps"
proof -
  from assms(1) obtain c w1 where c: "load_certs env ex cs [] [] w = (Inr c, w1)"
    and rest: "(case c of (certs, objs) \<Rightarrow>
      run_bind (load_privs env ex certs vs objs) (load_pubs env ex certs ps)) w1 = (Inr objs, w')"
    unfolding load_objects_def by (rule run_bind_InrE)
  obtain certs objs1 where cp: "c = (certs, objs1)" by fastforce
  have "run_bind (load_privs env ex certs vs objs1) (load_pubs env ex certs ps) w1 = (Inr objs, w')"
    using rest unfolding cp prod.case .
  then obtain objs2 w2 where v: "load_privs env ex certs vs objs1 w1 = (Inr objs2, w2)"
    and p: "load_pubs env ex certs ps objs2 w2 = (Inr objs, w')" by (rule run_bind_InrE)
  have "(\<forall>obj \<in> set objs1. example_object_ok obj) \<and> length objs1 = length cs"
    using load_certs_ok [OF c [unfolded cp] assms(2)] by simp
  moreover from this have "(\<forall>obj \<in> set objs2. example_object_ok obj) \<and>
      length objs2 = length cs + length vs"
    using load_privs_ok [OF v] by simp
  ultimately show ?thesis using load_pubs_ok [OF p] by simp
qed

text \<open>The \<^verbatim>\<open>CKA_ID\<close> of a key is the serial number of the first certificate it belongs to.\<close>

lemma set_certificates_keep:
  "set_certificates k eq certs obj w = (Inr obj', w') \<Longrightarrow>
     find_attribute (obj_attributes obj) t = Some a \<Longrightarrow> find_attribute (obj_attributes obj') t = Some a"
proof (induction certs arbitrary: obj)
  case (Cons cert certs)
  then show ?case
    by (cases "eq (snd cert)")
      (auto simp: run_Inr SetCertificate_Inr find_attribute_append elim!: run_bind_InrE)
qed (simp add: run_Inr)

lemma set_certificates_ID:
  assumes "set_certificates k eq certs obj w = (Inr obj', w')"
    and "List.find (\<lambda>cert. eq (snd cert)) certs = Some cert"
    and "find_attribute (obj_attributes obj) attributeID = None"
  shows "\<exists>n. SerialNumber (fst cert) = Some n \<and>
    find_attribute (obj_attributes obj') attributeID = Some (bytes_attribute attributeID (Some (marshalInt n)))"
  using assms
proof (induction certs arbitrary: obj)
  case (Cons c certs)
  show ?case
  proof (cases "eq (snd c)")
    case True
    then have "c = cert" using Cons.prems(2) by simp
    then obtain obj1 n where n: "SerialNumber (fst cert) = Some n"
      "set_certificates k eq certs obj1 w = (Inr obj', w')"
      "find_attribute (obj_attributes obj1) attributeID =
        Some (bytes_attribute attributeID (Some (marshalInt n)))"
      using Cons.prems(1,3) True
      by (auto simp: run_Inr SetCertificate_Inr find_attribute_append elim!: run_bind_InrE)
    then show ?thesis using set_certificates_keep [OF n(2,3)] by blast
  qed (use Cons in simp)
qed simp

lemma newKeyObject_no_ID:
  assumes "newKeyObject env pub p = Inr as"
  shows "find_attribute as attributeID = None"
  using assms
proof (rule newKeyObject_Inr)
  fix spki extra
  assume "as = common_attributes p spki @ extra"
    and "map a_typ extra = ecdsa_types p \<or> map a_typ extra = rsa_types p"
  then have "map a_typ as = key_types p @ ecdsa_types p \<or> map a_typ as = key_types p @ rsa_types p"
    using common_attributes_wf(1) [of p spki] by auto
  moreover have "attributeID \<notin> set (key_types p @ ecdsa_types p)" "attributeID \<notin> set (key_types p @ rsa_types p)"
    by (simp_all add: key_types_def ecdsa_types_def rsa_types_def)
  ultimately have "attributeID \<notin> set (map a_typ as)" by metis
  then show ?thesis unfolding find_attribute_None by simp
qed

section \<open>What the example server guarantees\<close>

text \<open>
  C27: Once the files are loaded there is one object for each, every value of its type's
  kind, and the private keys that may derive are the ECDSA keys; and whatever clients do
  from then on, the server has that one slot, initialized under its label, with these objects
  first.
\<close>

theorem example_server_ok:
  assumes "load_objects env ex certFiles privFiles pubFiles w = (Inr objs, w')" and "parses_well ex"
    and "sys_steps env (start w' (example_handler objs)) S"
  shows "length objs = length certFiles + length privFiles + length pubFiles \<and>
    list_all example_object_ok objs \<and> server_ok (example_handler objs) \<and>
    (\<exists>s more. Slots (sys_server S) = [s] \<and> slot_ID s = 1 \<and> Initialized s \<and>
      Label s = ''example'' \<and> Objects s = objs @ more)"
proof (intro conjI)
  have ok: "\<forall>obj \<in> set objs. example_object_ok obj" using load_objects_ok [OF assms(1,2)] by blast
  then show "list_all example_object_ok objs" by (simp add: list_all_iff)
  show "length objs = length certFiles + length privFiles + length pubFiles"
    using load_objects_ok [OF assms(1,2)] by blast
  show "server_ok (example_handler objs)"
    using ok by (simp add: server_ok_def example_handler_def example_slot_def example_object_ok_def)
  have "server_le (example_handler objs) (sys_server S)"
    using shared.steps_le [OF assms(3)] by (simp add: start_def)
  then obtain s where "Slots (sys_server S) = [s]" "slot_le (example_slot objs) s"
    by (auto simp: server_le_def example_handler_def list_all2_Cons1)
  then show "\<exists>s more. Slots (sys_server S) = [s] \<and> slot_ID s = 1 \<and> Initialized s \<and>
      Label s = ''example'' \<and> Objects s = objs @ more"
    by (auto simp: slot_le_def example_slot_def)
qed

definition sample_certificate :: certificate where
  "sample_certificate =
    \<lparr>SerialNumber = Some 5, Raw = Some [1], RawSubject = Some [2], RawIssuer = Some [3],
     RawSubjectPublicKeyInfo = Some [4], NotBefore = \<lparr>year = 2022, month = 1, day = 1\<rparr>,
     NotAfter = \<lparr>year = 2032, month = 1, day = 1\<rparr>\<rparr>"

abbreviation sample_key :: signer where
  "sample_key \<equiv> OtherSigner (RsaPublicKey 4 3) 0"

definition sample_example :: "nat example_env" where
  "sample_example =
    \<lparr>ex_ReadFile = (\<lambda>f w. (Inr (bytes_of f), w)),
     ex_pem_Decode = (\<lambda>b. Some \<lparr>pem_Type = [], pem_Bytes = b\<rparr>),
     ex_ParseCertificate = (\<lambda>b. Inr (sample_certificate, Some (RsaPublicKey 4 3))),
     ex_ParsePKCS1PrivateKey = (\<lambda>b. Inr (SignerKey sample_key)),
     ex_ParseECPrivateKey = (\<lambda>b. Inr (SignerKey sample_key)),
     ex_ParsePKCS8PrivateKey = (\<lambda>b. Inr (SignerKey sample_key)),
     ex_ParsePKCS1PublicKey = (\<lambda>b. Inr (RsaPublicKey 4 3)),
     ex_ParsePKIXPublicKey = (\<lambda>b. Inr (RsaPublicKey 4 3)),
     ex_Equal = (\<lambda>n. None)\<rparr>"

lemmas sample_load_defs = sample_example_def read_block_def run_bind_def or_fatal_def run_return_def
  parsePrivateKey_def NewX509CertificateObject_def NewPrivateKeyObject_def act_bind_def
  newObjectID_def sample_env_def sample_certificate_def asn1_Marshal_int_def newKeyObject_def
  allow_derive_def privEqual_def pubEqual_def SetCertificate_def

lemma sample_load_certs:
  "\<exists>obj. load_certs sample_env sample_example [''c''] [] [] 0 =
      (Inr ([(sample_certificate, Some (RsaPublicKey 4 3))], [obj]), 1) \<and>
    NewX509CertificateObject sample_env sample_certificate 0 = (Inr obj, 1)"
  by (simp add: sample_load_defs)

lemma sample_load_privs:
  "\<exists>obj w'. load_privs sample_env sample_example [(sample_certificate, Some (RsaPublicKey 4 3))]
      [''k''] objs 1 = (Inr (objs @ [obj]), w')"
  by (simp add: sample_load_defs)

theorem example_server_ok_witness:
  "\<exists>objs w'. load_objects sample_env sample_example [''c''] [''k''] [] 0 = (Inr objs, w') \<and>
    length objs = 2 \<and> list_all example_object_ok objs \<and> server_ok (example_handler objs)"
proof -
  obtain c where c: "load_certs sample_env sample_example [''c''] [] [] 0 =
      (Inr ([(sample_certificate, Some (RsaPublicKey 4 3))], [c]), 1)"
    using sample_load_certs by blast
  obtain k w' where "load_privs sample_env sample_example
      [(sample_certificate, Some (RsaPublicKey 4 3))] [''k''] [c] 1 = (Inr ([c] @ [k]), w')"
    using sample_load_privs by blast
  then have l: "load_objects sample_env sample_example [''c''] [''k''] [] 0 = (Inr [c, k], w')"
    using c by (simp add: load_objects_def run_bind_def run_return_def)
  have p: "parses_well sample_example"
    by (simp add: parses_well_def sample_example_def sample_certificate_def certificate_ok_def
        valid_date_def days_in_def)
  show ?thesis using example_server_ok [OF l p rtranclp.rtrancl_refl] l by auto
qed

text \<open>
  A private key loaded with its certificate has the \<^verbatim>\<open>CKA_ID\<close> of the certificate's object,
  which is how clients find one from the other; of several certificates the first counts.
\<close>

lemma example_key_finds_certificate:
  assumes "NewX509CertificateObject env (fst cert) w1 = (Inr cert_obj, w2)"
    and "NewPrivateKeyObject env (key_signer priv) w3 = (Inr obj, w4)"
    and "set_certificates PrivateKeyFile (privEqual ex priv) certs (allow_derive priv obj) w4 =
      (Inr key_obj, w5)"
    and "List.find (\<lambda>cert. privEqual ex priv (snd cert)) certs = Some cert"
  shows "obj_attributeValue key_obj attributeID \<noteq> None \<and>
    obj_attributeValue key_obj attributeID = obj_attributeValue cert_obj attributeID"
proof -
  obtain s where s: "key_signer priv = Some s"
    using assms(2) by (cases "key_signer priv") (auto simp: NewPrivateKeyObject_def)
  then obtain as where "newKeyObject env (signer_Public s) True = Inr as" "obj_attributes obj = as"
    using assms(2) by (auto simp: NewPrivateKeyObject_Inr)
  then have "find_attribute (obj_attributes (allow_derive priv obj)) attributeID = None"
    by (subst allow_derive_parts(3)) (simp_all add: newKeyObject_no_ID)
  from set_certificates_ID [OF assms(3,4) this] obtain n where
    n: "SerialNumber (fst cert) = Some n"
      "find_attribute (obj_attributes key_obj) attributeID =
        Some (bytes_attribute attributeID (Some (marshalInt n)))" by blast
  have "find_attribute (obj_attributes cert_obj) attributeID =
      Some (bytes_attribute attributeID (Some (marshalInt n)))"
    using assms(1) n(1)
    by (auto simp: NewX509CertificateObject_def asn1_Marshal_int_def certificate_attributes_def
        elim!: act_bind_InrE)
  then show ?thesis using n(2) by (simp add: obj_attributeValue_def)
qed

lemma example_key_finds_certificate_witness:
  "\<exists>cert_obj obj key_obj w.
    NewX509CertificateObject sample_env sample_certificate 0 = (Inr cert_obj, 1) \<and>
    NewPrivateKeyObject sample_env (Some sample_key) 1 = (Inr obj, w) \<and>
    set_certificates PrivateKeyFile (privEqual sample_example (SignerKey sample_key))
      [(sample_certificate, Some (RsaPublicKey 4 3))] (allow_derive (SignerKey sample_key) obj) w =
      (Inr key_obj, w) \<and>
    obj_attributeValue key_obj attributeID = obj_attributeValue cert_obj attributeID"
proof -
  let ?cert = "(sample_certificate, Some (RsaPublicKey 4 3))"
  have eq: "privEqual sample_example (SignerKey sample_key) (Some (RsaPublicKey 4 3))"
    by (simp add: privEqual_def pubEqual_def)
  obtain cert_obj where c: "NewX509CertificateObject sample_env (fst ?cert) 0 = (Inr cert_obj, 1)"
    using sample_load_certs by auto
  obtain obj w where o: "NewPrivateKeyObject sample_env (key_signer (SignerKey sample_key)) 1 = (Inr obj, w)"
    and k: "obj_priv obj \<noteq> None"
    by (simp add: NewPrivateKeyObject_def act_bind_def newObjectID_def sample_env_def newKeyObject_def)
  obtain key_obj where kc: "set_certificates PrivateKeyFile (privEqual sample_example (SignerKey sample_key))
      [?cert] (allow_derive (SignerKey sample_key) obj) w = (Inr key_obj, w)"
    using k by (simp add: eq run_bind_def or_fatal_def run_return_def SetCertificate_def
        allow_derive_def asn1_Marshal_int_def sample_certificate_def)
  from example_key_finds_certificate [OF c o kc] eq c o kc show ?thesis by auto
qed

end
