(* ===== verification/ExampleMain.thy ===== *)
theory ExampleMain
  imports Example
begin

text \<open>
  The command line and the life of the example server, \<^verbatim>\<open>main\<close> of
  \<^verbatim>\<open>example/example-p11-kit-server/main.go\<close>: its flags as Go's \<^verbatim>\<open>flag\<close> package parses them, the
  ways it can end, and what it serves. Temporary directories, joining paths and listening are
  parameters (\<open>os_env\<close>).
\<close>

section \<open>Flags\<close>

record options =
  opt_cert :: "string list"
  opt_priv :: "string list"
  opt_pub :: "string list"
  opt_stdio :: bool

definition no_options :: options where
  "no_options = \<lparr>opt_cert = [], opt_priv = [], opt_pub = [], opt_stdio = False\<rparr>"

text \<open>Why \<^verbatim>\<open>flag.Parse\<close> gives up: \<^verbatim>\<open>-h\<close> or \<^verbatim>\<open>-help\<close>, or an error.\<close>

datatype flag_error =
    ErrHelp
  | BadSyntax string
  | NotDefined string
  | NeedsArgument string
  | InvalidValue string string

text \<open>\<^verbatim>\<open>strconv.ParseBool\<close>\<close>

definition parse_bool :: "string \<Rightarrow> bool option" where
  "parse_bool s =
     (if s \<in> set [''1'', ''t'', ''T'', ''true'', ''TRUE'', ''True''] then Some True
      else if s \<in> set [''0'', ''f'', ''F'', ''false'', ''FALSE'', ''False''] then Some False
      else None)"

text \<open>The name of a flag and its value, if the argument has one after a \<^verbatim>\<open>=\<close> that is not its first character.\<close>

fun split_value :: "string \<Rightarrow> string \<times> string option" where
  "split_value [] = ([], None)"
| "split_value (c # s) =
     (if c = CHR ''='' then ([], Some s) else (case split_value s of (n, v) \<Rightarrow> (c # n, v)))"

definition name_value :: "string \<Rightarrow> string \<times> string option" where
  "name_value s = (case s of [] \<Rightarrow> ([], None) | c # s \<Rightarrow> (case split_value s of (n, v) \<Rightarrow> (c # n, v)))"

text \<open>The functions that the program registers with \<^verbatim>\<open>flag.Func\<close>.\<close>

definition file_flag :: "string \<Rightarrow> (string \<Rightarrow> options \<Rightarrow> options) option" where
  "file_flag name =
     (if name = ''cert'' then Some (\<lambda>file opts. opts\<lparr>opt_cert := opt_cert opts @ [file]\<rparr>)
      else if name = ''priv'' then Some (\<lambda>file opts. opts\<lparr>opt_priv := opt_priv opts @ [file]\<rparr>)
      else if name = ''pub'' then Some (\<lambda>file opts. opts\<lparr>opt_pub := opt_pub opts @ [file]\<rparr>)
      else None)"

text \<open>A flag, \<^verbatim>\<open>-name\<close> or \<^verbatim>\<open>--name\<close>, by what follows the hyphens; \<open>None\<close> stops the parser.\<close>

definition flag_body :: "string \<Rightarrow> string option" where
  "flag_body s =
     (case s of
        CHR ''-'' # CHR ''-'' # b \<Rightarrow> Some b
      | CHR ''-'' # c # b \<Rightarrow> Some (c # b)
      | _ \<Rightarrow> None)"

function parse_flags :: "options \<Rightarrow> string list \<Rightarrow> flag_error + (options \<times> string list)" where
  "parse_flags opts [] = Inr (opts, [])"
| "parse_flags opts (s # args) =
     (case flag_body s of
        None \<Rightarrow> Inr (opts, s # args)
      | Some body \<Rightarrow>
          if body = [] then Inr (opts, args)
          else if hd body = CHR ''-'' \<or> hd body = CHR ''='' then Inl (BadSyntax s)
          else (case name_value body of (name, val) \<Rightarrow>
            (case file_flag name of
               Some f \<Rightarrow>
                 (case val of
                    Some v \<Rightarrow> parse_flags (f v opts) args
                  | None \<Rightarrow>
                      (case args of
                         [] \<Rightarrow> Inl (NeedsArgument name)
                       | v # args \<Rightarrow> parse_flags (f v opts) args))
             | None \<Rightarrow>
                 if name = ''stdio'' then
                   (case val of
                      None \<Rightarrow> parse_flags (opts\<lparr>opt_stdio := True\<rparr>) args
                    | Some v \<Rightarrow>
                        (case parse_bool v of
                           None \<Rightarrow> Inl (InvalidValue v name)
                         | Some b \<Rightarrow> parse_flags (opts\<lparr>opt_stdio := b\<rparr>) args))
                 else if name = ''help'' \<or> name = ''h'' then Inl ErrHelp
                 else Inl (NotDefined name))))"
  by pat_completeness auto

termination by (relation "measure (\<lambda>(opts, args). length args)") auto

section \<open>The program\<close>

record 'w os_env =
  os_MkdirTemp :: "('w, string) act"
  os_Join :: "string \<Rightarrow> string \<Rightarrow> string"
  os_Listen :: "string \<Rightarrow> ('w, unit) act"

text \<open>
  How the program goes on: it prints its usage and exits, exits with a status, dies of an error that it logs, or prints a
  line and accepts connections on a socket, which the concurrent server serves from there.
\<close>

datatype 'w life =
    UsageExit nat
  | Exit nat
  | FatalLoading fatal
  | FatalHandling go_error
  | FatalTempDir go_error
  | FatalListening string go_error
  | Accepting string "'w system"

text \<open>\<^verbatim>\<open>flag.CommandLine\<close> exits when parsing fails, with 0 for help and 2 otherwise, after \<open>usage\<close>.\<close>

definition flag_exit :: "flag_error \<Rightarrow> nat" where
  "flag_exit e = (if e = ErrHelp then 0 else 2)"

definition export_line :: "string \<Rightarrow> string" where
  "export_line path = ''export P11_KIT_SERVER_ADDRESS=unix:path='' @ path @ [CHR 0x0A]"

definition listen_path :: "'w os_env \<Rightarrow> string \<Rightarrow> ('w, string) act" where
  "listen_path os unixPath =
     (if unixPath = []
      then act_bind (os_MkdirTemp os) (\<lambda>tempDir. act_return (os_Join os tempDir ''p11kit.sock''))
      else act_return unixPath)"

text \<open>Its result is the life it leads and what it has printed on the standard output.\<close>

definition example_main :: "'w env \<Rightarrow> 'w example_env \<Rightarrow> 'w os_env \<Rightarrow> string list \<Rightarrow> connection \<Rightarrow>
    'w \<Rightarrow> 'w life \<times> bytes" where
  "example_main env ex os args stdio w =
     (case parse_flags no_options args of
        Inl e \<Rightarrow> (UsageExit (flag_exit e), [])
      | Inr (opts, args) \<Rightarrow>
          (case unix_path args of
             None \<Rightarrow> (UsageExit 1, [])
           | Some unixPath \<Rightarrow>
               (case load_objects env ex (opt_cert opts) (opt_priv opts) (opt_pub opts) w of
                  (Inl e, w) \<Rightarrow> (FatalLoading e, [])
                | (Inr objs, w) \<Rightarrow>
                    let h = example_handler objs in
                    if opt_stdio opts then
                      (case Handle env w h stdio of
                         (Some e, st, c) \<Rightarrow> (FatalHandling e, io_out c)
                       | (None, st, c) \<Rightarrow> (Exit 0, io_out c))
                    else
                      (case listen_path os unixPath w of
                         (Inl e, w) \<Rightarrow> (FatalTempDir e, [])
                       | (Inr path, w) \<Rightarrow>
                           (case os_Listen os path w of
                              (Inl e, w) \<Rightarrow> (FatalListening path e, [])
                            | (Inr (), w) \<Rightarrow> (Accepting path (start w h), bytes_of (export_line path)))))))"

section \<open>Command lines\<close>

text \<open>A flag with its file, as \<^verbatim>\<open>-cert file\<close>, \<^verbatim>\<open>--cert file\<close>, \<^verbatim>\<open>-cert=file\<close> or \<^verbatim>\<open>--cert=file\<close>.\<close>

datatype file_option = Cert | Priv | Pub

fun option_name :: "file_option \<Rightarrow> string" where
  "option_name Cert = ''cert''"
| "option_name Priv = ''priv''"
| "option_name Pub = ''pub''"

datatype argument = File file_option string | Stdio

definition hyphens :: "bool \<Rightarrow> string" where
  "hyphens double = (if double then ''--'' else ''-'')"

fun render :: "argument \<times> bool \<times> bool \<Rightarrow> string list" where
  "render (File k f, double, joined) =
     (if joined then [hyphens double @ option_name k @ ''='' @ f]
      else [hyphens double @ option_name k, f])"
| "render (Stdio, double, joined) = [hyphens double @ ''stdio'' @ (if joined then ''=true'' else [])]"

definition files_of :: "file_option \<Rightarrow> argument list \<Rightarrow> string list" where
  "files_of k as = concat (map (\<lambda>a. case a of File k' f \<Rightarrow> if k' = k then [f] else [] | Stdio \<Rightarrow> []) as)"

definition options_of :: "argument list \<Rightarrow> options" where
  "options_of as = \<lparr>opt_cert = files_of Cert as, opt_priv = files_of Priv as, opt_pub = files_of Pub as,
     opt_stdio = (Stdio \<in> set as)\<rparr>"

lemma flag_body_hyphens:
  "c \<noteq> CHR ''-'' \<Longrightarrow> flag_body (hyphens double @ c # s) = Some (c # s)"
  by (simp add: flag_body_def hyphens_def split: char.split bool.split)

lemma name_value_join:
  "CHR ''='' \<notin> set n \<Longrightarrow> n \<noteq> [] \<Longrightarrow> name_value (n @ CHR ''='' # v) = (n, Some v)"
  "CHR ''='' \<notin> set n \<Longrightarrow> name_value n = (n, None)"
proof -
  have "split_value (n @ CHR ''='' # v) = (n, Some v)" "split_value n = (n, None)"
    if "CHR ''='' \<notin> set n" for n
    using that by (induction n) auto
  then show "CHR ''='' \<notin> set n \<Longrightarrow> n \<noteq> [] \<Longrightarrow> name_value (n @ CHR ''='' # v) = (n, Some v)"
    "CHR ''='' \<notin> set n \<Longrightarrow> name_value n = (n, None)"
    by (cases n; simp add: name_value_def)+
qed

lemma parse_argument:
  "parse_flags opts (render (a, double, joined) @ args) =
     parse_flags (case a of
        File Cert f \<Rightarrow> opts\<lparr>opt_cert := opt_cert opts @ [f]\<rparr>
      | File Priv f \<Rightarrow> opts\<lparr>opt_priv := opt_priv opts @ [f]\<rparr>
      | File Pub f \<Rightarrow> opts\<lparr>opt_pub := opt_pub opts @ [f]\<rparr>
      | Stdio \<Rightarrow> opts\<lparr>opt_stdio := True\<rparr>) args"
proof (cases a)
  case (File k f)
  have "CHR ''='' \<notin> set (option_name k)" "option_name k \<noteq> []" by (cases k; simp)+
  note n = name_value_join(1) [OF this] name_value_join(2) [OF this(1)]
  show ?thesis
    using File n by (cases k; cases joined) (simp_all add: flag_body_hyphens file_flag_def)
next
  case Stdio
  have "name_value ''stdio=true'' = (''stdio'', Some ''true'')" "name_value ''stdio'' = (''stdio'', None)"
    by (simp_all add: name_value_def)
  then show ?thesis
    using Stdio by (cases joined) (simp_all add: flag_body_hyphens file_flag_def parse_bool_def)
qed

lemma parse_arguments:
  "parse_flags opts (concat (map render as) @ args) =
     parse_flags \<lparr>opt_cert = opt_cert opts @ files_of Cert (map fst as),
       opt_priv = opt_priv opts @ files_of Priv (map fst as),
       opt_pub = opt_pub opts @ files_of Pub (map fst as),
       opt_stdio = (opt_stdio opts \<or> Stdio \<in> fst ` set as)\<rparr> args"
proof (induction as arbitrary: opts)
  case Nil
  then show ?case by (cases opts) (simp add: files_of_def)
next
  case (Cons x as)
  obtain a double joined where x: "x = (a, double, joined)" by (cases x)
  show ?case
    unfolding list.map concat.simps append_assoc x parse_argument Cons.IH
    by (auto simp: files_of_def split: argument.split file_option.split)
qed

text \<open>
  C28: Every command line of the documented form is understood as it is meant: files in any
  order and any spelling of the flags, with arbitrary names, are loaded by kind in their order,
  before one argument that names the socket, or none; the program then serves these files on
  standard input, or listens and accepts connections, which start with no sessions on
  the one slot, after printing one line that names the socket.
\<close>

theorem command_line_serves:
  assumes "tail = ''--'' # rest \<or> tail = rest \<and> (rest = [] \<or> flag_body (hd rest) = None)"
    and "length rest \<le> 1" and "load_objects env ex (files_of Cert (map fst as))
      (files_of Priv (map fst as)) (files_of Pub (map fst as)) w = (Inr objs, w')"
    and "listen_path os (concat rest) w' = (Inr path, u)" and "os_Listen os path u = (Inr (), v)"
  shows "example_main env ex os (concat (map render as) @ tail) stdio w =
    (if Stdio \<in> fst ` set as then
       (case Handle env w' (example_handler objs) stdio of
          (Some e, st, c) \<Rightarrow> (FatalHandling e, io_out c)
        | (None, st, c) \<Rightarrow> (Exit 0, io_out c))
     else (Accepting path (start v (example_handler objs)), bytes_of (export_line path)))"
proof -
  have "flag_body ''--'' = Some []" by (simp add: flag_body_def)
  then have "parse_flags opts tail = Inr (opts, rest)" for opts
    using assms(1) by (cases rest) auto
  then have "parse_flags no_options (concat (map render as) @ tail) = Inr (options_of (map fst as), rest)"
    unfolding parse_arguments by (simp add: no_options_def options_of_def)
  moreover have "unix_path rest = Some (concat rest)"
    using assms(2) by (cases rest) (auto simp: unix_path_def)
  ultimately show ?thesis
    using assms(3-5) by (simp add: example_main_def options_of_def Let_def split: unit.split)
qed

definition sample_os :: "nat os_env" where
  "sample_os = \<lparr>os_MkdirTemp = (\<lambda>w. (Inr ''/tmp/1'', w)), os_Join = (\<lambda>d f. d @ ''/'' @ f),
     os_Listen = (\<lambda>p w. (Inr (), w))\<rparr>"

theorem command_line_serves_witness:
  "\<exists>objs w'. example_main sample_env sample_example sample_os
      [''-cert'', ''c'', ''--priv=k''] \<lparr>io_in = [], io_out = [], writes_left = None\<rparr> 0 =
    (Accepting ''/tmp/1/p11kit.sock'' (start w' (example_handler objs)),
     bytes_of (export_line ''/tmp/1/p11kit.sock''))"
proof -
  let ?c = "\<lparr>io_in = [], io_out = [], writes_left = None\<rparr>"
  let ?as = "[(File Cert ''c'', False, False), (File Priv ''k'', True, True)]"
  obtain cert where c: "load_certs sample_env sample_example [''c''] [] [] 0 =
      (Inr ([(sample_certificate, Some (RsaPublicKey 4 3))], [cert]), 1)"
    using sample_load_certs by blast
  obtain k w' where "load_privs sample_env sample_example
      [(sample_certificate, Some (RsaPublicKey 4 3))] [''k''] [cert] 1 = (Inr ([cert] @ [k]), w')"
    using sample_load_privs by blast
  then have l: "load_objects sample_env sample_example (files_of Cert (map fst ?as))
      (files_of Priv (map fst ?as)) (files_of Pub (map fst ?as)) 0 = (Inr [cert, k], w')"
    using c by (simp add: files_of_def load_objects_def run_bind_def run_return_def)
  have "concat (map render ?as) @ [] = [''-cert'', ''c'', ''--priv=k'']"
    by (simp add: hyphens_def)
  moreover have "example_main sample_env sample_example sample_os (concat (map render ?as) @ []) ?c 0 =
      (Accepting ''/tmp/1/p11kit.sock'' (start w' (example_handler [cert, k])),
       bytes_of (export_line ''/tmp/1/p11kit.sock''))"
    by (subst command_line_serves [OF _ _ l, where rest = "[]" and path = "''/tmp/1/p11kit.sock''" and u = w' and v = w'])
      (simp_all add: listen_path_def sample_os_def act_bind_def)
  ultimately show ?thesis by (metis (no_types))
qed

end
