(* ===== verification/Slices.thy ===== *)
theory Slices
  imports System SessionProperties
begin

text \<open>
  The object lists of \<^verbatim>\<open>p11kit/p11kit.go\<close> as what they are in memory: Go slices, windows into
  arrays of a store, which \<^verbatim>\<open>append\<close> writes in place when there is room. The rest of the
  development has them as lists; here that is justified for slots whose objects are
  static, and shown wrong for slots whose \<^verbatim>\<open>GetObjects\<close> returns the same slice twice.
\<close>

section \<open>Slices\<close>

record slice =
  sl_array :: nat
  sl_off :: nat
  sl_len :: nat
  sl_cap :: nat

text \<open>The arrays by their addresses; addresses from \<open>next_array\<close> on are not in use.\<close>

record 'o store =
  arrays :: "nat \<Rightarrow> 'o list"
  next_array :: nat

definition nil_slice :: slice where
  "nil_slice = \<lparr>sl_array = 0, sl_off = 0, sl_len = 0, sl_cap = 0\<rparr>"

definition contents :: "'o store \<Rightarrow> slice \<Rightarrow> 'o list" where
  "contents h s = take (sl_len s) (drop (sl_off s) (arrays h (sl_array s)))"

definition overwrite :: "'o list \<Rightarrow> nat \<Rightarrow> 'o list \<Rightarrow> 'o list" where
  "overwrite l i xs = take i l @ xs @ drop (i + length xs) l"

text \<open>
  \<^verbatim>\<open>append(s, xs...)\<close>. How much room a new array has beyond what is needed is up to the
  runtime: \<open>extra\<close> of the old capacity and the new length. The spare cells of a new
  array hold \<open>zero\<close>.
\<close>

definition go_append ::
  "(nat \<Rightarrow> nat \<Rightarrow> nat) \<Rightarrow> 'o \<Rightarrow> 'o store \<Rightarrow> slice \<Rightarrow> 'o list \<Rightarrow> slice \<times> 'o store" where
  "go_append extra zero h s xs =
     (let n = sl_len s + length xs in
      if n \<le> sl_cap s then
        (s\<lparr>sl_len := n\<rparr>,
         h\<lparr>arrays := (arrays h)(sl_array s :=
           overwrite (arrays h (sl_array s)) (sl_off s + sl_len s) xs)\<rparr>)
      else
        (\<lparr>sl_array = next_array h, sl_off = 0, sl_len = n, sl_cap = n + extra (sl_cap s) n\<rparr>,
         h\<lparr>arrays := (arrays h)(next_array h :=
             contents h s @ xs @ replicate (extra (sl_cap s) n) zero),
           next_array := Suc (next_array h)\<rparr>))"

text \<open>A slice of the store, and two slices that share no cell, spare cells included.\<close>

definition slice_ok :: "'o store \<Rightarrow> slice \<Rightarrow> bool" where
  "slice_ok h s \<longleftrightarrow> sl_len s \<le> sl_cap s \<and>
     (sl_cap s = 0 \<or>
      sl_array s < next_array h \<and> sl_off s + sl_cap s \<le> length (arrays h (sl_array s)))"

definition apart :: "slice \<Rightarrow> slice \<Rightarrow> bool" where
  "apart s t \<longleftrightarrow> sl_cap s = 0 \<or> sl_cap t = 0 \<or> sl_array s \<noteq> sl_array t \<or>
     sl_off s + sl_cap s \<le> sl_off t \<or> sl_off t + sl_cap t \<le> sl_off s"

section \<open>The interface: appending to one of several lists\<close>

locale list_cells =
  fixes read :: "'h \<Rightarrow> 's \<Rightarrow> 'o list" and app :: "'h \<Rightarrow> 's \<Rightarrow> 'o list \<Rightarrow> 's \<times> 'h"
    and ok :: "'h \<Rightarrow> 's \<Rightarrow> bool" and separate :: "'s \<Rightarrow> 's \<Rightarrow> bool" and empty :: 's
  assumes app_read: "ok h s \<Longrightarrow> app h s xs = (s', h') \<Longrightarrow> ok h' s' \<and> read h' s' = read h s @ xs"
    and app_other: "ok h s \<Longrightarrow> ok h t \<Longrightarrow> separate s t \<Longrightarrow> app h s xs = (s', h') \<Longrightarrow>
      ok h' t \<and> read h' t = read h t \<and> separate s' t"
    and separate_sym: "separate s t \<Longrightarrow> separate t s"
    and empty_ok: "ok h empty \<and> read h empty = [] \<and> separate empty t"
begin

definition owned :: "'h \<Rightarrow> ('k \<Rightarrow> 's option) \<Rightarrow> bool" where
  "owned h m \<longleftrightarrow> (\<forall>k s. m k = Some s \<longrightarrow> ok h s) \<and>
     (\<forall>j k s t. j \<noteq> k \<longrightarrow> m j = Some s \<longrightarrow> m k = Some t \<longrightarrow> separate s t)"

definition lists :: "'h \<Rightarrow> ('k \<Rightarrow> 's option) \<Rightarrow> 'k \<Rightarrow> 'o list option" where
  "lists h m k = map_option (read h) (m k)"

lemma ownedD: "owned h m \<Longrightarrow> m k = Some s \<Longrightarrow> ok h s"
  by (simp add: owned_def)

text \<open>A cell that is apart from all in use may be taken over, and appending to it moves no other.\<close>

lemma owned_put:
  assumes "owned h m" and "ok h s" and "\<And>j t. j \<noteq> k \<Longrightarrow> m j = Some t \<Longrightarrow> separate s t"
  shows "owned h (m(k \<mapsto> s)) \<and> lists h (m(k \<mapsto> s)) = (lists h m)(k \<mapsto> read h s)"
proof -
  have "separate s t \<and> separate t s" if "m j = Some t" "\<not> k = j" for j t
    using assms(3) [of j t] separate_sym that by auto
  then show ?thesis using assms(1,2) by (auto simp: owned_def lists_def fun_eq_iff eq_commute [of _ k])
qed

lemma owned_forget:
  "owned h m \<Longrightarrow> owned h (\<lambda>k. if P k then None else m k) \<and>
    lists h (\<lambda>k. if P k then None else m k) = (\<lambda>k. if P k then None else lists h m k)"
  by (auto simp: owned_def lists_def fun_eq_iff)

lemma owned_append_new:
  assumes "owned h m" and "ok h s" and sep: "\<And>j t. j \<noteq> k \<Longrightarrow> m j = Some t \<Longrightarrow> separate s t"
    and "app h s xs = (s', h')"
  shows "owned h' (m(k \<mapsto> s')) \<and> lists h' (m(k \<mapsto> s')) = (lists h m)(k \<mapsto> read h s @ xs)"
proof -
  have s': "ok h' s'" "read h' s' = read h s @ xs" using app_read assms(2,4) by blast+
  have other: "ok h' t \<and> read h' t = read h t \<and> separate s' t" if "j \<noteq> k" "m j = Some t" for j t
    using app_other assms(2,4) ownedD [OF assms(1) that(2)] sep [OF that] by blast
  have "owned h' (m(k \<mapsto> s'))"
    unfolding owned_def
  proof (intro conjI allI impI)
    fix j u assume "(m(k \<mapsto> s')) j = Some u"
    then show "ok h' u" using s'(1) other by (cases "j = k") auto
  next
    fix i j u v assume "i \<noteq> j" "(m(k \<mapsto> s')) i = Some u" "(m(k \<mapsto> s')) j = Some v"
    then show "separate u v"
      using other assms(1) separate_sym unfolding owned_def by (cases "i = k"; cases "j = k") auto
  qed
  moreover have "lists h' (m(k \<mapsto> s')) j = ((lists h m)(k \<mapsto> read h s @ xs)) j" for j
    using other s'(2) by (cases "j = k"; cases "m j") (auto simp: lists_def)
  ultimately show ?thesis by blast
qed

lemma owned_append:
  assumes "owned h m" and "m k = Some s" and "app h s xs = (s', h')"
  shows "owned h' (m(k \<mapsto> s')) \<and> lists h' (m(k \<mapsto> s')) = (lists h m)(k \<mapsto> read h s @ xs)"
  using assms(1) ownedD [OF assms(1,2)] _ assms(3)
proof (rule owned_append_new)
  fix j t assume "j \<noteq> k" "m j = Some t"
  then show "separate s t" using assms(1,2) unfolding owned_def by metis
qed

lemma owned_copy:
  assumes "owned h m" and "app h empty xs = (s', h')"
  shows "owned h' (m(k \<mapsto> s')) \<and> lists h' (m(k \<mapsto> s')) = (lists h m)(k \<mapsto> xs)"
  using owned_append_new [OF assms(1) _ _ assms(2), of k] empty_ok by simp

end

lemma overwrite_Nil [simp]: "overwrite l i [] = l"
  by (simp add: overwrite_def)

lemma length_overwrite: "i + length xs \<le> length l \<Longrightarrow> length (overwrite l i xs) = length l"
  by (simp add: overwrite_def)

lemma overwrite_window:
  assumes "j + n \<le> i \<or> i + length xs \<le> j" and "i + length xs \<le> length l"
  shows "take n (drop j (overwrite l i xs)) = take n (drop j l)"
proof -
  have "(overwrite l i xs) ! k = l ! k" if "k < i \<or> i + length xs \<le> k" "k < length l" for k
    using that assms(2) by (auto simp: overwrite_def nth_append)
  then show ?thesis
    using assms by (intro nth_equalityI) (auto simp: length_overwrite)
qed

lemma overwrite_end:
  assumes "off + len + length xs \<le> length l"
  shows "take (len + length xs) (drop off (overwrite l (off + len) xs)) = take len (drop off l) @ xs"
proof -
  have "drop off (overwrite l (off + len) xs) =
      take len (drop off l) @ xs @ drop (off + len + length xs) l"
    using assms by (simp add: overwrite_def drop_take)
  then show ?thesis using assms by simp
qed

interpretation cells: list_cells contents "go_append extra zero" slice_ok apart nil_slice
proof unfold_locales
  fix h :: "'a store" and s :: slice and xs and s' :: slice and h'
  assume ok: "slice_ok h s" and app: "go_append extra zero h s xs = (s', h')"
  show "slice_ok h' s' \<and> contents h' s' = contents h s @ xs"
  proof (cases "sl_len s + length xs \<le> sl_cap s")
    case True
    then have "sl_cap s = 0 \<longrightarrow> xs = []" by auto
    then show ?thesis using app ok True
      by (auto simp: go_append_def slice_ok_def contents_def length_overwrite overwrite_end)
  next
    case False
    then show ?thesis using app ok by (auto simp: go_append_def slice_ok_def contents_def Let_def)
  qed
next
  fix h :: "'a store" and s t :: slice and xs and s' :: slice and h'
  assume ok: "slice_ok h s" "slice_ok h t" and sep: "apart s t"
    and app: "go_append extra zero h s xs = (s', h')"
  show "slice_ok h' t \<and> contents h' t = contents h t \<and> apart s' t"
  proof (cases "sl_len s + length xs \<le> sl_cap s")
    case True
    then show ?thesis using app ok sep
      by (auto simp: go_append_def slice_ok_def contents_def apart_def length_overwrite
          overwrite_window)
  next
    case False
    then show ?thesis using app ok
      by (auto simp: go_append_def slice_ok_def contents_def apart_def Let_def)
  qed
qed (auto simp: apart_def slice_ok_def nil_slice_def contents_def)

section \<open>The object lists of the server\<close>

text \<open>
  Who holds a list of objects: the token of a slot, by its index, or a session of a
  connection.
\<close>

datatype owner = TokenOf nat | SessionOf nat uint64

record heap =
  hp_store :: "object store"
  hp_slices :: "owner \<rightharpoonup> slice"

text \<open>
  What the code does with them. A session is opened with a copy of its token's list
  (\<^verbatim>\<open>append([]Object(nil), slot.Objects...)\<close>) or with the slice a callback returned,
  and lists are appended to (\<^verbatim>\<open>C_GenerateKeyPair\<close>, \<^verbatim>\<open>C_DeriveKey\<close>, \<^verbatim>\<open>persistObject\<close>) or
  dropped with their session.
\<close>

datatype list_op =
    OpenCopy nat nat uint64
  | OpenCallback slice nat uint64
  | Append owner "object list"
  | Forget "owner \<Rightarrow> bool"

fun heap_op :: "(nat \<Rightarrow> nat \<Rightarrow> nat) \<Rightarrow> list_op \<Rightarrow> heap \<Rightarrow> heap" where
  "heap_op extra (OpenCopy k c i) H =
     (case hp_slices H (TokenOf k) of
        None \<Rightarrow> H
      | Some s \<Rightarrow>
          (case go_append extra zero_object (hp_store H) nil_slice (contents (hp_store H) s) of
             (s', h) \<Rightarrow> \<lparr>hp_store = h, hp_slices = (hp_slices H)(SessionOf c i \<mapsto> s')\<rparr>))"
| "heap_op extra (OpenCallback s c i) H =
     H\<lparr>hp_slices := (hp_slices H)(SessionOf c i \<mapsto> s)\<rparr>"
| "heap_op extra (Append x objs) H =
     (case hp_slices H x of
        None \<Rightarrow> H
      | Some s \<Rightarrow>
          (case go_append extra zero_object (hp_store H) s objs of
             (s', h) \<Rightarrow> \<lparr>hp_store = h, hp_slices = (hp_slices H)(x \<mapsto> s')\<rparr>))"
| "heap_op extra (Forget P) H = H\<lparr>hp_slices := (\<lambda>x. if P x then None else hp_slices H x)\<rparr>"

text \<open>The same operations on lists, as the rest of the development has them.\<close>

fun value_op :: "list_op \<Rightarrow> (owner \<rightharpoonup> object list) \<Rightarrow> (owner \<rightharpoonup> object list)" where
  "value_op (OpenCopy k c i) m =
     (case m (TokenOf k) of None \<Rightarrow> m | Some objs \<Rightarrow> m(SessionOf c i \<mapsto> objs))"
| "value_op (OpenCallback s c i) m = m"
| "value_op (Append x objs) m =
     (case m x of None \<Rightarrow> m | Some old \<Rightarrow> m(x \<mapsto> old @ objs))"
| "value_op (Forget P) m = (\<lambda>x. if P x then None else m x)"

definition heap_ok :: "heap \<Rightarrow> bool" where
  "heap_ok H \<longleftrightarrow> cells.owned (hp_store H) (hp_slices H)"

definition heap_lists :: "heap \<Rightarrow> owner \<Rightarrow> object list option" where
  "heap_lists H = cells.lists (hp_store H) (hp_slices H)"

fun no_callback :: "list_op \<Rightarrow> bool" where
  "no_callback (OpenCallback s c i) = False"
| "no_callback _ = True"

lemma heap_op_refines:
  assumes "heap_ok H" and "no_callback op"
  shows "heap_ok (heap_op extra op H) \<and> heap_lists (heap_op extra op H) = value_op op (heap_lists H)"
proof (cases op)
  case (OpenCopy k c i)
  show ?thesis
  proof (cases "hp_slices H (TokenOf k)")
    case (Some s)
    obtain s' h where "go_append extra zero_object (hp_store H) nil_slice (contents (hp_store H) s) = (s', h)"
      by fastforce
    then show ?thesis
      using cells.owned_copy [OF assms(1) [unfolded heap_ok_def], of extra zero_object _ s' h]
      by (simp add: OpenCopy Some heap_ok_def heap_lists_def cells.lists_def)
  qed (use assms(1) in \<open>simp add: OpenCopy heap_lists_def cells.lists_def\<close>)
next
  case (Append x objs)
  show ?thesis
  proof (cases "hp_slices H x")
    case (Some s)
    obtain s' h where "go_append extra zero_object (hp_store H) s objs = (s', h)" by fastforce
    then show ?thesis
      using cells.owned_append [OF assms(1) [unfolded heap_ok_def] Some, of extra zero_object objs s' h]
      by (simp add: Append Some heap_ok_def heap_lists_def cells.lists_def)
  qed (use assms(1) in \<open>simp add: Append heap_lists_def cells.lists_def\<close>)
next
  case (Forget P)
  then show ?thesis using assms(1) cells.owned_forget [of "hp_store H" "hp_slices H" P]
    by (simp add: heap_ok_def heap_lists_def)
qed (use assms(2) in simp)

lemma heap_ops_refine:
  assumes "heap_ok H" and "list_all no_callback ops"
  shows "heap_ok (fold (heap_op extra) ops H) \<and>
    heap_lists (fold (heap_op extra) ops H) = fold value_op ops (heap_lists H)"
  using assms
proof (induction ops arbitrary: H)
  case (Cons op ops)
  then show ?case using heap_op_refines [of H op extra] by simp
qed simp

section \<open>The model is right for static objects\<close>

definition object_lists :: "'w system \<Rightarrow> owner \<Rightarrow> object list option" where
  "object_lists S x =
     (case x of
        TokenOf k \<Rightarrow>
          if k < length (Slots (sys_server S)) then Some (Objects (Slots (sys_server S) ! k)) else None
      | SessionOf c i \<Rightarrow>
          (case sys_conns S c of
             None \<Rightarrow> None | Some h \<Rightarrow> map_option s_objects (lookup_session h i)))"

definition static_slots :: "'w system \<Rightarrow> bool" where
  "static_slots S \<longleftrightarrow> (\<forall>k < length (Slots (sys_server S)). GetObjects (Slots (sys_server S) ! k) = None)"

lemma session_step_list: "session_step s s' \<Longrightarrow> \<exists>objs. s_objects s' = s_objects s @ objs"
  by (induction rule: session_step.induct)
    (auto simp: session_find_def session_findNext_def Let_def)

text \<open>
  The steps of the server on the static slots with what they do to the slices, and runs of
  the server with its memory.
\<close>

inductive st_ops :: "nat \<Rightarrow> 'w state \<Rightarrow> 'w state \<Rightarrow> list_op list \<Rightarrow> bool" for c where
  world: "st_ops c st (st\<lparr>world := w\<rparr>) []"
| init: "slot_index (Slots (server st)) i = Some k \<Longrightarrow> \<not> Initialized (Slots (server st) ! k) \<Longrightarrow>
    st_ops c st
      (st\<lparr>server := update_slot k (\<lambda>s. s\<lparr>Label := l, Initialized := True\<rparr>) (server st)\<rparr>) []"
| persist: "slot_index (Slots (server st)) i = Some k \<Longrightarrow> wf_object obj \<Longrightarrow> is_token obj \<Longrightarrow>
    st_ops c st
      (st\<lparr>server := update_slot k (\<lambda>s. s\<lparr>Objects := Objects s @ [obj]\<rparr>) (server st)\<rparr>)
      [Append (TokenOf k) [obj]]"
| opened: "slot_index (Slots (server st)) i = Some k \<Longrightarrow> GetObjects (Slots (server st) ! k) = None \<Longrightarrow>
    add_session (fresh_session i (Objects (Slots (server st) ! k))) (conn st) = Some (j, h) \<Longrightarrow>
    st_ops c st (st\<lparr>conn := h\<rparr>) [OpenCopy k c j]"
| closed: "st_ops c st (st\<lparr>conn := remove_session i (conn st)\<rparr>) [Forget (\<lambda>x. x = SessionOf c i)]"
| in_session: "lookup_session (conn st) i = Some s \<Longrightarrow> session_step s s' \<Longrightarrow>
    s_objects s' = s_objects s @ objs \<Longrightarrow>
    st_ops c st (st\<lparr>conn := update_session i s' (conn st)\<rparr>) [Append (SessionOf c i) objs]"

inductive mem_step ::
  "'w env \<Rightarrow> (nat \<Rightarrow> nat \<Rightarrow> nat) \<Rightarrow> 'w system \<times> heap \<Rightarrow> 'w system \<times> heap \<Rightarrow> bool" for env extra where
  accept: "sys_conns S c = None \<Longrightarrow>
    mem_step env extra (S, H) (S\<lparr>sys_conns := (sys_conns S)(c \<mapsto> new_handler)\<rparr>, H)"
| drop: "mem_step env extra (S, H)
    (S\<lparr>sys_conns := (sys_conns S)(c := None)\<rparr>, heap_op extra (Forget (\<lambda>x. \<exists>i. x = SessionOf c i)) H)"
| request: "sys_conns S c = Some h \<Longrightarrow> st_ops c (view S h) st' ops \<Longrightarrow>
    mem_step env extra (S, H) (put_view c st' S, fold (heap_op extra) ops H)"

abbreviation mem_steps where "mem_steps env extra \<equiv> (mem_step env extra)\<^sup>*\<^sup>*"

lemma st_step_ops:
  assumes "st_step env st st'" and "\<forall>s \<in> set (Slots (server st)). GetObjects s = None"
  shows "\<exists>ops. st_ops c st st' ops"
  using assms(1)
proof cases
  case (opened i k objs j h)
  have "k < length (Slots (server st))" using slot_index_Some opened(2) by blast
  then have "GetObjects (Slots (server st) ! k) = None" using assms(2) by simp
  then show ?thesis using opened by (auto simp: offered_def intro: st_ops.opened)
next
  case (in_session i s s')
  then show ?thesis using session_step_list [of s s'] by (auto intro: st_ops.in_session)
qed (auto intro: st_ops.intros)

text \<open>Each request step does to the lists of the model what its operations do.\<close>

lemma st_ops_lists:
  assumes "st_ops c (view S h) st' ops" and c: "sys_conns S c = Some h"
  shows "list_all no_callback ops \<and>
    object_lists (put_view c st' S) = fold value_op ops (object_lists S)"
  using assms(1)
proof cases
  case (world w)
  then show ?thesis using c by (auto simp: fun_eq_iff object_lists_def split: owner.splits)
next
  case (init i k l)
  have "k < length (Slots (sys_server S))" using slot_index_Some init(3) by fastforce
  then show ?thesis using c init(1,2)
    by (auto simp: fun_eq_iff object_lists_def update_slot_def nth_list_update split: owner.splits)
next
  case (persist i k obj)
  have "k < length (Slots (sys_server S))" using slot_index_Some persist(3) by fastforce
  then show ?thesis using c persist(1,2)
    by (auto simp: fun_eq_iff object_lists_def update_slot_def nth_list_update split: owner.splits)
next
  case (opened i k j h')
  have k: "k < length (Slots (sys_server S))" using slot_index_Some opened(3) by fastforce
  have "lookup_session h' = (lookup_session h)(j \<mapsto> fresh_session i (Objects (Slots (sys_server S) ! k)))"
    using sess.add_map opened(5) by fastforce
  then show ?thesis using c k opened(1,2)
    by (auto simp: fun_eq_iff object_lists_def fresh_session_def split: owner.splits)
next
  case (closed i)
  then show ?thesis using c
    by (auto simp: fun_eq_iff object_lists_def sess.remove_map split: owner.splits)
next
  case (in_session i s s' objs)
  then show ?thesis using c
    by (auto simp: fun_eq_iff object_lists_def sess.put_map split: owner.splits)
qed

definition represents :: "heap \<Rightarrow> 'w system \<Rightarrow> bool" where
  "represents H S \<longleftrightarrow> heap_ok H \<and> heap_lists H = object_lists S"

lemma mem_step_represents:
  assumes "mem_step env extra (S, H) (S', H')" and "represents H S"
  shows "represents H' S'"
  using assms(1)
proof cases
  case (accept c)
  then have "object_lists S' = object_lists S"
    by (auto simp: fun_eq_iff object_lists_def new_handler_def lookup_session_def split: owner.splits)
  then show ?thesis using assms(2) accept by (simp add: represents_def)
next
  case (drop c)
  let ?op = "Forget (\<lambda>x. \<exists>i. x = SessionOf c i)"
  have "object_lists S' = value_op ?op (object_lists S)"
    using drop by (auto simp: fun_eq_iff object_lists_def split: owner.splits)
  then show ?thesis using assms(2) drop heap_op_refines [of H ?op extra] by (simp add: represents_def)
next
  case (request c h st' ops)
  then show ?thesis
    using assms(2) st_ops_lists [of c S h st' ops] heap_ops_refine [of H ops extra]
    by (simp add: represents_def)
qed

interpretation memory: step_invariant "mem_step env extra" "\<lambda>(S, H). represents H S"
  by unfold_locales (auto intro: mem_step_represents)

lemma sys_step_mem:
  assumes "sys_step env S S'" and "static_slots S"
  shows "\<exists>H'. mem_step env extra (S, H) (S', H')"
  using assms(1)
proof cases
  case (request c h st')
  have "\<forall>s \<in> set (Slots (server (view S h))). GetObjects s = None"
    using assms(2) by (auto simp: static_slots_def in_set_conv_nth)
  then obtain ops where "st_ops c (view S h) st' ops" using st_step_ops request(3) by blast
  then show ?thesis using request mem_step.request by blast
qed (auto intro: mem_step.intros)

lemma static_slots_mono: "static_slots S \<Longrightarrow> server_le (sys_server S) (sys_server S') \<Longrightarrow> static_slots S'"
  by (auto simp: static_slots_def server_le_def list_all2_conv_all_nth slot_le_def)

lemma sys_steps_mem:
  assumes "sys_steps env S S'" and "static_slots S"
  shows "\<exists>H'. mem_steps env extra (S, H) (S', H')"
  using assms
proof (induction rule: rtranclp_induct)
  case (step S1 S2)
  obtain H1 where H1: "mem_steps env extra (S, H) (S1, H1)" using step by blast
  have "static_slots S1" using static_slots_mono step.prems shared.steps_le step.hyps(1) by blast
  then obtain H2 where "mem_step env extra (S1, H1) (S2, H2)" using sys_step_mem step.hyps(2) by blast
  then show ?case using H1 by (meson rtranclp.rtrancl_into_rtrancl)
qed blast

text \<open>
  C16: When no slot has a \<^verbatim>\<open>GetObjects\<close> callback, the lists of the model are what the code's
  slices hold: every run of the connections has a run with memory, and memory that
  represents the objects of all tokens and sessions at its start does so at its end, no two
  of them sharing a cell, whatever capacities the runtime chooses.
\<close>

theorem slices_refine_lists:
  assumes "sys_steps env S S'" and "static_slots S" and "heap_ok H"
    and "heap_lists H = object_lists S"
  shows "(\<exists>H'. mem_steps env extra (S, H) (S', H')) \<and>
    (\<forall>H'. mem_steps env extra (S, H) (S', H') \<longrightarrow> heap_ok H' \<and> heap_lists H' = object_lists S')"
proof (intro conjI allI impI)
  show "\<exists>H'. mem_steps env extra (S, H) (S', H')" by (rule sys_steps_mem [OF assms(1,2)])
next
  fix H' assume m: "mem_steps env extra (S, H) (S', H')"
  have "represents H S" unfolding represents_def using assms(3,4) by (rule conjI)
  then have "represents H' S'" using memory.steps_preserve [OF m] by (simp only: prod.case)
  then show "heap_ok H'" "heap_lists H' = object_lists S'" unfolding represents_def by blast+
qed

definition sample_heap :: heap where
  "sample_heap =
    \<lparr>hp_store = \<lparr>arrays = (\<lambda>a. Objects sample_slot @ [zero_object, zero_object]), next_array = 1\<rparr>,
     hp_slices = [TokenOf 0 \<mapsto> \<lparr>sl_array = 0, sl_off = 0, sl_len = 2, sl_cap = 4\<rparr>]\<rparr>"

lemma sample_heap_ok: "heap_ok sample_heap"
  by (simp add: heap_ok_def cells.owned_def sample_heap_def slice_ok_def sample_slot_def)

theorem slices_refine_lists_witness:
  "\<exists>H'. mem_steps sample_env (\<lambda>c n. n) (start 0 (server sample_state), sample_heap)
      ((start 0 (server sample_state))\<lparr>sys_conns := [3 \<mapsto> new_handler]\<rparr>, H') \<and>
    heap_ok H' \<and>
    heap_lists H' = object_lists ((start (0 :: nat) (server sample_state))\<lparr>sys_conns := [3 \<mapsto> new_handler]\<rparr>)"
proof -
  have run: "sys_steps sample_env (start 0 (server sample_state))
      ((start 0 (server sample_state))\<lparr>sys_conns := [3 \<mapsto> new_handler]\<rparr>)"
    using sys_step.accept [of "start 0 (server sample_state)" 3 sample_env]
    by (simp add: start_def r_into_rtranclp)
  have static: "static_slots (start (0 :: nat) (server sample_state))"
    by (simp add: static_slots_def start_def sample_slot_def)
  have rep: "heap_lists sample_heap = object_lists (start (0 :: nat) (server sample_state))"
    by (auto simp: fun_eq_iff heap_lists_def cells.lists_def sample_heap_def object_lists_def
        start_def contents_def sample_slot_def split: owner.splits)
  show ?thesis using slices_refine_lists [OF run static sample_heap_ok rep, of "\<lambda>c n. n"] by blast
qed

section \<open>Callbacks that return the same slice\<close>

text \<open>
  C17: \<^verbatim>\<open>newSession\<close> takes over the slice that \<^verbatim>\<open>GetObjects\<close> returns. If the callback returns
  a slice with room for two more objects to two sessions, a pair generated in the second
  replaces the pair generated in the first, in both sessions, also when they belong to
  different connections: the first client loses its keys and can use those of the second.
\<close>

theorem callback_slice_shared:
  assumes "slice_ok (hp_store H) s" and "sl_len s + 2 \<le> sl_cap s"
    and "SessionOf c i \<noteq> SessionOf d j"
    and "ops = [OpenCallback s c i, OpenCallback s d j,
      Append (SessionOf c i) [pub, priv], Append (SessionOf d j) [pub', priv']]"
  shows "heap_lists (fold (heap_op extra) ops H) (SessionOf c i) =
      Some (contents (hp_store H) s @ [pub', priv']) \<and>
    heap_lists (fold (heap_op extra) ops H) (SessionOf d j) =
      Some (contents (hp_store H) s @ [pub', priv'])"
proof -
  have room: "sl_off s + sl_len s + length xs \<le> length (arrays (hp_store H) (sl_array s))"
    if "length xs = 2" for xs :: "object list"
    using assms(1,2) that by (auto simp: slice_ok_def)
  have once: "overwrite (overwrite l n xs) n ys = overwrite l n ys"
    if "length xs = length ys" "n + length xs \<le> length l" for l xs ys :: "object list" and n
    using that by (simp add: overwrite_def)
  show ?thesis
    using assms(2-4) room [of "[pub', priv']"]
    by (auto simp: heap_lists_def cells.lists_def go_append_def contents_def once
        overwrite_end [of _ _ "[pub', priv']", simplified])
qed

theorem callback_slice_shared_witness:
  "\<exists>ops. heap_lists (fold (heap_op (\<lambda>c n. n)) ops sample_heap) (SessionOf 1 1) =
      Some (Objects sample_slot @ [SetID zero_object 9, SetID zero_object 10])"
proof -
  let ?s = "\<lparr>sl_array = 0, sl_off = 0, sl_len = 2, sl_cap = 4\<rparr>"
  have "slice_ok (hp_store sample_heap) ?s" by (simp add: slice_ok_def sample_heap_def sample_slot_def)
  from callback_slice_shared [OF this _ _ refl, of 1 1 2 1 "\<lambda>c n. n" "SetID zero_object 7"
      "SetID zero_object 8" "SetID zero_object 9" "SetID zero_object 10"]
  have "heap_lists (fold (heap_op (\<lambda>c n. n)) [OpenCallback ?s 1 1, OpenCallback ?s 2 1,
      Append (SessionOf 1 1) [SetID zero_object 7, SetID zero_object 8],
      Append (SessionOf 2 1) [SetID zero_object 9, SetID zero_object 10]] sample_heap) (SessionOf 1 1) =
    Some (contents (hp_store sample_heap) ?s @ [SetID zero_object 9, SetID zero_object 10])"
    by simp
  moreover have "contents (hp_store sample_heap) ?s = Objects sample_slot"
    by (simp add: contents_def sample_heap_def sample_slot_def)
  ultimately show ?thesis by metis
qed

end
