(* ===== verification/Interleave.thy ===== *)
theory Interleave
  imports System
begin

text \<open>
  The concurrent server as the code runs it: connections come and go, and each step is what
  the handler of a request does to the state, by the definitions of the handlers themselves.
  A handler enters at most one critical section of \<^verbatim>\<open>Handler.mu\<close>, except
  \<^verbatim>\<open>handleGenerateKeyPair\<close>, which locks anew for each object that it persists: there the
  requests of other connections come in between. Every run of these steps is one of the
  steps of theory \<open>System\<close>, so what was shown there holds of the handlers.
\<close>

section \<open>A key pair in several steps\<close>

text \<open>
  \<^verbatim>\<open>handleGenerateKeyPair\<close> up to its loop: the objects are in the session, and what is left
  is to persist them in the session's slot and to answer.
\<close>

type_synonym unpersisted = "uint64 \<times> object list \<times> body"

definition generate_pair :: "'w env \<Rightarrow> body \<Rightarrow> ('w state, unpersisted) act" where
  "generate_pair env req =
     (let (sessionID, req) = readUlong req;
          (m, req) = readMechanism req;
          (pubTmpl, req) = readAttributeArray req;
          (privTmpl, req) = readAttributeArray req in
      checked req
        (act_bind (get_session sessionID) (\<lambda>s.
          act_bind (on_world (generateKeyPair env m pubTmpl privTmpl)) (\<lambda>(pub, priv).
            act_bind (put_session sessionID (s\<lparr>s_objects := s_objects s @ [pub, priv]\<rparr>)) (\<lambda>_.
              act_return (s_slotID s, [pub, priv],
                writeUlong (writeUlong (newResponse req) (obj_id pub)) (obj_id priv)))))))"

lemma act_bind_assoc: "act_bind (act_bind m f) g = act_bind m (\<lambda>x. act_bind (f x) g)"
  by (rule ext) (simp add: act_bind_def split: prod.split sum.split)

lemma act_bind_return: "act_bind (act_return x) f = f x"
  by (rule ext) (simp add: act_bind_def act_return_def)

lemma act_bind_checked: "act_bind (checked req m) f = checked req (act_bind m f)"
  by (rule ext) (simp add: checked_def act_bind_def act_fail_def split: option.split)

lemma handleGenerateKeyPair_split:
  "handleGenerateKeyPair env req =
     act_bind (generate_pair env req) (\<lambda>(slotID, objs, resp).
       act_bind (persist_tokens slotID objs) (\<lambda>_. act_return resp))"
  unfolding handleGenerateKeyPair_def generate_pair_def Let_def case_prod_beta act_bind_checked
    act_bind_assoc act_bind_return
  by simp

lemma persist_tokens_Cons:
  "persist_tokens i (obj # objs) = act_bind (persist_tokens i [obj]) (\<lambda>_. persist_tokens i objs)"
  by (rule ext) (simp add: act_bind_def act_return_def split: prod.split sum.split)

lemma generate_pair_steps: "st_steps env st (snd (generate_pair env req st))"
  unfolding generate_pair_def handler_unfold
proof (rule checked_steps, rule in_session_steps, rule bind_steps, goal_cases)
  case (2 s pair t)
  then have "wf_object (fst pair) \<and> wf_object (snd pair)" by (intro generated_wf)
  moreover have "lookup_session (conn t) (fst (readUlong req)) = Some s"
    using 2 by (auto dest!: on_worldD)
  ultimately show ?case
    by (auto intro!: bind_steps put_session_steps session_step.add_objects)
qed (rule on_world_steps)

lemma generate_pair_wf:
  assumes "generate_pair env req st = (Inr (i, objs, resp), t)"
  shows "\<forall>obj \<in> set objs. wf_object obj"
  using assms unfolding generate_pair_def handler_unfold
  by (auto simp: checked_def split: option.splits elim!: act_bind_InrE dest!: generated_wf)

section \<open>Steps\<close>

text \<open>
  The connections with their sessions and the slots; a connection in the loop of
  \<^verbatim>\<open>handleGenerateKeyPair\<close> has the objects that it has not looked at yet.
\<close>

record 'w live =
  live_system :: "'w system"
  live_pending :: "nat \<rightharpoonup> unpersisted"

abbreviation live_server :: "'w live \<Rightarrow> Handler" where
  "live_server R \<equiv> sys_server (live_system R)"

abbreviation live_conn :: "'w live \<Rightarrow> nat \<Rightarrow> handler option" where
  "live_conn R \<equiv> sys_conns (live_system R)"

abbreviation idle_conn :: "'w live \<Rightarrow> nat \<Rightarrow> handler \<Rightarrow> bool" where
  "idle_conn R c h \<equiv> live_conn R c = Some h \<and> live_pending R c = None"

definition put_conn :: "nat \<Rightarrow> 'w state \<Rightarrow> unpersisted option \<Rightarrow> 'w live \<Rightarrow> 'w live" where
  "put_conn c st p R =
     R\<lparr>live_system := put_view c st (live_system R), live_pending := (live_pending R)(c := p)\<rparr>"

inductive live_step :: "'w env \<Rightarrow> 'w live \<Rightarrow> 'w live \<Rightarrow> bool" for env where
  accept: "live_conn R c = None \<Longrightarrow> live_step env R (put_conn c (view (live_system R) new_handler) None R)"
| drop: "idle_conn R c h \<Longrightarrow> live_step env R
    (R\<lparr>live_system := (live_system R)\<lparr>sys_conns := (live_conn R)(c := None)\<rparr>\<rparr>)"
| request: "idle_conn R c h \<Longrightarrow> respond env req (view (live_system R) h) = (r, st) \<Longrightarrow>
    live_step env R (put_conn c st None R)"
| generate: "idle_conn R c h \<Longrightarrow>
    generate_pair env req (view (live_system R) h) = (Inr p, st) \<Longrightarrow>
    live_step env R (put_conn c st (Some p) R)"
| persist: "live_conn R c = Some h \<Longrightarrow> live_pending R c = Some (i, obj # objs, resp) \<Longrightarrow>
    persist_tokens i [obj] (view (live_system R) h) = (r, st) \<Longrightarrow>
    live_step env R
      (put_conn c st (case r of Inr _ \<Rightarrow> Some (i, objs, resp) | Inl e \<Rightarrow> None) R)"
| answer: "live_conn R c = Some h \<Longrightarrow> live_pending R c = Some (i, [], resp) \<Longrightarrow>
    live_step env R (put_conn c (view (live_system R) h) None R)"

abbreviation live_steps :: "'w env \<Rightarrow> 'w live \<Rightarrow> 'w live \<Rightarrow> bool" where
  "live_steps env \<equiv> (live_step env)\<^sup>*\<^sup>*"

definition boot :: "'w \<Rightarrow> Handler \<Rightarrow> 'w live" where
  "boot w H = \<lparr>live_system = start w H, live_pending = Map.empty\<rparr>"

lemma put_conn_simps [simp]:
  "live_system (put_conn c st p R) = put_view c st (live_system R)"
  "live_pending (put_conn c st p R) = (live_pending R)(c := p)"
  by (simp_all add: put_conn_def)

lemma boot_simps [simp]:
  "live_system (boot w H) = start w H" "live_pending (boot w H) c = None"
  by (simp_all add: boot_def)

section \<open>The handlers keep to the specification\<close>

definition pending_wf :: "'w live \<Rightarrow> bool" where
  "pending_wf R \<longleftrightarrow>
     (\<forall>c i objs resp. live_pending R c = Some (i, objs, resp) \<longrightarrow> (\<forall>obj \<in> set objs. wf_object obj))"

lemma live_step_wf: "live_step env R R' \<Longrightarrow> pending_wf R \<Longrightarrow> pending_wf R'"
proof (induction rule: live_step.induct)
  case (generate R c h req p st)
  then show ?case using generate_pair_wf [of env req "view (live_system R) h"]
    by (cases p) (auto simp: pending_wf_def)
next
  case (persist R c h i obj objs resp r st)
  then have "\<forall>x \<in> set objs. wf_object x" unfolding pending_wf_def by (metis list.set_intros(2))
  then show ?case using persist.prems by (cases r) (auto simp: pending_wf_def)
qed (auto simp: pending_wf_def)

interpretation pending: step_invariant "live_step env" pending_wf
  by unfold_locales (rule live_step_wf)

lemma view_unchanged: "sys_conns S c = Some h \<Longrightarrow> put_view c (view S h) S = S"
  by (simp add: put_view_def fun_upd_idem)

lemma live_step_sys:
  assumes "live_step env R R'" and "pending_wf R"
  shows "sys_steps env (live_system R) (live_system R')"
  using assms(1)
proof cases
  case (accept c)
  then have "put_view c (view (live_system R) new_handler) (live_system R) =
      (live_system R)\<lparr>sys_conns := (live_conn R)(c \<mapsto> new_handler)\<rparr>"
    by (simp add: put_view_def)
  then have "live_system R' = (live_system R)\<lparr>sys_conns := (live_conn R)(c \<mapsto> new_handler)\<rparr>"
    using accept(1) by simp
  then show ?thesis using sys_step.accept [OF accept(2), of env] by (metis r_into_rtranclp)
next
  case (drop c h)
  then show ?thesis using sys_step.drop [of env "live_system R" c] by auto
next
  case (request c h req r st)
  then have "st_steps env (view (live_system R) h) st"
    using respond_steps [of env "view (live_system R) h" req] by simp
  then show ?thesis using request st_steps_sys by fastforce
next
  case (generate c h req p st)
  then have "st_steps env (view (live_system R) h) st"
    using generate_pair_steps [of env "view (live_system R) h" req] by simp
  then show ?thesis using generate st_steps_sys by fastforce
next
  case (persist c h i obj objs resp r st)
  then have "\<forall>x \<in> set [obj]. wf_object x" using assms(2) by (fastforce simp: pending_wf_def)
  then have "st_steps env (view (live_system R) h) st"
    using persist_tokens_steps [of "[obj]" env "view (live_system R) h" i] persist by simp
  then show ?thesis using persist st_steps_sys by fastforce
next
  case (answer c h i resp)
  then show ?thesis by (simp add: view_unchanged)
qed

lemma live_steps_sys:
  assumes "live_steps env R R'" and "pending_wf R"
  shows "sys_steps env (live_system R) (live_system R')"
  using assms
proof (induction rule: rtranclp_induct)
  case (step S T)
  have "pending_wf S" by (rule pending.steps_preserve [OF step.hyps(1) step.prems])
  then show ?case using live_step_sys [OF step.hyps(2)] step.IH [OF step.prems] by simp
qed simp

lemma boot_wf [simp]: "pending_wf (boot w H)"
  by (simp add: pending_wf_def)

lemma reachable_wf: "live_steps env (boot w H) R \<Longrightarrow> pending_wf R"
  by (rule pending.steps_preserve [OF _ boot_wf])

lemma reachable_sys: "live_steps env (boot w H) R \<Longrightarrow> sys_steps env (start w H) (live_system R)"
  using live_steps_sys [of env "boot w H" R] by simp

lemma reachable_system_ok:
  assumes "callbacks_ok env" and "server_ok H" and "live_steps env (boot w H) R"
  shows "system_ok (live_system R)"
proof -
  have "system_ok (start w H)" using assms(2) by (simp add: system_ok_def start_def)
  then show ?thesis using sys.steps_preserve [OF reachable_sys [OF assms(3)]] assms(1) by blast
qed

lemma reachable_server_le:
  assumes "live_steps env (boot w H) R" and "live_steps env R R'"
  shows "server_le (live_server R) (live_server R')"
  using shared.steps_le live_steps_sys [OF assms(2) reachable_wf [OF assms(1)]] by blast

section \<open>Serving connections is such a run\<close>

text \<open>
  No request comes in between the steps of a connection: what its handlers do one after the
  other, and so what \<open>serve\<close> does, is a run. A key pair persisted in steps is that of the handler.
\<close>

lemma put_conn_twice [simp]: "put_conn c st p (put_conn c st' q R) = put_conn c st p R"
  by (simp add: put_conn_def put_view_def)

lemma put_conn_same: "idle_conn R c h \<Longrightarrow> put_conn c (view (live_system R) h) None R = R"
proof -
  assume "idle_conn R c h"
  then have "put_view c (view (live_system R) h) (live_system R) = live_system R"
    and "(live_pending R)(c := None) = live_pending R"
    using view_unchanged [of "live_system R" c h] fun_upd_idem [of "live_pending R" c None] by blast+
  then show ?thesis unfolding put_conn_def by simp
qed

lemma responds_lives:
  assumes "(responds env)\<^sup>*\<^sup>* (view (live_system R) h) st" and "idle_conn R c h"
  shows "live_steps env R (put_conn c st None R)"
  using assms(1)
proof (induction rule: rtranclp_induct)
  case base
  show ?case by (simp add: put_conn_same [OF assms(2)])
next
  case (step st st')
  obtain req r where "respond env req st = (r, st')"
    using step.hyps by (metis responds_def prod.collapse)
  then have "live_step env (put_conn c st None R) (put_conn c st' None (put_conn c st None R))"
    by (intro live_step.request [of _ _ "conn st"]) simp_all
  then show ?case using step.IH by (simp add: rtranclp.rtrancl_into_rtrancl)
qed

lemma serve_lives:
  assumes "idle_conn R c h" and "serve env (view (live_system R) h) io = (e, st, io')"
  shows "live_steps env R (put_conn c st None R)"
  using responds_lives [OF _ assms(1)] serve_responds [of env "view (live_system R) h" io] assms(2)
  by simp

lemma persist_lives:
  assumes "live_conn R c = Some h" and "live_pending R c = Some (i, objs, resp)"
    and "persist_tokens i objs (view (live_system R) h) = (Inr (), st)"
  shows "live_steps env R (put_conn c st None R)"
  using assms
proof (induction objs arbitrary: R h)
  case Nil
  then show ?case using live_step.answer [of R c h i resp env] by (simp add: act_return_def)
next
  case (Cons obj objs)
  obtain t where t: "persist_tokens i [obj] (view (live_system R) h) = (Inr (), t)"
    "persist_tokens i objs t = (Inr (), st)"
    using Cons.prems(3) unfolding persist_tokens_Cons [of i obj objs]
    by (auto elim!: act_bind_InrE)
  let ?R = "put_conn c t (Some (i, objs, resp)) R"
  have "live_step env R ?R" using live_step.persist [OF Cons.prems(1,2) t(1)] by simp
  moreover have "live_steps env ?R (put_conn c st None ?R)"
    by (rule Cons.IH [of _ "conn t"]) (use t in simp_all)
  ultimately show ?case by (simp add: converse_rtranclp_into_rtranclp)
qed

lemma generate_lives:
  assumes "idle_conn R c h"
    and "handleGenerateKeyPair env req (view (live_system R) h) = (Inr resp, st)"
  obtains R' where "live_step env R R'" "live_pending R' c \<noteq> None"
    "live_steps env R' (put_conn c st None R')"
proof -
  obtain i objs t where gen: "generate_pair env req (view (live_system R) h) = (Inr (i, objs, resp), t)"
    "persist_tokens i objs t = (Inr (), st)"
    using assms(2) unfolding handleGenerateKeyPair_split
    by (auto elim!: act_bind_InrE simp: act_return_def)
  let ?R = "put_conn c t (Some (i, objs, resp)) R"
  have "live_step env R ?R" using live_step.generate [OF assms(1) gen(1)] .
  moreover have "live_steps env ?R (put_conn c st None ?R)"
    by (rule persist_lives [of _ _ "conn t"]) (use gen in simp_all)
  ultimately show thesis using that by simp
qed

end
