(* ===== verification/Refusals.thy ===== *)
theory Refusals
  imports Client Responses
begin

text \<open>
  What a connection gets for a request that fails. A body that does not consist of exactly
  the fields that its call takes ends the connection; a call that the server does not have,
  and every error with a PKCS #11 code, is answered with the code, and the connection goes on.
\<close>

section \<open>The fields of a request\<close>


definition simple_field :: "char \<Rightarrow> bytes \<Rightarrow> bytes option" where
  "simple_field c =
     (if c = CHR ''u'' then after buffer_uint64
      else if c = CHR ''y'' then after buffer_byte
      else if c = CHR ''z'' then after buffer_byteArray
      else if c = CHR ''M'' then after buffer_mechanism
      else (\<lambda>_. None))"

text \<open>An array \<open>a\<close> has its elements, a buffer \<open>f\<close> the size or the types the client asks for.\<close>

definition compound_field :: "char \<Rightarrow> char \<Rightarrow> bytes \<Rightarrow> bytes option" where
  "compound_field c d =
     (if c = CHR ''a'' \<and> d = CHR ''y'' then after buffer_content
      else if c = CHR ''a'' \<and> d = CHR ''A'' then after read_attributes
      else if c = CHR ''f'' \<and> (d = CHR ''u'' \<or> d = CHR ''y'') then after buffer_uint32
      else if c = CHR ''f'' \<and> d = CHR ''A'' then
        after (rd_bind buffer_uint32 (\<lambda>count. rd_repeat (unat count) buffer_attributeTemplate))
      else (\<lambda>_. None))"

fun skip_fields :: "string \<Rightarrow> bytes \<Rightarrow> bytes option" where
  "skip_fields [] b = Some b"
| "skip_fields (c # s) b =
     (if c = CHR ''a'' \<or> c = CHR ''f''
      then (case s of [] \<Rightarrow> None | d # s \<Rightarrow> Option.bind (compound_field c d b) (skip_fields s))
      else Option.bind (simple_field c b) (skip_fields s))"

definition has_fields :: "string \<Rightarrow> body \<Rightarrow> bool" where
  "has_fields s req \<longleftrightarrow>
     b_error req = None \<and> signature req = s \<and> skip_fields s (b_buffer req) = Some []"


text \<open>Reading one field leaves the fields that follow it.\<close>

context field_reader
begin

lemma fields_iff:
  assumes skip: "\<And>b. skip_fields (sg @ s) b = Option.bind (after f b) (skip_fields s)"
  shows "has_fields s (snd (rd b)) \<longleftrightarrow> has_fields (sg @ s) b"
proof
  assume fields: "has_fields s (snd (rd b))"
  obtain x b' where rd: "rd b = (x, b')" by fastforce
  then have "b_error b' = None" using fields by (simp add: has_fields_def)
  from no_error_back [OF rd this] fields show "has_fields (sg @ s) b"
    by (simp add: has_fields_def skip rd after_def)
next
  assume fields: "has_fields (sg @ s) b"
  then obtain x buf where "f (b_buffer b) = (Some x, buf)" "skip_fields s buf = Some []"
    by (auto simp: has_fields_def skip after_def bind_eq_Some_conv split: prod.splits option.splits)
  then show "has_fields s (snd (rd b))" using fields reads [of b s x buf]
    by (simp add: has_fields_def)
qed

end



section \<open>Malformed requests\<close>








section \<open>What becomes of an error\<close>






end
