(* ===== verification/Spec2Isabelle.thy ===== *)
theory Spec2Isabelle
  imports WireProperties SessionProperties Client InfoCalls LockProperties Generator ExampleMain Slices
    Interleave Refusals
begin

text \<open>
  A model of go-p11-kit: a server that offers keys and certificates to PKCS #11 clients over
  the RPC protocol of p11-kit, the generator of its error table and its example program.

  \<^bold>\<open>The program.\<close> A \<^verbatim>\<open>Handler\<close> (\<^verbatim>\<open>p11kit/p11kit.go\<close>) has slots, each with a token and its
  objects. \<^verbatim>\<open>Handler.Handle\<close> serves one connection: it agrees on version 0, then reads frames,
  runs the handler of each call and writes its answer under the request's id, until
  \<^verbatim>\<open>C_Finalize\<close>, the end of the input or an error that is not a PKCS #11 code. Connections
  have their own sessions and share the slots. Frames, bodies and their fields are encoded in
  \<^verbatim>\<open>p11kit/rpc.go\<close>; attributes, objects, keys, signing and key derivation are in
  \<^verbatim>\<open>p11kit/attribute.go\<close>; \<^verbatim>\<open>p11kit/errors.go\<close> is generated by \<^verbatim>\<open>p11kit/errors_generate.go\<close>.

  \<^bold>\<open>The theories,\<close> in the order they build on each other:
  \<^item> \<open>Prelude\<close>: machine words, the reader monad of \<^verbatim>\<open>buffer\<close> methods, the interfaces
    \<open>consuming\<close> and \<open>codec\<close> that every decoder is an instance of, Go strings.
  \<^item> \<open>Errors\<close>: \<^verbatim>\<open>errors.go\<close>, error values, \<^verbatim>\<open>errors.As\<close>. \<open>Generator\<close>: \<^verbatim>\<open>errors_generate.go\<close>.
  \<^item> \<open>Buffer\<close>, \<open>GoTime\<close>, \<open>Attribute\<close>, \<open>Mechanism\<close>: the fields of \<^verbatim>\<open>rpc.go\<close> (\<^verbatim>\<open>buffer\<close>), dates,
    attributes with their types and values, mechanisms with their parameters.
  \<^item> \<open>Body\<close>, \<open>Message\<close>: \<^verbatim>\<open>body\<close> with its signature check and sticky error; \<^verbatim>\<open>readRequest\<close> and
    \<^verbatim>\<open>writeResponse\<close> on the bytes of a connection.
  \<^item> \<open>Asn1\<close>, \<open>Object\<close>, \<open>Sign\<close>, \<open>Keys\<close>, \<open>Derive\<close>: \<^verbatim>\<open>attribute.go\<close> with what it uses of
    \<^verbatim>\<open>math/big\<close> and \<^verbatim>\<open>encoding/asn1\<close>.
  \<^item> \<open>Session\<close>, \<open>Handlers\<close>, \<open>Server\<close>: \<^verbatim>\<open>p11kit.go\<close>: slots, sessions and their operations; one
    definition per \<^verbatim>\<open>handle\<close> method; the table of handlers, the loop and \<^verbatim>\<open>Handle\<close>.
  \<^item> \<open>Effects\<close>: the abstract specification, a step relation of what a request may do to the
    state, with the proof that every handler and \<open>serve\<close> refine it. \<open>System\<close>: any number of
    connections interleaving these steps, with invariants and orders as locales. \<open>Interleave\<close>:
    any number of connections interleaving the handlers themselves, with the proof that they
    refine these steps.
  \<^item> \<open>Slices\<close>: the object lists as Go slices in a store, and when the lists of the model are
    right.
  \<^item> \<open>Locking\<close>: the accesses to the slots one by one with \<^verbatim>\<open>Handler.mu\<close>, each handler that touches
    slots as a program of such accesses, and their interleavings. \<open>LockProperties\<close>: these programs
    are the handlers of the model, their critical sections are atomic, the slots only grow,
    requests finish, and which accesses to slots race.
  \<^item> \<open>Example\<close>, \<open>ExampleMain\<close>: \<^verbatim>\<open>example/example-p11-kit-server/main.go\<close>, its keys and
    certificates, and its command line, socket and life.
  \<^item> \<open>Requests\<close>: requests as a client encodes them, and each handler on them.
  \<^item> \<open>Robustness\<close> and \<open>Connection\<close>: what can crash the server, and how connections end. \<open>Client\<close>: a
    client's connection from beginning to end. \<open>Responses\<close>: the fields of every response.
    \<open>Refusals\<close>: the fields of every request, and what becomes of one that fails.
    \<open>InfoCalls\<close>: what clients read in the answers about module, slots, tokens and sessions.
  \<^item> \<open>WireProperties\<close>, \<open>KeyProperties\<close>, \<open>SessionProperties\<close> and this theory: the other properties.
    All properties have a claim id, C1 to C40 in order of importance, and a concrete instance
    where they have hypotheses.

  \<^bold>\<open>How state corresponds.\<close> A Go struct is a record with the struct's fields (prefixed where a
  name is taken). A request runs on \<open>'w state\<close>: the world, the shared \<open>Handler\<close> and the
  \<open>handler\<close> of its connection. A function that fails returns \<open>Inl\<close> with the error and the state
  as far as it got. Pointers are where they point: a slot is its index in \<open>Slots\<close>, a session
  its entry in the table. nil and empty slices differ (\<open>bytes option\<close>) where the code can
  tell them apart. Maps that the code ranges over are lists, and the results are shown not to
  depend on their order. Words have the width of the Go type; \<^verbatim>\<open>int\<close> is 64 bits.

  \<^bold>\<open>The environment.\<close> Code that is not in the repository is a parameter: \<open>env\<close> has randomness,
  key generation, signers, curve arithmetic, hashes, the encoding of public keys and the
  callbacks of slots, threaded over a world whose type stays open; \<open>example_env\<close> has files,
  PEM and the parsers of \<^verbatim>\<open>crypto/x509\<close>. Hypotheses on them are named in each theorem:
  digests have their length, coordinates are below the field's size, callbacks return objects
  whose values fit their types, certificates have dates. \<^verbatim>\<open>elliptic.Marshal\<close> is that of Go 1.17 and 1.18, which does not
  check that the point is on the curve.

  \<^bold>\<open>Loops and panics.\<close> Loops are recursive functions that terminate, \<open>serve\<close> by the length of
  the input. Two loops could run forever: the search for a free session id and the counter of
  the key derivation. They are partial functions, for which \<open>next_free_ends\<close> and
  \<open>x963_loop_blocks\<close> give the conditions under which they end; C5 and C13 show how connections
  end. Three numbers that a client names are not bounded by the code: the length of a derived
  key, the size of an RSA key and the length of a PSS salt; C5 holds while they are within a
  capacity \<open>B\<close>, for which the code outside the repository is assumed to return. A run-time panic is the result
  \<open>RuntimePanic\<close>, an endless loop \<open>NonTermination\<close>; both end the connection's run, and in the
  code the process. \<^verbatim>\<open>make\<close> panics above 2 to the 48, the address space of linux/amd64;
  running out of memory below that is not modelled, neither there nor where the key derivation
  appends block after block.

  \<^bold>\<open>Concurrency.\<close> There are two models. In theory \<open>Interleave\<close> a step of \<open>live_step\<close> is the answer of
  one connection to one request, computed by its handler. That is fine enough because a handler
  enters at most one critical section of \<^verbatim>\<open>Handler.mu\<close>; only \<^verbatim>\<open>handleGenerateKeyPair\<close> enters
  one for each object that it persists, and is split there. C2 and C24 hold of all these
  interleavings. They are proved by refinement: \<open>sys_step\<close> specifies what a critical section or
  a change of a connection's own state may do, every handler is a run of such steps
  (\<open>live_steps_sys\<close>), and so is serving a connection (C3); C27 is stated over the specification.
  Theory \<open>Locking\<close> interleaves single accesses to the slots, with the mutex as state. There a
  critical section is proved to be one step (C4), a handler run alone to be that of the first
  model (\<open>programs_are_handlers\<close>), every request to finish in whatever order the accesses come (C6),
  after at most the number of accesses that \<open>within\<close> counts, and the slots to lose nothing with
  any access (C25). Fields of slots are written by \<^verbatim>\<open>C_InitToken\<close> and \<^verbatim>\<open>C_GenerateKeyPair\<close>;
  \<^verbatim>\<open>handleGetSlotList\<close> and the value receivers of \<^verbatim>\<open>Slot\<close> copy whole slots without the lock. These
  copies are the only races for fields of slots (C11), and of a copy only fields are used that
  nobody writes. The arrays of objects behind the fields are another matter: theory \<open>Slices\<close>
  shows that those of slots are never shared (C16), and that one which a \<^verbatim>\<open>GetObjects\<close> callback
  hands to two connections is written by both without a lock (C17). Accesses are sequentially
  consistent: what Go's memory model allows beyond that to a program with a race is not modelled.

  \<^bold>\<open>Not modelled:\<close> tests, documentation, scripts and CI; logging and the usage text; how gofmt
  lays out the generated file and how files and sockets are written (parameters); signals and
  the closing of sockets; a write that fails after part of the bytes (a failed write writes nothing); the time of day of dates, which the code drops; non-ASCII text in the
  generator.

  \<^bold>\<open>What is left to do:\<close> fairness of the mutex, which the model leaves to the scheduler.
\<close>

section \<open>Serving a connection\<close>

text \<open>
  C1: Requests are answered one by one, in order, each with one frame under its own id and
  each on the state the previous one left, until \<^verbatim>\<open>C_Finalize\<close> or the first error that is
  not a PKCS #11 code; what a client attaches as options makes no difference. The loop
  always ends on a finite input.
\<close>

theorem requests_answered_in_order:
  assumes "answers env rs st = (Some out, st')" and "list_all ordinary rs"
    and "io_in c = concat (map request_frame rs) @ rest" and "writes_left c = None"
  shows "serve env st c = serve env st' (c\<lparr>io_in := rest, io_out := io_out c @ out\<rparr>)"
  using assms by (rule serve_answers)

theorem requests_answered_in_order_witness:
  "\<exists>out. answers sample_env [(1, [7], find_final_request 5)] sample_state = (Some out, sample_state) \<and>
    serve sample_env sample_state \<lparr>io_in = frame 1 [7] (find_final_request 5), io_out = [],
        writes_left = None\<rparr> =
      serve sample_env sample_state \<lparr>io_in = [], io_out = out, writes_left = None\<rparr>"
proof -
  let ?r = "(1, [7], find_final_request 5)"
  let ?c = "\<lparr>io_in = frame 1 [7] (find_final_request 5), io_out = [], writes_left = None\<rparr>"
  have "map_of (handlers sample_env) callFindObjectsFinal = Some handleFindObjectsFinal"
    by (simp add: handlers_def)
  moreover have "b_call (find_final_request 5) = callFindObjectsFinal"
    by (simp add: find_final_request_def body_of_fields)
  ultimately have "respond sample_env (find_final_request 5) sample_state =
      (Inr (body_of callFindObjectsFinal [] []), sample_state)"
    by (simp add: respond_def run_handler_def handleFindObjectsFinal_request)
  then obtain out where out: "answers sample_env [?r] sample_state = (Some out, sample_state)" by simp
  have "serve sample_env sample_state ?c =
      serve sample_env sample_state (?c\<lparr>io_in := [], io_out := io_out ?c @ out\<rparr>)"
    by (rule requests_answered_in_order [OF out])
      (simp_all add: find_final_request_def body_of_fields frame_ok_def)
  then show ?thesis using out by auto
qed

text \<open>
  C13: A connection whose requests are answered ends when the client finalizes: \<^verbatim>\<open>Handle\<close> returns
  without an error, having written version 0, one answer for each request and one for
  \<^verbatim>\<open>C_Finalize\<close>, and without reading on; no version that the client proposes, and nothing
  that it sends after \<^verbatim>\<open>C_Finalize\<close>, makes a difference.
\<close>

theorem finalize_ends_connection:
  assumes "answers env rs \<lparr>world = w, server = H, conn = new_handler\<rparr> = (Some out, st)"
    and "list_all ordinary rs" and "frame_ok options fin" and "b_error fin = None"
    and "b_call fin = callFinalize"
    and "io_in c = version # concat (map request_frame rs) @ frame callID options fin @ rest"
    and "io_out c = []" and "writes_left c = None"
  shows "Handle env w H c =
    (None, st, c\<lparr>io_in := rest, io_out := 0 # out @ frame callID [] fin\<rparr>)"
  using assms by (rule Handle_finalize)

theorem finalize_ends_connection_witness:
  "Handle sample_env 0 (server sample_state)
     \<lparr>io_in = 7 # frame 3 [] (body_of callFinalize [] []) @ [1, 2], io_out = [], writes_left = None\<rparr> =
   (None, \<lparr>world = 0, server = server sample_state, conn = new_handler\<rparr>,
    \<lparr>io_in = [1, 2], io_out = 0 # frame 3 [] (body_of callFinalize [] []), writes_left = None\<rparr>)"
  using finalize_ends_connection [of sample_env "[]" 0 "server sample_state" "[]" _ "[]"
      "body_of callFinalize [] []" "\<lparr>io_in = 7 # frame 3 [] (body_of callFinalize [] []) @ [1, 2],
        io_out = [], writes_left = None\<rparr>" 7 3 "[1, 2]"]
  by (simp add: body_of_fields frame_ok_def)

text \<open>
  Whatever version a client proposes, the server answers with version 0 and serves the
  rest of the input on a connection without sessions; only a peer that sends nothing, or
  that cannot be written to, is turned away, and then no request is read.
\<close>

lemma any_version_is_clamped:
  "Handle env w H \<lparr>io_in = version # rest, io_out = [], writes_left = None\<rparr> =
     serve env \<lparr>world = w, server = H, conn = new_handler\<rparr>
       \<lparr>io_in = rest, io_out = [0], writes_left = None\<rparr> \<and>
   Handle env w H \<lparr>io_in = [], io_out = [], writes_left = n\<rparr> =
     (Some (ErrNegotiate ErrReadVersion), \<lparr>world = w, server = H, conn = new_handler\<rparr>,
      \<lparr>io_in = [], io_out = [], writes_left = n\<rparr>) \<and>
   Handle env w H \<lparr>io_in = version # rest, io_out = [], writes_left = Some 0\<rparr> =
     (Some (ErrNegotiate ErrWriteVersion), \<lparr>world = w, server = H, conn = new_handler\<rparr>,
      \<lparr>io_in = rest, io_out = [], writes_left = Some 0\<rparr>)"
  by (simp add: Handle_def negotiateProtocolVersion_def buffer_byte_def conn_write_def
      protocolVersion_def split: unit.split)

section \<open>The concurrent server\<close>

text \<open>
  C2: However the requests of any number of connections interleave, each answered by its
  handler and the generation of key pairs interrupted between the objects it persists, every
  session is on a slot that exists, holds only objects whose values are of their types' kinds
  (so each can be encoded), and signs only with a key that supports the session's mechanism;
  the objects of the slots are such objects too.
\<close>

theorem concurrent_invariant:
  assumes "callbacks_ok env" and "server_ok H" and "live_steps env (boot w H) R"
    and "live_conn R c = Some h" and "lookup_session h i = Some s"
  shows "server_ok (live_server R) \<and> s_slotID s \<in> slot_ID ` set (Slots (live_server R)) \<and>
    list_all typed_object (s_objects s) \<and>
    (signObject s = zero_object \<or> supports (signObject s) (signMechanism s) = Inr ())"
  using reachable_system_ok [OF assms(1-3)] assms(4,5)
  by (auto simp: system_ok_def handler_ok_def session_ok_def list_all_iff)

lemma sample_ok: "callbacks_ok sample_env" "server_ok (server sample_state)" "state_ok sample_state"
proof -
  show "callbacks_ok sample_env" by (simp add: callbacks_ok_def sample_env_def)
  have wf: "typed_object (SetID zero_object n)" for n
    by (simp add: typed_object_def SetID_def zero_object_def)
  show "server_ok (server sample_state)" by (simp add: server_ok_def sample_slot_def wf)
  then show "state_ok sample_state"
    by (auto simp: state_ok_def handler_ok_def session_ok_def sample_state_def lookup_session_def
        sample_session_def fresh_session_def sample_slot_def wf split: if_splits)
qed

text \<open>A connection that opens a session, and one that initializes the token.\<close>

lemma one_connection: "live_step env (boot w H)
    (put_conn c \<lparr>world = w, server = H, conn = new_handler\<rparr> None (boot w H))"
  using live_step.accept [of "boot w H" c env] by (simp add: start_def view_def)

lemma one_answer:
  assumes "respond env req \<lparr>world = w, server = H, conn = new_handler\<rparr> = (r, st)"
  shows "live_steps env (put_conn c \<lparr>world = w, server = H, conn = new_handler\<rparr> None (boot w H))
    (put_conn c st None (boot w H))"
proof -
  let ?R = "put_conn c \<lparr>world = w, server = H, conn = new_handler\<rparr> None (boot w H)"
  have "live_step env ?R (put_conn c st None ?R)"
    by (rule live_step.request [of _ _ new_handler]) (use assms in \<open>simp_all add: view_def\<close>)
  then show ?thesis by (simp add: r_into_rtranclp)
qed

lemma sample_session_reachable:
  "\<exists>R h. live_steps sample_env (boot 0 (server sample_state)) R \<and> live_conn R 3 = Some h \<and>
     lookup_session h 1 = Some sample_session"
proof -
  have "GetObjects (Slots (server sample_state) ! 0) = None" by (simp add: sample_slot_def)
  then obtain h where opn: "handleOpenSession sample_env (open_request 1 4)
      \<lparr>world = 0, server = server sample_state, conn = new_handler\<rparr> =
      (Inr (writeUlong (body_of callOpenSession [] []) 1), \<lparr>world = 0, server = server sample_state, conn = h\<rparr>)"
    and h: "lookup_session h 1 = Some sample_session"
    using opened_session [OF sample_slot_index, of sample_env 0] by (auto simp: sample_session_def)
  from one_answer [OF respond_calls(1) [OF opn], of 3]
  have "live_steps sample_env (boot 0 (server sample_state))
      (put_conn 3 \<lparr>world = 0, server = server sample_state, conn = h\<rparr> None (boot 0 (server sample_state)))"
    using one_connection by (rule converse_rtranclp_into_rtranclp [rotated])
  then show ?thesis using h by force
qed

theorem concurrent_invariant_witness:
  "\<exists>R. live_steps sample_env (boot 0 (server sample_state)) R \<and> server_ok (live_server R) \<and>
    s_slotID sample_session \<in> slot_ID ` set (Slots (live_server R)) \<and>
    list_all typed_object (s_objects sample_session)"
proof -
  obtain R h where R: "live_steps sample_env (boot 0 (server sample_state)) R"
    "live_conn R 3 = Some h" "lookup_session h 1 = Some sample_session"
    using sample_session_reachable by blast
  from concurrent_invariant [OF sample_ok(1,2) R] R(1) show ?thesis by blast
qed

text \<open>
  C24: The slots a client sees never go back, whatever requests the connections send and
  however their handlers interleave: no slot appears, disappears or changes its identity, an
  initialized token stays initialized under its label, and token objects are only added, at
  the end.
\<close>

theorem slots_only_grow:
  assumes "live_steps env (boot w H) R" and "live_steps env R R'"
    and "k < length (Slots (live_server R))"
  shows "map slot_ID (Slots (live_server R')) = map slot_ID (Slots (live_server R)) \<and>
    (Initialized (Slots (live_server R) ! k) \<longrightarrow> Initialized (Slots (live_server R') ! k) \<and>
      Label (Slots (live_server R') ! k) = Label (Slots (live_server R) ! k)) \<and>
    (\<exists>objs. Objects (Slots (live_server R') ! k) = Objects (Slots (live_server R) ! k) @ objs)"
proof -
  have le: "server_le (live_server R) (live_server R')" by (rule reachable_server_le [OF assms(1,2)])
  then have "slot_le (Slots (live_server R) ! k) (Slots (live_server R') ! k)"
    using assms(3) by (auto simp: server_le_def list_all2_conv_all_nth)
  then show ?thesis using server_le_IDs [OF le] by (auto simp: slot_le_def)
qed

theorem slots_only_grow_witness:
  "\<exists>R R'. live_steps sample_env (boot 0 (server sample_state)) R \<and> live_steps sample_env R R' \<and>
    \<not> Initialized (Slots (live_server R) ! 0) \<and> Initialized (Slots (live_server R') ! 0) \<and>
    map slot_ID (Slots (live_server R')) = [1] \<and>
    (\<exists>objs. Objects (Slots (live_server R') ! 0) = Objects sample_slot @ objs)"
proof -
  let ?st = "\<lparr>world = 0, server = server sample_state, conn = new_handler\<rparr> :: nat state"
  let ?R = "put_conn 3 ?st None (boot 0 (server sample_state))"
  have slot: "slot_index (Slots (server ?st)) 1 = Some 0" "\<not> Initialized (Slots (server ?st) ! 0)"
    by (simp_all add: sample_slot_def)
  obtain st where init: "init_token 1 ''tok'' ?st = (Inr (), st)" and set: "Initialized (Slots (server st) ! 0)"
    using init_token_once [OF slot, of "''tok''" "[]"] by auto
  have req: "map_of (handlers sample_env) callInitToken = Some handleInitToken"
    "b_call (init_token_request 1 [] ''tok'') = callInitToken"
    by (simp_all add: handlers_def init_token_request_def body_of_fields)
  have "respond sample_env (init_token_request 1 [] ''tok'') ?st = (Inr (body_of callInitToken [] []), st)"
    using init req by (simp add: respond_def run_handler_def handleInitToken_request act_bind_def)
  then have steps: "live_steps sample_env ?R (put_conn 3 st None (boot 0 (server sample_state)))"
    by (rule one_answer)
  have reach: "live_steps sample_env (boot 0 (server sample_state)) ?R"
    using one_connection by (rule r_into_rtranclp)
  from slots_only_grow [OF reach steps, of 0] reach steps set slot(2) show ?thesis
    by (intro exI [of _ ?R] exI [of _ "put_conn 3 st None (boot 0 (server sample_state))"])
      (simp add: sample_slot_def)
qed

text \<open>Connection 3 of a server on which nothing has happened yet.\<close>

definition sample_system :: "nat system" where
  "sample_system = (start 0 (server sample_state))\<lparr>sys_conns := [3 \<mapsto> new_handler]\<rparr>"

text \<open>
  C3: Serving a connection, however its input goes on, is a run of the concurrent server in
  which only that connection and the shared slots change: the sessions of every other
  connection are untouched.
\<close>

theorem connections_are_isolated:
  assumes "sys_conns S c = Some h" and "serve env (view S h) io = (e, st', io')"
  shows "sys_steps env S (put_view c st' S) \<and>
    (\<forall>d. d \<noteq> c \<longrightarrow> sys_conns (put_view c st' S) d = sys_conns S d)"
proof -
  have "st_steps env (view S h) st'" using serve_steps [of env "view S h" io] assms(2) by simp
  then show ?thesis using st_steps_sys assms(1) by simp
qed

theorem connections_are_isolated_witness:
  "\<exists>e st' io'. serve sample_env (view sample_system new_handler) \<lparr>io_in = [], io_out = [],
      writes_left = None\<rparr> = (e, st', io') \<and>
    sys_steps sample_env sample_system (put_view 3 st' sample_system) \<and>
    (\<forall>d. d \<noteq> 3 \<longrightarrow> sys_conns (put_view 3 st' sample_system) d = sys_conns sample_system d)"
proof -
  obtain e st' io' where s: "serve sample_env (view sample_system new_handler) \<lparr>io_in = [], io_out = [],
      writes_left = None\<rparr> = (e, st', io')" by (metis prod_cases3)
  have "sys_conns sample_system 3 = Some new_handler" by (simp add: sample_system_def)
  from connections_are_isolated [OF this s] s show ?thesis by blast
qed

text \<open>
  In every state a connection can reach, persisting a generated key cannot fail: the slot
  of the session exists, so the error path between creating the objects and answering is
  dead and no key is created without its handle being returned.
\<close>

lemma persist_cannot_fail:
  assumes "callbacks_ok env" and "state_ok st" and "st_steps env st st'"
    and "lookup_session (conn st') i = Some s"
  shows "fst (persist_tokens (s_slotID s) objs st') = Inr ()"
proof -
  have "state_ok st'" using state.steps_preserve [OF assms(3)] assms(1,2) by blast
  then have "s_slotID s \<in> slot_ID ` set (Slots (server st'))"
    using assms(4) by (auto simp: state_ok_def handler_ok_def session_ok_def)
  then obtain k where "slot_index (Slots (server st')) (s_slotID s) = Some k"
    using slot_index_None by fastforce
  then show ?thesis using persist_tokens_result [of st' "s_slotID s" k objs] by auto
qed

lemma persist_cannot_fail_witness:
  "fst (persist_tokens (s_slotID sample_session) [SetID zero_object 7] sample_state) = Inr ()"
  by (rule persist_cannot_fail [OF sample_ok(1,3) rtranclp.rtrancl_refl sample_lookup])

end
